(* ===== verification/Prelude.thy ===== *)
theory Prelude
  imports Main "HOL-Library.Multiset"
begin

text \<open>
  Shared vocabulary of the development: the JavaScript primitives the scripts
  call (\<open>Array.prototype.slice\<close>, \<open>String.prototype.lastIndexOf\<close>,
  \<open>String.prototype.substr\<close>, the defaulting idiom \<open>a || b\<close>), the names of
  the model's types, and generic list lemmas the component theories share.
  The collection \<open>js_simps\<close> gathers the evaluation equations of these
  primitives so that the component proofs can say \<open>simp add: js_simps\<close>.
\<close>

named_theorems js_simps "evaluation equations of the modelled JavaScript primitives"

type_synonym path = string

text \<open>
  The errors the scripts can raise or receive, as values. Each constructor
  names the JavaScript or Node.js error it stands for.
\<close>

datatype js_error =
    UndefinedProperty string  \<comment> \<open>TypeError: cannot read property of undefined\<close>
  | InvalidArgType string     \<comment> \<open>ERR_INVALID_ARG_TYPE raised by a Node.js API\<close>
  | ENOENT path               \<comment> \<open>no such file or directory\<close>
  | EISDIR path               \<comment> \<open>the target of a write is a directory\<close>
  | ENOTDIR path              \<comment> \<open>a path component is not a directory\<close>
  | EEXIST path               \<comment> \<open>the target of mkdir already exists\<close>
  | ExtractionError string    \<comment> \<open>the error object tika.text passes to its callback\<close>

text \<open>
  What the scripts print, one constructor per \<open>console.log\<close> or
  \<open>console.error\<close> call site; the dates the sequential script prints are left
  out.
\<close>

datatype log_event =
    LogProcessingFile path      \<comment> \<open>\<open>Processing file ${filePath}\<close>\<close>
  | LogSavedFile path           \<comment> \<open>\<open>Saved file\<close>, with the normalized path\<close>
  | LogConsoleError js_error    \<comment> \<open>\<open>console.error(error)\<close>\<close>
  | LogStartingWorkers nat      \<comment> \<open>\<open>Starting ${workerCount} workers...\<close>\<close>
  | LogWorkerStarted nat nat    \<comment> \<open>\<open>Worker ${id} started with ${n} tasks\<close>\<close>
  | LogWorkerDone nat           \<comment> \<open>\<open>Worker ${id} is done\<close>\<close>
  | LogWorkerError js_error     \<comment> \<open>\<open>Worker error: ${error}\<close>\<close>
  | LogProgress nat nat         \<comment> \<open>\<open>Processing file ${k} of ${n}\<close>\<close>
  | LogStarted                  \<comment> \<open>\<open>Started file processing\<close>\<close>
  | LogFinished nat             \<comment> \<open>\<open>Finished processing ${n} files\<close>\<close>

subsection \<open>Arrays\<close>

text \<open>
  \<open>arr.slice(b, e)\<close> with non-negative \<open>b\<close>, \<open>e\<close>: the elements with index in
  \<open>[b, e)\<close>, both bounds clamped to the length of the array (ECMA-262,
  Array.prototype.slice, steps 3 to 8).
\<close>

definition js_slice :: "'a list \<Rightarrow> nat \<Rightarrow> nat \<Rightarrow> 'a list" where
  "js_slice xs b e = take (e - b) (drop b xs)"

text \<open>
  \<open>arr[i]\<close> for a non-negative index: \<open>undefined\<close> (here \<open>None\<close>) past the end.
\<close>

definition js_index :: "'a list \<Rightarrow> nat \<Rightarrow> 'a option" where
  "js_index xs i = (if i < length xs then Some (xs ! i) else None)"

subsection \<open>Strings\<close>

text \<open>
  \<open>s.lastIndexOf(c)\<close> for a one-character search string: the greatest index
  holding \<open>c\<close>, or \<open>-1\<close>.
\<close>

fun js_last_index_of :: "'a \<Rightarrow> 'a list \<Rightarrow> int" where
  "js_last_index_of c [] = -1"
| "js_last_index_of c (x # xs) =
     (let r = js_last_index_of c xs in
      if 0 \<le> r then r + 1 else if x = c then 0 else -1)"

text \<open>
  \<open>s.substr(start)\<close> (Annex B): a negative start counts from the end and is
  clamped at 0; the result runs to the end of the string.
\<close>

definition js_substr_from :: "'a list \<Rightarrow> int \<Rightarrow> 'a list" where
  "js_substr_from s start =
     (let n = int (length s);
          st = (if start < 0 then max (n + start) 0 else min start n)
      in drop (nat st) s)"

text \<open>
  \<open>arg || dflt\<close> on an optional string argument: \<open>undefined\<close> (\<open>None\<close>) and the
  empty string are falsy and select the default.
\<close>

definition js_or :: "string option \<Rightarrow> string \<Rightarrow> string" where
  "js_or a d = (case a of None \<Rightarrow> d | Some s \<Rightarrow> if s = [] then d else s)"

text \<open>
  \<open>arg || prop\<close> where the default is itself an optional property: it stays
  \<open>undefined\<close> when both are.
\<close>

definition js_or_opt :: "string option \<Rightarrow> string option \<Rightarrow> string option" where
  "js_or_opt a d = (case a of None \<Rightarrow> d | Some s \<Rightarrow> if s = [] then d else Some s)"

subsection \<open>Evaluation equations\<close>

declare js_slice_def [js_simps] js_index_def [js_simps] js_substr_from_def [js_simps]

lemma js_or_simps [simp, js_simps]:
  "js_or None d = d"
  "js_or (Some s) d = (if s = [] then d else s)"
  by (simp_all add: js_or_def)

lemma js_or_opt_simps [simp, js_simps]:
  "js_or_opt None d = d"
  "js_or_opt (Some s) d = (if s = [] then d else Some s)"
  by (simp_all add: js_or_opt_def)

subsection \<open>Properties of the primitives\<close>

lemma js_last_index_of_range:
  "-1 \<le> js_last_index_of c xs \<and> js_last_index_of c xs < int (length xs)"
  by (induction xs) (auto simp: Let_def)

lemma js_last_index_of_snoc:
  "js_last_index_of c (xs @ [x]) =
     (if x = c then int (length xs) else js_last_index_of c xs)"
proof (induction xs)
  case Nil
  then show ?case by simp
next
  case (Cons y ys)
  have "-1 \<le> js_last_index_of c ys" using js_last_index_of_range [of c ys] by simp
  with Cons show ?case by (auto simp: Let_def)
qed

text \<open>
  What \<open>s.substr(s.lastIndexOf(c) + 1)\<close> returns: the part of \<open>s\<close> after the
  last \<open>c\<close>, or all of \<open>s\<close> when there is none.
\<close>

lemma substr_after_last_snoc:
  "js_substr_from (xs @ [x]) (js_last_index_of c (xs @ [x]) + 1) =
     (if x = c then [] else js_substr_from xs (js_last_index_of c xs + 1) @ [x])"
proof -
  have r: "-1 \<le> js_last_index_of c xs \<and> js_last_index_of c xs < int (length xs)"
    by (rule js_last_index_of_range)
  then show ?thesis
    by (auto simp: js_last_index_of_snoc js_substr_from_def Let_def)
qed

end
