(* ===== verification/Partition.thy ===== *)
theory Partition
  imports Prelude
begin

text \<open>
  The partitioning of the file list in \<open>src/extract-multicore.js\<close>:
  \<open>chunkArray\<close> (lines 134--144), the worker count and the batch table built
  by \<open>prepareCluster\<close> (lines 73--74), and the lookup
  \<open>fileListBatches[cluster.worker.id - 1]\<close> a worker makes (lines 86--88).
  The \<open>for\<close> loop of \<open>chunkArray\<close> advances by \<open>chunkSize\<close>, which may be
  0, so it is a \<^theory_text>\<open>partial_function (option)\<close>: \<open>None\<close> is the loop that
  never ends. The total function \<open>chunks\<close> is the reference it computes when
  the chunk size is positive.
\<close>

subsection \<open>The loop of chunkArray\<close>

partial_function (option) chunk_loop ::
  "'a list \<Rightarrow> nat \<Rightarrow> nat \<Rightarrow> 'a list list \<Rightarrow> 'a list list option" where
  "chunk_loop arr chunkSize i groups =
     (if i < length arr
      then chunk_loop arr chunkSize (i + chunkSize)
             (groups @ [js_slice arr i (i + chunkSize)])
      else Some groups)"

definition chunkArray :: "'a list \<Rightarrow> nat \<Rightarrow> 'a list list option" where
  "chunkArray arr chunkSize = chunk_loop arr chunkSize 0 []"

subsection \<open>Reference: consecutive chunks of a fixed size\<close>

function chunks :: "nat \<Rightarrow> 'a list \<Rightarrow> 'a list list" where
  "chunks k xs = (if xs = [] \<or> k = 0 then [] else take k xs # chunks k (drop k xs))"
  by pat_completeness auto
termination
  by (relation "measure (\<lambda>(k, xs). length xs)") auto

declare chunks.simps [simp del]

declare chunk_loop.simps [code]

subsection \<open>Worker count and batch table\<close>

text \<open>\<open>Math.min(os.cpus().length, fileList.length)\<close>.\<close>

definition workerCount :: "nat \<Rightarrow> 'a list \<Rightarrow> nat" where
  "workerCount cpus fileList = min cpus (length fileList)"

text \<open>\<open>chunkArray(fileList, workerCount)\<close>: the worker count is passed as the
  chunk size.\<close>

definition fileListBatches :: "nat \<Rightarrow> 'a list \<Rightarrow> 'a list list option" where
  "fileListBatches cpus fileList = chunkArray fileList (workerCount cpus fileList)"

text \<open>
  \<open>fileListBatches[cluster.worker.id - 1].length\<close>: a worker id past the table
  reads \<open>undefined\<close>, and reading \<open>.length\<close> of it throws a TypeError.
\<close>

definition worker_batch :: "'a list list \<Rightarrow> nat \<Rightarrow> js_error + 'a list" where
  "worker_batch batches wid =
     (if wid = 0 then Inl (UndefinedProperty ''length'')
      else case js_index batches (wid - 1) of
             None \<Rightarrow> Inl (UndefinedProperty ''length'')
           | Some b \<Rightarrow> Inr b)"

text \<open>
  The files a worker with a given id is handed: its batch, or nothing when the
  lookup throws (the worker process then dies before it starts any work).
\<close>

definition handed_out :: "'a list list \<Rightarrow> nat \<Rightarrow> 'a list" where
  "handed_out batches wid = (case worker_batch batches wid of Inl _ \<Rightarrow> [] | Inr b \<Rightarrow> b)"

subsection \<open>The loop: result when the chunk size is positive, divergence otherwise\<close>

lemma chunks_Nil [simp]: "chunks k [] = []"
  by (simp add: chunks.simps)

lemma chunks_Cons:
  "0 < k \<Longrightarrow> xs \<noteq> [] \<Longrightarrow> chunks k xs = take k xs # chunks k (drop k xs)"
  by (subst chunks.simps) simp

lemma chunk_loop_positive:
  assumes "0 < k"
  shows "chunk_loop arr k i g = Some (g @ chunks k (drop i arr))"
proof (induction "length arr - i" arbitrary: i g rule: less_induct)
  case less
  show ?case
  proof (cases "i < length arr")
    case True
    have "length arr - (i + k) < length arr - i" using True assms by arith
    then have IH: "chunk_loop arr k (i + k) (g @ [js_slice arr i (i + k)]) =
        Some ((g @ [js_slice arr i (i + k)]) @ chunks k (drop (i + k) arr))"
      by (rule less)
    have "chunks k (drop i arr) = take k (drop i arr) # chunks k (drop (i + k) arr)"
      using True assms by (simp add: chunks_Cons add.commute)
    with True IH show ?thesis
      by (subst chunk_loop.simps) (simp add: js_slice_def)
  next
    case False
    then show ?thesis by (subst chunk_loop.simps) simp
  qed
qed

text \<open>
  Partial correctness by fixpoint induction: whenever the loop returns, the
  chunk size was positive or the index had already reached the end.
\<close>

lemma chunk_loop_returns:
  assumes ret: "chunk_loop arr k i g = Some r"
  shows "0 < k \<or> length arr \<le> i"
proof (rule chunk_loop.raw_induct [where P = "\<lambda>arr k i g r. 0 < k \<or> length arr \<le> i", OF _ ret])
  fix f :: "'a list \<Rightarrow> nat \<Rightarrow> nat \<Rightarrow> 'a list list \<Rightarrow> 'a list list option"
    and arr k i g r
  assume IH: "\<And>arr k i g r. f arr k i g = Some r \<Longrightarrow> 0 < k \<or> length arr \<le> i"
    and eq: "(if i < length arr then f arr k (i + k) (g @ [js_slice arr i (i + k)])
             else Some g) = Some r"
  show "0 < k \<or> length arr \<le> i"
  proof (rule ccontr)
    assume k: "\<not> (0 < k \<or> length arr \<le> i)"
    with eq have "f arr k i (g @ [js_slice arr i (i + k)]) = Some r" by simp
    then have "0 < k \<or> length arr \<le> i" by (rule IH)
    with k show False by simp
  qed
qed

lemma chunk_loop_zero_diverges:
  "i < length arr \<Longrightarrow> chunk_loop arr 0 i g = None"
  using chunk_loop_returns [of arr 0 i g] by fastforce

lemma chunk_loop_Nil: "chunk_loop [] k i g = Some g"
  by (subst chunk_loop.simps) simp

lemma chunkArray_eq:
  assumes "0 < k \<or> arr = []"
  shows "chunkArray arr k = Some (chunks k arr)"
proof (cases "arr = []")
  case True
  then show ?thesis by (simp add: chunkArray_def chunk_loop_Nil)
next
  case False
  with assms show ?thesis by (simp add: chunkArray_def chunk_loop_positive)
qed

lemma chunkArray_None:
  "\<not> (0 < k \<or> arr = []) \<Longrightarrow> chunkArray arr k = None"
  by (simp add: chunkArray_def chunk_loop_zero_diverges)

lemma chunkArray_SomeD:
  assumes "chunkArray arr k = Some g"
  shows "(0 < k \<or> arr = []) \<and> g = chunks k arr"
proof (cases "0 < k \<or> arr = []")
  case True
  with assms show ?thesis by (simp add: chunkArray_eq)
next
  case False
  with assms show ?thesis by (simp add: chunkArray_None)
qed

subsection \<open>Shape of the chunks\<close>

lemma div_ceil_step:
  assumes "0 < k" "0 < n"
  shows "(n + k - 1) div k = Suc ((n - k + k - 1) div k)"
proof (cases "n \<le> k")
  case True
  then have "(n + k - 1) div k = 1"
    using assms by (intro div_nat_eqI) auto
  moreover have "(n - k + k - 1) div k = 0"
    using True assms by simp
  ultimately show ?thesis by simp
next
  case False
  obtain m where n: "n = Suc m" using assms(2) by (cases n) auto
  with False have "n - k + k - 1 = m" by simp
  moreover have "(n + k - 1) div k = Suc (m div k)"
    using assms(1) by (simp add: n div_add_self2)
  ultimately show ?thesis by simp
qed

lemma concat_chunks: "0 < k \<Longrightarrow> concat (chunks k xs) = xs"
proof (induction k xs rule: chunks.induct)
  case (1 k xs)
  then show ?case
    by (cases "xs = []") (simp_all add: chunks_Cons)
qed

lemma length_chunks: "0 < k \<Longrightarrow> length (chunks k xs) = (length xs + k - 1) div k"
proof (induction k xs rule: chunks.induct)
  case (1 k xs)
  show ?case
  proof (cases "xs = []")
    case True
    with "1.prems" show ?thesis by simp
  next
    case False
    with "1.IH" "1.prems" have "length (chunks k (drop k xs)) = (length xs - k + k - 1) div k"
      by simp
    moreover have "(length xs + k - 1) div k = Suc ((length xs - k + k - 1) div k)"
      using "1.prems" False by (intro div_ceil_step) simp_all
    ultimately show ?thesis using False "1.prems" by (simp add: chunks_Cons)
  qed
qed

lemma nth_chunks:
  "0 < k \<Longrightarrow> i < length (chunks k xs) \<Longrightarrow> chunks k xs ! i = take k (drop (i * k) xs)"
proof (induction k xs arbitrary: i rule: chunks.induct)
  case (1 k xs)
  then have ne: "xs \<noteq> []" by (cases "xs = []") simp_all
  show ?case
  proof (cases i)
    case 0
    with ne "1.prems" show ?thesis by (simp add: chunks_Cons)
  next
    case (Suc j)
    with ne "1.prems" have "j < length (chunks k (drop k xs))" by (simp add: chunks_Cons)
    with "1.IH" ne "1.prems" have "chunks k (drop k xs) ! j = take k (drop (j * k) (drop k xs))"
      by simp
    with Suc ne "1.prems" show ?thesis by (simp add: chunks_Cons add.commute)
  qed
qed

lemma concat_take_chunks:
  "0 < k \<Longrightarrow> concat (take m (chunks k xs)) = take (m * k) xs"
proof (induction k xs arbitrary: m rule: chunks.induct)
  case (1 k xs)
  show ?case
  proof (cases "xs = [] \<or> m = 0")
    case True
    with "1.prems" show ?thesis by auto
  next
    case False
    then obtain m' where m: "m = Suc m'" and ne: "xs \<noteq> []" by (cases m) auto
    with "1.IH" "1.prems" have "concat (take m' (chunks k (drop k xs))) = take (m' * k) (drop k xs)"
      by simp
    with m ne "1.prems" show ?thesis by (simp add: chunks_Cons take_add)
  qed
qed

lemma index_lt_length_chunks:
  assumes "0 < k"
  shows "i < length (chunks k xs) \<longleftrightarrow> i * k < length xs"
proof -
  have "i < length (chunks k xs) \<longleftrightarrow> Suc i \<le> (length xs + k - 1) div k"
    using assms by (simp add: length_chunks Suc_le_eq)
  also have "\<dots> \<longleftrightarrow> Suc i * k \<le> length xs + k - 1"
    using assms by (rule less_eq_div_iff_mult_less_eq)
  also have "\<dots> \<longleftrightarrow> i * k < length xs"
    using assms by auto
  finally show ?thesis .
qed

lemma length_nth_chunks:
  assumes "0 < k" "i < length (chunks k xs)"
  shows "0 < length (chunks k xs ! i) \<and> length (chunks k xs ! i) \<le> k
         \<and> (Suc i < length (chunks k xs) \<longrightarrow> length (chunks k xs ! i) = k)"
proof -
  have eq: "chunks k xs ! i = take k (drop (i * k) xs)" using assms by (rule nth_chunks)
  have "i * k < length xs" using assms index_lt_length_chunks by blast
  moreover have "Suc i < length (chunks k xs) \<longrightarrow> Suc i * k < length xs"
    using assms(1) index_lt_length_chunks by blast
  ultimately show ?thesis using assms(1) by (auto simp: eq)
qed

subsection \<open>The batch table and the worker ids\<close>

lemma fileListBatches_chunks:
  "0 < cpus \<or> fileList = [] \<Longrightarrow>
   fileListBatches cpus fileList = Some (chunks (workerCount cpus fileList) fileList)"
  unfolding fileListBatches_def by (rule chunkArray_eq) (auto simp: workerCount_def)

lemma concat_handed_out:
  "concat (map (handed_out bs) [1..<Suc m]) = concat (take m bs)"
proof (induction m)
  case 0
  then show ?case by simp
next
  case (Suc m)
  have "handed_out bs (Suc m) = (if m < length bs then bs ! m else [])"
    by (simp add: handed_out_def worker_batch_def js_index_def)
  with Suc show ?case by (simp add: take_Suc_conv_app_nth)
qed

lemma handed_out_total:
  assumes "0 < cpus"
  shows "fileListBatches cpus fileList = Some (chunks (workerCount cpus fileList) fileList) \<and>
         concat (map (handed_out (chunks (workerCount cpus fileList) fileList))
                   [1..<Suc (workerCount cpus fileList)])
           = take (workerCount cpus fileList * workerCount cpus fileList) fileList"
proof (cases "fileList = []")
  case True
  then show ?thesis by (simp add: fileListBatches_chunks workerCount_def)
next
  case False
  with assms have k: "0 < workerCount cpus fileList" by (simp add: workerCount_def)
  have "concat (take (workerCount cpus fileList) (chunks (workerCount cpus fileList) fileList))
      = take (workerCount cpus fileList * workerCount cpus fileList) fileList"
    using k by (rule concat_take_chunks)
  moreover have "fileListBatches cpus fileList = Some (chunks (workerCount cpus fileList) fileList)"
    using assms by (simp add: fileListBatches_chunks)
  ultimately show ?thesis by (simp only: concat_handed_out)
qed

lemma take_square_all_iff:
  assumes "0 < cpus"
  shows "take (workerCount cpus xs * workerCount cpus xs) xs = xs \<longleftrightarrow> length xs \<le> cpus * cpus"
proof (cases "length xs \<le> cpus")
  case True
  then have w: "workerCount cpus xs = length xs" by (simp add: workerCount_def)
  have "length xs \<le> length xs * length xs" by (cases "length xs") auto
  moreover have "length xs * length xs \<le> cpus * cpus" using True by (intro mult_le_mono)
  ultimately show ?thesis by (simp only: w take_all_iff) (blast intro: le_trans)
next
  case False
  then have "workerCount cpus xs = cpus" by (simp add: workerCount_def)
  then show ?thesis by (simp only: take_all_iff)
qed

subsection \<open>Properties of the partitioning\<close>

text \<open>
  C1. Every file is processed only when the list has at most \<open>cpus\<^sup>2\<close>
  files: the workers with ids \<open>1..workerCount\<close> are together handed the whole
  file list exactly when its length is at most the square of the CPU count.
  Past that, the batches beyond the first \<open>workerCount\<close> are never read.
\<close>

theorem cluster_covers_iff:
  assumes "0 < cpus" "fileListBatches cpus fileList = Some bs"
  shows "concat (map (handed_out bs) [1..<Suc (workerCount cpus fileList)]) = fileList
           \<longleftrightarrow> length fileList \<le> cpus * cpus"
  using handed_out_total [OF assms(1), of fileList] assms take_square_all_iff [OF assms(1), of fileList]
  by simp

theorem cluster_covers_iff_witness:
  "fileListBatches 2 [1 :: nat, 2, 3, 4, 5] = Some [[1, 2], [3, 4], [5]] \<and>
   concat (map (handed_out [[1, 2], [3, 4], [5]]) [1..<Suc (workerCount 2 [1 :: nat, 2, 3, 4, 5])])
     \<noteq> [1 :: nat, 2, 3, 4, 5]"
proof -
  have h: "fileListBatches 2 [1 :: nat, 2, 3, 4, 5] = Some [[1, 2], [3, 4], [5]]"
    by (simp add: fileListBatches_def workerCount_def chunkArray_def chunk_loop.simps js_slice_def)
  have "\<not> length [1 :: nat, 2, 3, 4, 5] \<le> 2 * 2" by simp
  with cluster_covers_iff [OF _ h] have
    "concat (map (handed_out [[1, 2], [3, 4], [5]]) [1..<Suc (workerCount 2 [1 :: nat, 2, 3, 4, 5])])
       \<noteq> [1 :: nat, 2, 3, 4, 5]" by simp
  with h show ?thesis by simp
qed

text \<open>
  C2. What the workers are handed, in worker-id order, is the prefix of the
  file list of length \<open>workerCount\<^sup>2\<close>: no file is handed out twice and the
  order of the list is kept.
\<close>

theorem cluster_hands_out_prefix:
  assumes "0 < cpus" "fileListBatches cpus fileList = Some bs"
  shows "concat (map (handed_out bs) [1..<Suc (workerCount cpus fileList)])
           = take (workerCount cpus fileList * workerCount cpus fileList) fileList"
  using handed_out_total [OF assms(1), of fileList] assms(2) by simp

theorem cluster_hands_out_prefix_witness:
  "fileListBatches 2 [1 :: nat, 2, 3, 4, 5] = Some [[1, 2], [3, 4], [5]] \<and>
   concat (map (handed_out [[1, 2], [3, 4], [5]]) [1..<Suc (workerCount 2 [1 :: nat, 2, 3, 4, 5])])
     = take (workerCount 2 [1 :: nat, 2, 3, 4, 5] * workerCount 2 [1 :: nat, 2, 3, 4, 5])
            [1 :: nat, 2, 3, 4, 5]"
proof -
  have h: "fileListBatches 2 [1 :: nat, 2, 3, 4, 5] = Some [[1, 2], [3, 4], [5]]"
    by (simp add: fileListBatches_def workerCount_def chunkArray_def chunk_loop.simps js_slice_def)
  show ?thesis by (intro conjI h cluster_hands_out_prefix [OF _ h]) simp
qed

text \<open>
  C3. Whenever \<open>chunkArray\<close> returns, concatenating its chunks gives back the
  input array: nothing is lost, duplicated or reordered.
\<close>

theorem chunkArray_concat:
  assumes "chunkArray arr k = Some g"
  shows "concat g = arr"
proof -
  from assms have "(0 < k \<or> arr = []) \<and> g = chunks k arr" by (rule chunkArray_SomeD)
  then show ?thesis by (auto simp: concat_chunks)
qed

theorem chunkArray_concat_witness:
  "chunkArray [1, 2, 3, 4, 5 :: nat] 2 = Some [[1, 2], [3, 4], [5]] \<and> concat [[1, 2], [3, 4], [5 :: nat]] = [1, 2, 3, 4, 5]"
proof -
  have h: "chunkArray [1, 2, 3, 4, 5 :: nat] 2 = Some [[1, 2], [3, 4], [5]]"
    by (simp add: chunkArray_def chunk_loop.simps js_slice_def)
  show ?thesis using h chunkArray_concat [OF h] by simp
qed

text \<open>
  C4. The chunks \<open>chunkArray\<close> returns: there are \<open>\<lceil>n / k\<rceil>\<close> of them,
  none is empty, none is longer than the chunk size, and every chunk but the
  last has exactly the chunk size.
\<close>

theorem chunkArray_shape:
  assumes "chunkArray arr k = Some g"
  shows "length g = (length arr + k - 1) div k \<and>
         (\<forall>i < length g. 0 < length (g ! i) \<and> length (g ! i) \<le> k \<and>
                         (Suc i < length g \<longrightarrow> length (g ! i) = k))"
proof -
  from assms have g: "(0 < k \<or> arr = []) \<and> g = chunks k arr" by (rule chunkArray_SomeD)
  show ?thesis
  proof (cases "arr = []")
    case True
    with g show ?thesis by (cases "k = 0") simp_all
  next
    case False
    with g have k: "0 < k" and gs: "g = chunks k arr" by simp_all
    have "length (chunks k arr) = (length arr + k - 1) div k" using k by (rule length_chunks)
    moreover have "\<forall>i < length (chunks k arr). 0 < length (chunks k arr ! i) \<and>
        length (chunks k arr ! i) \<le> k \<and>
        (Suc i < length (chunks k arr) \<longrightarrow> length (chunks k arr ! i) = k)"
      using length_nth_chunks [OF k] by blast
    ultimately show ?thesis unfolding gs by blast
  qed
qed

theorem chunkArray_shape_witness:
  "chunkArray [1 :: nat, 2, 3, 4, 5, 6, 7] 3 = Some [[1, 2, 3], [4, 5, 6], [7]] \<and>
   length [[1 :: nat, 2, 3], [4, 5, 6], [7]] = (7 + 3 - 1) div 3"
proof -
  have h: "chunkArray [1 :: nat, 2, 3, 4, 5, 6, 7] 3 = Some [[1, 2, 3], [4, 5, 6], [7]]"
    by (simp add: chunkArray_def chunk_loop.simps js_slice_def)
  show ?thesis using h chunkArray_shape [OF h] by simp
qed

text \<open>
  C5. \<open>chunkArray\<close> returns exactly when the chunk size is positive or the array
  is empty, and then returns the reference chunking \<open>chunks\<close>; with chunk size
  0 and a non-empty array its loop never ends.
\<close>

theorem chunkArray_refines_chunks:
  "chunkArray arr k = Some g \<longleftrightarrow> (0 < k \<or> arr = []) \<and> g = chunks k arr"
proof
  assume "chunkArray arr k = Some g"
  then show "(0 < k \<or> arr = []) \<and> g = chunks k arr" by (rule chunkArray_SomeD)
next
  assume "(0 < k \<or> arr = []) \<and> g = chunks k arr"
  then show "chunkArray arr k = Some g" by (simp add: chunkArray_eq)
qed

theorem chunkArray_refines_chunks_witness:
  "chunkArray [1 :: nat, 2, 3] 2 = Some [[1, 2], [3]] \<and> chunkArray [1 :: nat] 0 = None"
proof -
  have "chunks 2 [1 :: nat, 2, 3] = [[1, 2], [3]]" by (simp add: chunks.simps)
  then have a: "chunkArray [1 :: nat, 2, 3] 2 = Some [[1, 2], [3]]"
    using chunkArray_refines_chunks [of "[1 :: nat, 2, 3]" 2 "[[1, 2], [3]]"] by simp
  have "chunkArray [1 :: nat] 0 \<noteq> Some g" for g
    using chunkArray_refines_chunks [of "[1 :: nat]" 0 g] by simp
  then have "chunkArray [1 :: nat] 0 = None" by (cases "chunkArray [1 :: nat] 0") auto
  with a show ?thesis by simp
qed

text \<open>
  C6. A worker whose id exceeds the number of chunks, \<open>\<lceil>n / workerCount\<rceil>\<close>,
  reads \<open>undefined\<close> from the batch table and throws a TypeError.
\<close>

theorem worker_crashes_iff:
  assumes "0 < cpus" "fileList \<noteq> []" "fileListBatches cpus fileList = Some bs" "0 < wid"
  shows "(\<exists>e. worker_batch bs wid = Inl e) \<longleftrightarrow>
           (length fileList + workerCount cpus fileList - 1) div workerCount cpus fileList < wid"
proof -
  have k: "0 < workerCount cpus fileList" using assms by (simp add: workerCount_def)
  have "bs = chunks (workerCount cpus fileList) fileList"
    using assms(1,3) fileListBatches_chunks [of cpus fileList] by simp
  then have len: "length bs = (length fileList + workerCount cpus fileList - 1) div workerCount cpus fileList"
    using k by (simp add: length_chunks)
  have "(\<exists>e. worker_batch bs wid = Inl e) \<longleftrightarrow> length bs < wid"
    using assms(4) by (auto simp: worker_batch_def js_index_def)
  with len show ?thesis by simp
qed

theorem worker_crashes_iff_witness:
  "fileListBatches 4 [''a.pdf'', ''b.pdf'', ''c.pdf''] = Some [[''a.pdf'', ''b.pdf'', ''c.pdf'']] \<and>
   worker_batch [[''a.pdf'', ''b.pdf'', ''c.pdf'']] 2 = Inl (UndefinedProperty ''length'')"
proof -
  have h: "fileListBatches 4 [''a.pdf'', ''b.pdf'', ''c.pdf''] = Some [[''a.pdf'', ''b.pdf'', ''c.pdf'']]"
    by (simp add: fileListBatches_def workerCount_def chunkArray_def chunk_loop.simps js_slice_def)
  have "workerCount 4 [''a.pdf'', ''b.pdf'', ''c.pdf''] = 3" by (simp add: workerCount_def)
  with h worker_crashes_iff [of 4 "[''a.pdf'', ''b.pdf'', ''c.pdf'']", OF _ _ h, of 2]
  show ?thesis by (simp add: worker_batch_def js_index_def)
qed

text \<open>
  C7. When \<open>os.cpus()\<close> reports no CPU and there is at least one file,
  \<open>prepareCluster\<close> never gets past \<open>chunkArray\<close>: the loop with step 0
  does not end.
\<close>

theorem fileListBatches_no_cpus_diverges:
  assumes "fileList \<noteq> []"
  shows "fileListBatches 0 fileList = None"
  using assms by (simp add: fileListBatches_def chunkArray_def workerCount_def chunk_loop_zero_diverges)

theorem fileListBatches_no_cpus_diverges_witness:
  "[''a.pdf''] \<noteq> [] \<and> fileListBatches 0 [''a.pdf''] = None"
  using fileListBatches_no_cpus_diverges [of "[''a.pdf'']"] by simp


end
