(* ===== verification/NodePath.thy ===== *)
theory NodePath
  imports Prelude
begin

text \<open>
  Output naming. \<open>extractText\<close> (extract-multicore.js lines 104--107,
  extract.js lines 96--99) names the output file
  \<open>path.join(outputFolder, fileName + '.txt')\<close> with
  \<open>fileName = filePath.substr(filePath.lastIndexOf('/') + 1)\<close>, and
  \<open>saveFile\<close> normalizes the result again. \<open>file_name_of\<close> and
  \<open>output_path\<close> translate those lines; \<open>node_normalize\<close> and
  \<open>node_join\<close> model Node.js's POSIX \<open>path.normalize\<close> and two-argument
  \<open>path.join\<close>: the path is split at \<open>/\<close>, empty and \<open>.\<close> segments are
  dropped, \<open>..\<close> pops the previous segment (or is kept in front of a relative
  path), and the leading and trailing separators are put back. \<open>resolve\<close> is
  the directory entry a path denotes: whether it is absolute and its
  normalized segments.

  The lemmas show that \<open>norm_segs\<close> is idempotent, that normalizing never
  changes what a path resolves to, and that the file \<open>saveFile\<close> writes is
  the entry \<open><basename>.txt\<close> of the directory the output folder resolves to.
\<close>

subsection \<open>Definitions\<close>

fun split_slash :: "string \<Rightarrow> string list" where
  "split_slash [] = [[]]"
| "split_slash (c # cs) =
     (let r = split_slash cs in if c = CHR ''/'' then [] # r else (c # hd r) # tl r)"

fun join_slash :: "string list \<Rightarrow> string" where
  "join_slash [] = []"
| "join_slash [s] = s"
| "join_slash (s # ss) = s @ ''/'' @ join_slash ss"

fun norm_push :: "bool \<Rightarrow> string list \<Rightarrow> string \<Rightarrow> string list" where
  "norm_push allowAboveRoot st seg =
     (if seg = [] \<or> seg = ''.'' then st
      else if seg = ''..'' then
        (case st of
           s # st' \<Rightarrow> if s \<noteq> ''..'' then st' else if allowAboveRoot then ''..'' # st else st
         | [] \<Rightarrow> if allowAboveRoot then [''..''] else [])
      else seg # st)"

declare norm_push.simps [simp del]

definition norm_segs :: "bool \<Rightarrow> string list \<Rightarrow> string list" where
  "norm_segs allowAboveRoot segs = rev (foldl (norm_push allowAboveRoot) [] segs)"

definition node_normalize :: "string \<Rightarrow> string" where
  "node_normalize p =
     (if p = [] then ''.''
      else
        let isAbsolute = (hd p = CHR ''/'');
            trailingSeparator = (last p = CHR ''/'');
            r = join_slash (norm_segs (\<not> isAbsolute) (split_slash p))
        in if r = [] then (if isAbsolute then ''/'' else if trailingSeparator then ''./'' else ''.'')
           else (if isAbsolute then ''/'' else []) @ r @ (if trailingSeparator then ''/'' else []))"

definition node_join :: "string \<Rightarrow> string \<Rightarrow> string" where
  "node_join a b =
     (let parts = filter (\<lambda>s. s \<noteq> []) [a, b]
      in if parts = [] then ''.'' else node_normalize (join_slash parts))"

definition file_name_of :: "path \<Rightarrow> string" where
  "file_name_of filePath = js_substr_from filePath (js_last_index_of CHR ''/'' filePath + 1)"

definition output_path :: "path \<Rightarrow> path \<Rightarrow> path" where
  "output_path outputFolder filePath = node_join outputFolder (file_name_of filePath @ ''.txt'')"

definition regular_seg :: "string \<Rightarrow> bool" where
  "regular_seg s \<longleftrightarrow> s \<noteq> [] \<and> s \<noteq> ''.'' \<and> s \<noteq> ''..'' \<and> CHR ''/'' \<notin> set s"


text \<open>Proof vocabulary: the entry a path resolves to, the shape of a normalized segment stack
  (top first), and a prefix that ends a segment.\<close>

definition resolve :: "path \<Rightarrow> bool \<times> string list" where
  "resolve p =
     (let isAbsolute = (p \<noteq> [] \<and> hd p = CHR ''/'')
      in (isAbsolute, norm_segs (\<not> isAbsolute) (split_slash p)))"

fun stack_ok :: "bool \<Rightarrow> string list \<Rightarrow> bool" where
  "stack_ok b [] = True"
| "stack_ok b (s # st) =
     (s \<noteq> [] \<and> s \<noteq> ''.'' \<and>
      (if s = ''..'' then b \<and> (\<forall>t \<in> set st. t = ''..'') else stack_ok b st))"

definition seg_tail :: "string \<Rightarrow> bool" where
  "seg_tail p \<longleftrightarrow> p = [] \<or> last p = CHR ''/''"

subsection \<open>Splitting, joining and normalizing segments\<close>

lemma split_slash_ne: "split_slash s \<noteq> []"
  by (induction s) (auto simp: Let_def)

lemma split_slash_append_slash:
  "split_slash (a @ CHR ''/'' # b) = split_slash a @ split_slash b"
proof (induction a)
  case Nil
  then show ?case by simp
next
  case (Cons c cs)
  have "split_slash cs \<noteq> []" by (rule split_slash_ne)
  with Cons show ?case by (cases "split_slash cs") (auto simp: Let_def)
qed

lemma split_slash_no_slash: "CHR ''/'' \<notin> set n \<Longrightarrow> split_slash n = [n]"
  by (induction n) (auto simp: Let_def)

lemma join_slash_snoc:
  "join_slash (ss @ [n]) = (if ss = [] then n else join_slash ss @ ''/'' @ n)"
  by (induction ss rule: join_slash.induct) auto

lemma norm_segs_snoc_regular:
  "regular_seg n \<Longrightarrow> norm_segs b (ss @ [n]) = norm_segs b ss @ [n]"
  by (simp add: norm_segs_def regular_seg_def norm_push.simps)


lemma file_name_of_Nil: "file_name_of [] = []"
  by (simp add: file_name_of_def js_substr_from_def)

lemma file_name_of_snoc:
  "file_name_of (xs @ [x]) = (if x = CHR ''/'' then [] else file_name_of xs @ [x])"
  unfolding file_name_of_def by (rule substr_after_last_snoc)

lemma file_name_of_takeWhile:
  "file_name_of s = rev (takeWhile (\<lambda>c. c \<noteq> CHR ''/'') (rev s))"
  by (induction s rule: rev_induct) (simp_all add: file_name_of_Nil file_name_of_snoc)

lemma file_name_of_append:
  "seg_tail p \<Longrightarrow> CHR ''/'' \<notin> set n \<Longrightarrow> file_name_of (p @ n) = n"
proof (induction n rule: rev_induct)
  case Nil
  then show ?case
    by (cases p rule: rev_cases) (auto simp: seg_tail_def file_name_of_Nil file_name_of_snoc)
next
  case (snoc x n)
  then show ?case by (auto simp flip: append_assoc simp add: file_name_of_snoc)
qed

lemma file_name_of_split:
  "\<exists>pre. f = pre @ file_name_of f \<and> seg_tail pre \<and> CHR ''/'' \<notin> set (file_name_of f)"
proof (induction f rule: rev_induct)
  case Nil
  then show ?case by (simp add: file_name_of_Nil seg_tail_def)
next
  case (snoc x xs)
  show ?case
  proof (cases "x = CHR ''/''")
    case True
    then show ?thesis by (auto simp: file_name_of_snoc seg_tail_def)
  next
    case False
    with snoc obtain pre where "xs = pre @ file_name_of xs" "seg_tail pre"
        "CHR ''/'' \<notin> set (file_name_of xs)" by blast
    with False show ?thesis by (auto simp: file_name_of_snoc intro!: exI [of _ pre])
  qed
qed

lemma normalize_seg_tail_regular:
  assumes "seg_tail p" "regular_seg n"
  shows "\<exists>p'. node_normalize (p @ n) = p' @ n \<and> seg_tail p'"
proof (cases p rule: rev_cases)
  case Nil
  from assms(2) have "split_slash n = [n]" "n \<noteq> []" "hd n \<noteq> CHR ''/''"
    by (auto simp: regular_seg_def split_slash_no_slash dest: hd_in_set)
  moreover have "norm_segs b [n] = [n]" for b
    using norm_segs_snoc_regular [OF assms(2), of b "[]"] by (simp add: norm_segs_def)
  ultimately have "node_normalize n = n"
    using assms(2) by (auto simp: node_normalize_def regular_seg_def Let_def dest: last_in_set)
  with Nil show ?thesis by (auto simp: seg_tail_def)
next
  case (snoc q c)
  with assms(1) have p: "p = q @ [CHR ''/'']" by (simp add: seg_tail_def)
  from assms(2) have n: "split_slash n = [n]" "n \<noteq> []" "last n \<noteq> CHR ''/''"
    by (auto simp: regular_seg_def split_slash_no_slash dest: last_in_set)
  define ab where "ab = (hd (p @ n) = CHR ''/'')"
  define S where "S = norm_segs (\<not> ab) (split_slash q)"
  have segs: "norm_segs (\<not> ab) (split_slash (p @ n)) = S @ [n]"
    using p n assms(2) by (simp add: split_slash_append_slash S_def norm_segs_snoc_regular)
  have "node_normalize (p @ n) =
        (if ab then ''/'' else []) @ (if S = [] then [] else join_slash S @ ''/'') @ n"
    using n segs by (simp add: node_normalize_def Let_def join_slash_snoc ab_def [symmetric])
  then show ?thesis by (auto simp: seg_tail_def)
qed


lemma stack_ok_dots: "b \<Longrightarrow> \<forall>t \<in> set st. t = ''..'' \<Longrightarrow> stack_ok b st"
  by (induction st) auto

lemma stack_ok_tl: "stack_ok b (s # st) \<Longrightarrow> stack_ok b st"
  by (auto split: if_splits intro: stack_ok_dots)

lemma stack_ok_norm_push: "stack_ok b st \<Longrightarrow> stack_ok b (norm_push b st x)"
  by (cases st) (auto simp: norm_push.simps intro: stack_ok_tl)

lemma stack_ok_foldl: "stack_ok b st \<Longrightarrow> stack_ok b (foldl (norm_push b) st xs)"
  by (induction xs arbitrary: st) (auto intro: stack_ok_norm_push)

lemma foldl_norm_push_rev: "stack_ok b st \<Longrightarrow> foldl (norm_push b) [] (rev st) = st"
proof (induction st)
  case Nil
  then show ?case by simp
next
  case (Cons s st)
  then have "foldl (norm_push b) [] (rev st) = st" by (blast intro: stack_ok_tl)
  have "foldl (norm_push b) [] (rev (s # st)) = norm_push b (foldl (norm_push b) [] (rev st)) s"
    by simp
  also have "\<dots> = norm_push b st s"
    using \<open>foldl (norm_push b) [] (rev st) = st\<close> by (simp only:)
  also have "\<dots> = s # st"
    using Cons.prems by (cases st) (auto simp: norm_push.simps)
  finally show ?case .
qed

lemma norm_segs_idem: "norm_segs b (norm_segs b xs) = norm_segs b xs"
proof -
  have "stack_ok b (foldl (norm_push b) [] xs)" by (rule stack_ok_foldl) simp
  then show ?thesis by (simp add: norm_segs_def foldl_norm_push_rev)
qed

lemma split_slash_snoc_slash: "split_slash (s @ ''/'') = split_slash s @ [[]]"
  using split_slash_append_slash [of s "[]"] by simp

lemma split_slash_no_slash_segs: "s \<in> set (split_slash p) \<Longrightarrow> CHR ''/'' \<notin> set s"
proof (induction p arbitrary: s)
  case Nil
  then show ?case by simp
next
  case (Cons c cs)
  obtain x xs where r: "split_slash cs = x # xs" using split_slash_ne by (cases "split_slash cs") auto
  with Cons show ?case by (auto simp: Let_def split: if_splits)
qed

lemma split_join_slash:
  "R \<noteq> [] \<Longrightarrow> \<forall>s \<in> set R. CHR ''/'' \<notin> set s \<Longrightarrow> split_slash (join_slash R) = R"
  by (induction R rule: join_slash.induct) (auto simp: split_slash_no_slash split_slash_append_slash)

lemma norm_segs_Cons_Nil: "norm_segs b ([] # xs) = norm_segs b xs"
  by (simp add: norm_segs_def norm_push.simps)

lemma norm_segs_snoc_Nil: "norm_segs b (xs @ [[]]) = norm_segs b xs"
  by (simp add: norm_segs_def norm_push.simps)

lemma norm_push_set: "set (norm_push b st x) \<subseteq> set st \<union> {x, ''..''}"
  by (cases st) (auto simp: norm_push.simps)

lemma norm_segs_set: "set (norm_segs b xs) \<subseteq> set xs \<union> {''..''}"
proof -
  have "set (foldl (norm_push b) st xs) \<subseteq> set st \<union> set xs \<union> {''..''}" for st
  proof (induction xs arbitrary: st)
    case Nil
    then show ?case by auto
  next
    case (Cons x xs)
    have "set (foldl (norm_push b) (norm_push b st x) xs)
        \<subseteq> set (norm_push b st x) \<union> set xs \<union> {''..''}" by (rule Cons.IH)
    with norm_push_set [of b st x] show ?case by auto
  qed
  from this [of "[]"] show ?thesis by (simp add: norm_segs_def)
qed

lemma stack_ok_set: "stack_ok b st \<Longrightarrow> s \<in> set st \<Longrightarrow> s \<noteq> [] \<and> s \<noteq> ''.''"
  by (induction st) (auto split: if_splits)

lemma norm_segs_segs:
  assumes "s \<in> set (norm_segs b (split_slash p))"
  shows "s \<noteq> [] \<and> s \<noteq> ''.'' \<and> CHR ''/'' \<notin> set s"
proof -
  have "stack_ok b (foldl (norm_push b) [] (split_slash p))" by (rule stack_ok_foldl) simp
  with assms have "s \<noteq> [] \<and> s \<noteq> ''.''" by (auto simp: norm_segs_def dest: stack_ok_set)
  moreover have "CHR ''/'' \<notin> set s"
    using assms norm_segs_set split_slash_no_slash_segs by fastforce
  ultimately show ?thesis by blast
qed

lemma join_slash_Nil_iff: "(\<forall>s \<in> set R. s \<noteq> []) \<Longrightarrow> join_slash R = [] \<longleftrightarrow> R = []"
  by (induction R rule: join_slash.induct) auto

lemma hd_join_slash:
  "R \<noteq> [] \<Longrightarrow> (\<forall>s \<in> set R. s \<noteq> [] \<and> CHR ''/'' \<notin> set s) \<Longrightarrow> hd (join_slash R) \<noteq> CHR ''/''"
  by (induction R rule: join_slash.induct) (auto dest: hd_in_set)

lemma resolve_normalize: "resolve (node_normalize p) = resolve p"
proof (cases "p = []")
  case True
  then show ?thesis
    by (simp add: node_normalize_def resolve_def norm_segs_def norm_push.simps)
next
  case False
  define ab where "ab = (hd p = CHR ''/'')"
  define tr where "tr = (last p = CHR ''/'')"
  define R where "R = norm_segs (\<not> ab) (split_slash p)"
  have segs: "\<forall>s \<in> set R. s \<noteq> [] \<and> s \<noteq> ''.'' \<and> CHR ''/'' \<notin> set s"
    using norm_segs_segs R_def by blast
  have rp: "resolve p = (ab, R)" using False by (simp add: resolve_def ab_def R_def Let_def)
  show ?thesis
  proof (cases "R = []")
    case True
    then have "join_slash (norm_segs (\<not> ab) (split_slash p)) = []" by (simp add: R_def)
    then have "node_normalize p = (if ab then ''/'' else if tr then ''./'' else ''.'')"
      using False by (simp add: node_normalize_def Let_def ab_def [symmetric] tr_def [symmetric])
    moreover have "resolve ''/'' = (True, [])" "resolve ''./'' = (False, [])" "resolve ''.'' = (False, [])"
      by (simp_all add: resolve_def norm_segs_def norm_push.simps)
    ultimately show ?thesis using True by (simp add: rp)
  next
    case Rne: False
    with segs have jne: "join_slash R \<noteq> []" by (simp add: join_slash_Nil_iff)
    have split_j: "split_slash (join_slash R) = R" using Rne segs by (simp add: split_join_slash)
    have hd_j: "hd (join_slash R) \<noteq> CHR ''/''" using Rne segs by (simp add: hd_join_slash)
    have nrm: "node_normalize p = (if ab then ''/'' else []) @ join_slash R @ (if tr then ''/'' else [])"
      using False jne by (simp add: node_normalize_def Let_def ab_def [symmetric] tr_def [symmetric]
          R_def [symmetric])
    have "split_slash (node_normalize p) =
        (if ab then [[]] else []) @ R @ (if tr then [[]] else [])"
      by (simp add: nrm split_j split_slash_snoc_slash flip: append_assoc)
    then have "norm_segs (\<not> ab) (split_slash (node_normalize p)) = norm_segs (\<not> ab) R"
      by (simp add: norm_segs_Cons_Nil norm_segs_snoc_Nil)
    also have "\<dots> = R" by (simp add: R_def norm_segs_idem)
    finally have "norm_segs (\<not> ab) (split_slash (node_normalize p)) = R" .
    moreover have "(node_normalize p \<noteq> [] \<and> hd (node_normalize p) = CHR ''/'') = ab"
      using jne hd_j by (simp add: nrm)
    ultimately have "resolve (node_normalize p) = (ab, R)" by (simp add: resolve_def Let_def)
    with rp show ?thesis by simp
  qed
qed

subsection \<open>The output path\<close>

lemma regular_output_name: "regular_seg (file_name_of f @ ''.txt'')"
  using file_name_of_split [of f] by (auto simp: regular_seg_def)

lemma output_path_seg_tail:
  "\<exists>p. node_normalize (output_path out f) = p @ (file_name_of f @ ''.txt'') \<and> seg_tail p"
proof -
  let ?n = "file_name_of f @ ''.txt''"
  have reg: "regular_seg ?n" by (rule regular_output_name)
  have "\<exists>p. output_path out f = p @ ?n \<and> seg_tail p"
  proof (cases "out = []")
    case True
    then have "output_path out f = node_normalize ([] @ ?n)"
      by (simp add: output_path_def node_join_def)
    then show ?thesis using normalize_seg_tail_regular [OF _ reg, of "[]"] by (simp add: seg_tail_def)
  next
    case False
    then have "output_path out f = node_normalize ((out @ ''/'') @ ?n)"
      by (simp add: output_path_def node_join_def)
    then show ?thesis using normalize_seg_tail_regular [OF _ reg, of "out @ ''/''"] by (simp add: seg_tail_def)
  qed
  then obtain p where "output_path out f = p @ ?n" "seg_tail p" by blast
  then show ?thesis using normalize_seg_tail_regular [OF _ reg] by simp
qed

lemma resolve_append_regular:
  assumes "a \<noteq> []" "regular_seg n"
  shows "resolve (a @ CHR ''/'' # n) = (fst (resolve a), snd (resolve a) @ [n])"
  using assms by (simp add: resolve_def Let_def split_slash_append_slash split_slash_no_slash
      regular_seg_def norm_segs_snoc_regular)


lemma resolve_output_path:
  "resolve (output_path out f) =
     (if out = [] then (False, [file_name_of f @ ''.txt''])
      else (fst (resolve out), snd (resolve out) @ [file_name_of f @ ''.txt'']))"
proof -
  let ?n = "file_name_of f @ ''.txt''"
  have reg: "regular_seg ?n" by (rule regular_output_name)
  show ?thesis
  proof (cases "out = []")
    case True
    then have "output_path out f = node_normalize ?n" by (simp add: output_path_def node_join_def)
    moreover have "resolve ?n = (False, [?n])"
    proof -
      have ne: "?n \<noteq> []" and ns: "CHR ''/'' \<notin> set ?n" using reg by (simp_all add: regular_seg_def)
      from ne have "hd ?n \<in> set ?n" by (rule hd_in_set)
      with ns have "hd ?n \<noteq> CHR ''/''" by metis
      moreover have "split_slash ?n = [?n]" using ns by (rule split_slash_no_slash)
      moreover note ne
      moreover have "norm_segs True [?n] = [?n]"
        using norm_segs_snoc_regular [OF reg, of True "[]"] by (simp add: norm_segs_def)
      ultimately show ?thesis by (simp add: resolve_def Let_def)
    qed
    ultimately show ?thesis using True by (simp add: resolve_normalize)
  next
    case False
    then have "output_path out f = node_normalize (out @ CHR ''/'' # ?n)"
      by (simp add: output_path_def node_join_def)
    with False reg show ?thesis by (simp add: resolve_normalize resolve_append_regular)
  qed
qed

lemma resolve_output_path_inj:
  "resolve (output_path out f1) = resolve (output_path out f2) \<longleftrightarrow> file_name_of f1 = file_name_of f2"
  by (simp add: resolve_output_path)

subsection \<open>Properties of the output naming\<close>

text \<open>
  C9. Whatever the output folder, the file \<open>saveFile\<close> writes for an input
  file is named after the input's base name (the part after its last
  \<open>/\<close>) followed by \<open>.txt\<close>.
\<close>

theorem saved_file_name:
  "file_name_of (node_normalize (output_path outputFolder filePath)) = file_name_of filePath @ ''.txt''"
proof -
  obtain p where p: "node_normalize (output_path outputFolder filePath) = p @ (file_name_of filePath @ ''.txt'')"
      "seg_tail p"
    using output_path_seg_tail by blast
  have "CHR ''/'' \<notin> set (file_name_of filePath @ ''.txt'')"
    using regular_output_name [of filePath] by (simp add: regular_seg_def)
  with p show ?thesis by (simp add: file_name_of_append)
qed

text \<open>
  C10. For a non-empty output folder, the file written for an input resolves
  to the entry \<open><basename>.txt\<close> of the directory the output folder
  resolves to: the input's own directories play no part.
\<close>

theorem output_path_resolves:
  assumes "outputFolder \<noteq> []"
  shows "resolve (node_normalize (output_path outputFolder filePath)) =
           (fst (resolve outputFolder), snd (resolve outputFolder) @ [file_name_of filePath @ ''.txt''])"
proof -
  have "output_path outputFolder filePath = node_normalize (outputFolder @ CHR ''/'' # (file_name_of filePath @ ''.txt''))"
    using assms by (simp add: output_path_def node_join_def)
  then show ?thesis
    using assms regular_output_name [of filePath] by (simp add: resolve_normalize resolve_append_regular)
qed

theorem output_path_resolves_witness:
  "''./text/'' \<noteq> [] \<and> resolve (node_normalize (output_path ''./text/'' ''pdf/a/report.pdf'')) =
     (False, [''text'', ''report.pdf.txt''])"
proof -
  have "resolve ''./text/'' = (False, [''text''])"
    by (simp add: resolve_def norm_segs_def norm_push.simps)
  moreover have "file_name_of ''pdf/a/report.pdf'' = ''report.pdf''"
    by (simp add: file_name_of_def js_substr_from_def)
  ultimately show ?thesis using output_path_resolves [of "''./text/''" "''pdf/a/report.pdf''"] by simp
qed

text \<open>
  C11. Two input files are written to the same output path exactly when
  their base names agree, so files with one name in different subfolders of
  the input (which the recursive listing returns) overwrite each other.
\<close>

theorem output_collision_iff:
  "node_normalize (output_path outputFolder f1) = node_normalize (output_path outputFolder f2)
     \<longleftrightarrow> file_name_of f1 = file_name_of f2"
proof
  assume "node_normalize (output_path outputFolder f1) = node_normalize (output_path outputFolder f2)"
  then have "file_name_of (node_normalize (output_path outputFolder f1)) =
             file_name_of (node_normalize (output_path outputFolder f2))" by simp
  moreover obtain p1 where "node_normalize (output_path outputFolder f1) = p1 @ (file_name_of f1 @ ''.txt'')" "seg_tail p1"
    using output_path_seg_tail by blast
  moreover obtain p2 where "node_normalize (output_path outputFolder f2) = p2 @ (file_name_of f2 @ ''.txt'')" "seg_tail p2"
    using output_path_seg_tail by blast
  ultimately show "file_name_of f1 = file_name_of f2"
    using regular_output_name [of f1] regular_output_name [of f2]
    by (simp add: file_name_of_append regular_seg_def)
next
  assume "file_name_of f1 = file_name_of f2"
  then show "node_normalize (output_path outputFolder f1) = node_normalize (output_path outputFolder f2)"
    by (simp add: output_path_def)
qed

theorem output_collision_witness:
  "node_normalize (output_path ''./text/'' ''pdf/2016/report.pdf'') =
   node_normalize (output_path ''./text/'' ''pdf/2017/report.pdf'')"
proof -
  have "file_name_of ''pdf/2016/report.pdf'' = file_name_of ''pdf/2017/report.pdf''"
    by (simp add: file_name_of_def js_substr_from_def)
  then show ?thesis using output_collision_iff by blast
qed

end
