(* ===== verification/Store.thy ===== *)
theory Store
  imports NodePath
begin

text \<open>
  The output writer. \<open>saveFile\<close> (extract-multicore.js lines 146--161,
  extract.js lines 104--119) normalizes its path, prints \<open>Saved file\<close>, and
  calls \<open>fs.writeFileSync\<close> inside a \<open>try\<close> whose \<open>catch\<close> prints the error.
  The file system is a record of the directories and files that exist,
  keyed by the entry a path resolves to (\<open>NodePath.resolve\<close>);
  \<open>existsSync\<close>, \<open>mkdirSync\<close> and \<open>writeFileSync\<close> model the three Node.js
  calls the scripts make, with the errors they raise as \<open>Inl\<close> values.
  Whether \<open>writeFileSync\<close> accepts \<open>undefined\<close> as the data depends on the
  Node.js release: before version 14 it writes the string \<open>undefined\<close>,
  from version 14 on it throws \<open>ERR_INVALID_ARG_TYPE\<close>; the flag
  \<open>coerce\<close> selects the behaviour.
\<close>

type_synonym fkey = "bool \<times> string list"

record fsys =
  fs_dirs :: "fkey set"
  fs_files :: "fkey \<Rightarrow> string option"

type_synonym out_state = "fsys \<times> log_event list"

definition parent_key :: "fkey \<Rightarrow> fkey" where
  "parent_key k = (fst k, butlast (snd k))"

definition existsSync :: "fsys \<Rightarrow> path \<Rightarrow> bool" where
  "existsSync fs p \<longleftrightarrow> resolve p \<in> fs_dirs fs \<or> fs_files fs (resolve p) \<noteq> None"

definition missing_parent :: "fsys \<Rightarrow> path \<Rightarrow> js_error" where
  "missing_parent fs p =
     (if fs_files fs (parent_key (resolve p)) \<noteq> None then ENOTDIR p else ENOENT p)"

definition mkdirSync :: "fsys \<Rightarrow> path \<Rightarrow> js_error + fsys" where
  "mkdirSync fs p =
     (let k = resolve p in
      if k \<in> fs_dirs fs \<or> fs_files fs k \<noteq> None then Inl (EEXIST p)
      else if parent_key k \<notin> fs_dirs fs then Inl (missing_parent fs p)
      else Inr (fs\<lparr>fs_dirs := insert k (fs_dirs fs)\<rparr>))"

definition writeFileSync :: "bool \<Rightarrow> fsys \<Rightarrow> path \<Rightarrow> string option \<Rightarrow> js_error + fsys" where
  "writeFileSync coerce fs p data =
     (case (if coerce then Some (case data of None \<Rightarrow> ''undefined'' | Some s \<Rightarrow> s) else data) of
        None \<Rightarrow> Inl (InvalidArgType ''data'')
      | Some s \<Rightarrow>
          let k = resolve p in
          if k \<in> fs_dirs fs then Inl (EISDIR p)
          else if parent_key k \<notin> fs_dirs fs then Inl (missing_parent fs p)
          else Inr (fs\<lparr>fs_files := (fs_files fs)(k \<mapsto> s)\<rparr>))"

definition saveFile :: "bool \<Rightarrow> path \<Rightarrow> string option \<Rightarrow> out_state \<Rightarrow> out_state" where
  "saveFile coerce relativePath string st =
     (let p = node_normalize relativePath;
          log = snd st @ [LogSavedFile p]
      in case writeFileSync coerce (fst st) p string of
           Inl e \<Rightarrow> (fst st, log @ [LogConsoleError e])
         | Inr fs' \<Rightarrow> (fs', log))"

text \<open>
  Well-formedness of a file system: the root and the working directory
  exist, and no entry is both a directory and a file.
\<close>

definition fs_wf :: "fsys \<Rightarrow> bool" where
  "fs_wf fs \<longleftrightarrow> (True, []) \<in> fs_dirs fs \<and> (False, []) \<in> fs_dirs fs \<and>
     (\<forall>k \<in> fs_dirs fs. fs_files fs k = None)"

text \<open>The data \<open>writeFileSync\<close> stores for the value it is given.\<close>

definition written_data :: "bool \<Rightarrow> string option \<Rightarrow> string option" where
  "written_data coerce data =
     (if coerce then Some (case data of None \<Rightarrow> ''undefined'' | Some s \<Rightarrow> s) else data)"

text \<open>Whether a write to the entry \<open>k\<close> reaches the disk.\<close>

definition writable :: "fsys \<Rightarrow> fkey \<Rightarrow> bool" where
  "writable fs k \<longleftrightarrow> k \<notin> fs_dirs fs \<and> parent_key k \<in> fs_dirs fs"

subsection \<open>The file system calls\<close>

lemma saveFile_dirs: "fs_dirs (fst (saveFile coerce p data st)) = fs_dirs (fst st)"
  by (auto simp: saveFile_def Let_def writeFileSync_def split: sum.splits option.splits if_splits)

lemma saveFile_files:
  "fs_files (fst (saveFile coerce p data st)) =
     (case written_data coerce data of
        Some s \<Rightarrow> if writable (fst st) (resolve p) then (fs_files (fst st))(resolve p \<mapsto> s)
                  else fs_files (fst st)
      | None \<Rightarrow> fs_files (fst st))"
  by (auto simp: saveFile_def Let_def writeFileSync_def written_data_def writable_def
      resolve_normalize split: sum.splits option.splits if_splits)

lemma writeFileSync_error:
  "writeFileSync coerce fs p data = Inl e \<Longrightarrow> e \<notin> range ExtractionError"
  by (auto simp: writeFileSync_def missing_parent_def Let_def split: option.splits if_splits)

lemma saveFile_log:
  "\<exists>tl. snd (saveFile coerce p data st) = snd st @ LogSavedFile (node_normalize p) # tl \<and>
        (tl = [] \<or> (\<exists>e. tl = [LogConsoleError e] \<and> e \<notin> range ExtractionError))"
  by (auto simp: saveFile_def Let_def dest: writeFileSync_error split: sum.splits)

subsection \<open>Properties of saveFile\<close>



text \<open>
  C23. Saving the same data to the same path twice leaves the file system as
  saving it once: a save overwrites, it never appends or duplicates.
\<close>

theorem saveFile_overwrite_idempotent:
  "fst (saveFile coerce p data (saveFile coerce p data st)) = fst (saveFile coerce p data st)"
proof -
  let ?st' = "saveFile coerce p data st"
  have d: "fs_dirs (fst ?st') = fs_dirs (fst st)" by (rule saveFile_dirs)
  then have w: "writable (fst ?st') = writable (fst st)" by (simp add: writable_def fun_eq_iff)
  have "fs_files (fst (saveFile coerce p data ?st')) = fs_files (fst ?st')"
    by (simp add: saveFile_files [of coerce p data ?st'] saveFile_files [of coerce p data st] w
        split: option.splits)
  then show ?thesis using saveFile_dirs [of coerce p data ?st'] d by (cases "fst ?st'") (simp add: fsys.equality)
qed



end
