(* ===== verification/Worker.thy ===== *)
theory Worker
  imports Partition Store
begin

text \<open>
  A worker process of \<open>src/extract-multicore.js\<close>: the worker branch of
  \<open>prepareCluster\<close> (lines 84--91), \<open>extractText\<close> (lines 95--110) and
  \<open>handleComplete\<close> (lines 112--127). \<open>async.each\<close> calls \<open>extractText\<close> for
  every file of the batch at once, in batch order; Tika's callbacks then come
  back in an order the program does not control. That order is the
  \<^emph>\<open>schedule\<close>, a list of batch indices, and the model runs the callbacks in
  it. Tika is an oracle from the options object and the file path to the
  extracted text or an error. The final callback of \<open>async.each\<close> runs when
  the number of completed callbacks reaches the batch length.
\<close>

record tika_options =
  contentType :: string
  ocrLanguage :: string
  pdfEnableAutoSpace :: bool
  pdfExtractInlineImages :: bool
  language :: "string option"

record wenv =
  tika :: "tika_options \<Rightarrow> path \<Rightarrow> js_error + string"
  coerce_undefined :: bool

datatype proc_exit = ExitCode nat | Uncaught js_error

text \<open>
  The callback of \<open>tika.text\<close> in \<open>extractText\<close>: the error check is
  commented out (line 102), so a failed extraction saves \<open>result\<close>, which is
  then \<open>undefined\<close> (\<open>None\<close>).
\<close>

definition tika_result :: "wenv \<Rightarrow> tika_options \<Rightarrow> path \<Rightarrow> string option" where
  "tika_result rt options filePath =
     (case tika rt options filePath of Inl error \<Rightarrow> None | Inr result \<Rightarrow> Some result)"

definition extractText_callback :: "wenv \<Rightarrow> tika_options \<Rightarrow> path \<Rightarrow> path \<Rightarrow> out_state \<Rightarrow> out_state" where
  "extractText_callback rt options outputFolder filePath st =
     saveFile (coerce_undefined rt) (output_path outputFolder filePath)
       (tika_result rt options filePath) st"

text \<open>The synchronous part of \<open>extractText\<close>: it prints the path and calls Tika.\<close>

definition extractText_start :: "path \<Rightarrow> out_state \<Rightarrow> out_state" where
  "extractText_start filePath st = (fst st, snd st @ [LogProcessingFile filePath])"

text \<open>\<open>async.each\<close>: the loop that starts every iteratee, then the callbacks.\<close>

definition each_start :: "path list \<Rightarrow> out_state \<Rightarrow> out_state" where
  "each_start batch st = fold extractText_start batch st"

fun each_callbacks ::
  "wenv \<Rightarrow> tika_options \<Rightarrow> path \<Rightarrow> path list \<Rightarrow> nat list \<Rightarrow> out_state \<Rightarrow> out_state" where
  "each_callbacks rt options outputFolder batch [] st = st"
| "each_callbacks rt options outputFolder batch (j # js) st =
     each_callbacks rt options outputFolder batch js
       (extractText_callback rt options outputFolder (batch ! j) st)"

definition valid_schedule :: "'a list \<Rightarrow> nat list \<Rightarrow> bool" where
  "valid_schedule batch sched \<longleftrightarrow> distinct sched \<and> set sched = set [0..<length batch]"

definition handleComplete :: "nat \<Rightarrow> js_error option \<Rightarrow> out_state \<Rightarrow> proc_exit \<times> out_state" where
  "handleComplete wid error st =
     (case error of
        Some e \<Rightarrow> (ExitCode 1, (fst st, snd st @ [LogConsoleError e]))
      | None \<Rightarrow> (ExitCode 0, (fst st, snd st @ [LogWorkerDone wid])))"

text \<open>
  The worker branch of \<open>prepareCluster\<close> after the callbacks of \<open>sched\<close>
  have come back: \<open>None\<close> while callbacks are outstanding, the exit of the
  process once the last one has come.
\<close>

definition worker_main ::
  "wenv \<Rightarrow> tika_options \<Rightarrow> path \<Rightarrow> path list list \<Rightarrow> nat \<Rightarrow> nat list \<Rightarrow> out_state
   \<Rightarrow> proc_exit option \<times> out_state" where
  "worker_main rt options outputFolder batches wid sched st =
     (case worker_batch batches wid of
        Inl e \<Rightarrow> (Some (Uncaught e), st)
      | Inr batch \<Rightarrow>
          let st1 = (fst st, snd st @ [LogWorkerStarted wid (length batch)]);
              st2 = each_start batch st1;
              st3 = each_callbacks rt options outputFolder batch sched st2
          in if length sched = length batch
             then (let (code, st4) = handleComplete wid None st3 in (Some code, st4))
             else (None, st3))"

fun saved_of :: "log_event \<Rightarrow> path list" where
  "saved_of (LogSavedFile p) = [p]"
| "saved_of _ = []"

text \<open>The log lines a Tika callback can print: the save, and a write error.\<close>

fun callback_entry :: "log_event \<Rightarrow> bool" where
  "callback_entry (LogSavedFile p) = True"
| "callback_entry (LogConsoleError e) = (e \<notin> range ExtractionError)"
| "callback_entry _ = False"

text \<open>What the file system holds for an entry after one callback.\<close>

definition file_upd ::
  "wenv \<Rightarrow> tika_options \<Rightarrow> path \<Rightarrow> fsys \<Rightarrow> path \<Rightarrow> (fkey \<Rightarrow> string option) \<Rightarrow> fkey \<Rightarrow> string option" where
  "file_upd rt options outputFolder fs filePath m =
     (case written_data (coerce_undefined rt) (tika_result rt options filePath) of
        Some s \<Rightarrow> if writable fs (resolve (output_path outputFolder filePath))
                  then m(resolve (output_path outputFolder filePath) \<mapsto> s) else m
      | None \<Rightarrow> m)"

text \<open>
  The contract of a worker's batch: every entry an input of the batch is
  saved to holds what the callback for that input writes there, every other
  entry is unchanged.
\<close>

definition batch_outputs ::
  "wenv \<Rightarrow> tika_options \<Rightarrow> path \<Rightarrow> fsys \<Rightarrow> path list \<Rightarrow> fkey \<Rightarrow> string option" where
  "batch_outputs rt options outputFolder fs batch k =
     (case filter (\<lambda>f. resolve (output_path outputFolder f) = k) batch of
        [] \<Rightarrow> fs_files fs k
      | f # _ \<Rightarrow> file_upd rt options outputFolder fs f (fs_files fs) k)"

text \<open>
  A small scenario used by the witnesses: a Tika stub that fails on
  \<open>pdf/b.pdf\<close> and returns \<open>TEXT:\<close> followed by the path otherwise, the
  options of the multicore script, and a file system whose working directory
  holds an empty folder \<open>text\<close>.
\<close>

abbreviation demo_options :: tika_options where
  "demo_options \<equiv> \<lparr>contentType = ''application/pdf'', ocrLanguage = ''deu'',
     pdfEnableAutoSpace = True, pdfExtractInlineImages = True, language = None\<rparr>"

abbreviation demo_env :: "bool \<Rightarrow> wenv" where
  "demo_env c \<equiv> \<lparr>tika = (\<lambda>opts p. if p = ''pdf/b.pdf'' then Inl (ExtractionError ''b.pdf'')
                                   else Inr (''TEXT:'' @ p)),
                coerce_undefined = c\<rparr>"

abbreviation demo_fs :: fsys where
  "demo_fs \<equiv> \<lparr>fs_dirs = {(True, []), (False, []), (False, [''text''])}, fs_files = Map.empty\<rparr>"

subsection \<open>The callbacks\<close>

lemma each_start_eq: "each_start batch st = (fst st, snd st @ map LogProcessingFile batch)"
  unfolding each_start_def by (induction batch arbitrary: st) (auto simp: extractText_start_def)

lemma file_upd_dirs:
  "fs_dirs fs' = fs_dirs fs \<Longrightarrow> file_upd rt options out fs' = file_upd rt options out fs"
  by (intro ext) (simp add: file_upd_def writable_def split: option.splits)

lemma extractText_callback_dirs:
  "fs_dirs (fst (extractText_callback rt options out f st)) = fs_dirs (fst st)"
  by (simp add: extractText_callback_def saveFile_dirs)

lemma extractText_callback_files:
  "fs_files (fst (extractText_callback rt options out f st)) =
     file_upd rt options out (fst st) f (fs_files (fst st))"
  by (simp add: extractText_callback_def saveFile_files file_upd_def split: option.splits)

lemma each_callbacks_files:
  "fs_files (fst (each_callbacks rt options out batch js st)) =
     fold (\<lambda>j. file_upd rt options out (fst st) (batch ! j)) js (fs_files (fst st))"
proof (induction js arbitrary: st)
  case Nil
  then show ?case by simp
next
  case (Cons j js)
  let ?st' = "extractText_callback rt options out (batch ! j) st"
  have "file_upd rt options out (fst ?st') = file_upd rt options out (fst st)"
    by (rule file_upd_dirs) (rule extractText_callback_dirs)
  with Cons.IH [of ?st'] show ?case by (simp add: extractText_callback_files)
qed

lemma file_upd_other:
  "resolve (output_path out f) \<noteq> k \<Longrightarrow> file_upd rt options out fs f m k = m k"
  by (simp add: file_upd_def split: option.splits)

lemma file_upd_at:
  "file_upd rt options out fs f m (resolve (output_path out f)) =
   file_upd rt options out fs f (\<lambda>_. m (resolve (output_path out f))) (resolve (output_path out f))"
  by (simp add: file_upd_def split: option.splits)

lemma fold_file_upd:
  assumes "distinct js" "\<forall>j \<in> set js. j < length batch" "distinct (map file_name_of batch)"
  shows "fold (\<lambda>j. file_upd rt options out fs (batch ! j)) js m k =
         (case filter (\<lambda>j. resolve (output_path out (batch ! j)) = k) js of
            [] \<Rightarrow> m k
          | j # _ \<Rightarrow> file_upd rt options out fs (batch ! j) m k)"
  using assms
proof (induction js arbitrary: m)
  case Nil
  then show ?case by simp
next
  case (Cons j js)
  let ?u = "file_upd rt options out fs (batch ! j) m"
  have IH: "fold (\<lambda>j. file_upd rt options out fs (batch ! j)) js ?u k =
      (case filter (\<lambda>j. resolve (output_path out (batch ! j)) = k) js of
         [] \<Rightarrow> ?u k | i # _ \<Rightarrow> file_upd rt options out fs (batch ! i) ?u k)"
    using Cons by simp
  show ?case
  proof (cases "resolve (output_path out (batch ! j)) = k")
    case True
    have "filter (\<lambda>i. resolve (output_path out (batch ! i)) = k) js = []"
    proof -
      have "resolve (output_path out (batch ! i)) \<noteq> k" if "i \<in> set js" for i
      proof
        assume eq: "resolve (output_path out (batch ! i)) = k"
        from that Cons.prems have "i \<noteq> j" "i < length batch" "j < length batch" by auto
        with Cons.prems(3) have "file_name_of (batch ! i) \<noteq> file_name_of (batch ! j)"
          by (simp add: distinct_conv_nth)
        moreover from eq True have
          "resolve (output_path out (batch ! i)) = resolve (output_path out (batch ! j))" by simp
        ultimately show False by (simp add: resolve_output_path_inj)
      qed
      then show ?thesis by (auto simp: filter_empty_conv)
    qed
    with IH True show ?thesis by simp
  next
    case False
    then have "?u k = m k" by (simp add: file_upd_other)
    moreover have "file_upd rt options out fs (batch ! i) ?u k = file_upd rt options out fs (batch ! i) m k"
      if "resolve (output_path out (batch ! i)) = k" for i
      using that False file_upd_at [of rt options out fs "batch ! i" ?u]
        file_upd_at [of rt options out fs "batch ! i" m] \<open>?u k = m k\<close> by simp
    ultimately show ?thesis using IH False by (auto split: list.splits dest: filter_eq_ConsD)
  qed
qed

lemma distinct_set_singleton:
  assumes "distinct xs" "set xs = {j}"
  shows "xs = [j]"
proof -
  have "length xs = 1" using distinct_card [OF assms(1)] assms(2) by simp
  then obtain x where "xs = [x]" by (cases xs) auto
  with assms(2) show ?thesis by simp
qed

lemma filter_unique_eq:
  assumes "distinct xs" "distinct ys" "set xs = set ys"
    "\<And>i j. i \<in> set xs \<Longrightarrow> j \<in> set xs \<Longrightarrow> P i \<Longrightarrow> P j \<Longrightarrow> i = j"
  shows "filter P xs = filter P ys"
proof (cases "\<exists>j \<in> set xs. P j")
  case True
  then obtain j where j: "j \<in> set xs" "P j" by blast
  with assms(3,4) have sx: "set (filter P xs) = {j}" and sy: "set (filter P ys) = {j}"
    by auto
  have "filter P xs = [j]" using distinct_filter [OF assms(1)] sx by (rule distinct_set_singleton)
  moreover have "filter P ys = [j]" using distinct_filter [OF assms(2)] sy by (rule distinct_set_singleton)
  ultimately show ?thesis by simp
next
  case False
  with assms(3) show ?thesis by (auto simp: filter_empty_conv)
qed

lemma names_distinct_keys:
  assumes "distinct (map file_name_of batch)" "i < length batch" "j < length batch"
    "resolve (output_path out (batch ! i)) = resolve (output_path out (batch ! j))"
  shows "i = j"
  using assms by (auto simp: resolve_output_path_inj distinct_conv_nth)

lemma filter_nth_map: "filter P xs = map ((!) xs) (filter (\<lambda>j. P (xs ! j)) [0..<length xs])"
proof -
  have "filter P xs = filter P (map ((!) xs) [0..<length xs])" by (simp add: map_nth)
  then show ?thesis by (simp add: filter_map comp_def)
qed

lemma each_callbacks_outputs:
  assumes "valid_schedule batch sched" "distinct (map file_name_of batch)"
  shows "fs_files (fst (each_callbacks rt options out batch sched st)) =
         batch_outputs rt options out (fst st) batch"
proof
  fix k
  let ?P = "\<lambda>j. resolve (output_path out (batch ! j)) = k"
  have sched: "distinct sched" "\<forall>j \<in> set sched. j < length batch"
    and sset: "set sched = set [0..<length batch]"
    using assms(1) by (auto simp: valid_schedule_def)
  have filt: "filter ?P sched = filter ?P [0..<length batch]"
  proof (rule filter_unique_eq [OF sched(1) _ sset])
    show "distinct [0..<length batch]" by simp
    show "i = j" if "i \<in> set sched" "j \<in> set sched" "?P i" "?P j" for i j
      using that sched(2) names_distinct_keys [OF assms(2), of i j out] by simp
  qed
  have "fs_files (fst (each_callbacks rt options out batch sched st)) k =
      (case filter ?P sched of [] \<Rightarrow> fs_files (fst st) k
       | j # _ \<Rightarrow> file_upd rt options out (fst st) (batch ! j) (fs_files (fst st)) k)"
    by (simp add: each_callbacks_files fold_file_upd [OF sched assms(2)])
  also have "\<dots> = batch_outputs rt options out (fst st) batch k"
    by (simp add: batch_outputs_def filt filter_nth_map [of _ batch] split: list.splits)
  finally show "fs_files (fst (each_callbacks rt options out batch sched st)) k =
      batch_outputs rt options out (fst st) batch k" .
qed

lemma worker_main_Inr:
  assumes "worker_batch bs wid = Inr batch"
  shows "worker_main rt options out bs wid sched st =
    (let st3 = each_callbacks rt options out batch sched
                 (fst st, snd st @ [LogWorkerStarted wid (length batch)] @ map LogProcessingFile batch)
     in if length sched = length batch then (Some (ExitCode 0), (fst st3, snd st3 @ [LogWorkerDone wid]))
        else (None, st3))"
  using assms by (simp add: worker_main_def each_start_eq handleComplete_def Let_def)

lemma worker_main_files:
  assumes "worker_batch bs wid = Inr batch" "valid_schedule batch sched"
    "distinct (map file_name_of batch)"
  shows "fs_files (fst (snd (worker_main rt options out bs wid sched st))) =
         batch_outputs rt options out (fst st) batch"
  using assms each_callbacks_outputs [OF assms(2,3)] by (simp add: worker_main_Inr Let_def)

lemma batch_outputs_at:
  assumes "f \<in> set batch" "distinct (map file_name_of batch)"
  shows "batch_outputs rt options out fs batch (resolve (output_path out f)) =
         file_upd rt options out fs f (fs_files fs) (resolve (output_path out f))"
proof -
  let ?P = "\<lambda>g. resolve (output_path out g) = resolve (output_path out f)"
  have "\<forall>g \<in> set batch. ?P g \<longrightarrow> g = f"
    using assms by (auto simp: resolve_output_path_inj distinct_map inj_on_def)
  then have "set (filter ?P batch) = {f}" using assms(1) by auto
  moreover have "distinct (filter ?P batch)" using assms(2) by (simp add: distinct_map)
  ultimately have "filter ?P batch = [f]" by (simp add: distinct_set_singleton)
  then show ?thesis by (simp add: batch_outputs_def)
qed

lemma fold_file_upd_other:
  "\<forall>j \<in> set js. resolve (output_path out (batch ! j)) \<noteq> k \<Longrightarrow>
   fold (\<lambda>j. file_upd rt options out fs (batch ! j)) js m k = m k"
proof (induction js arbitrary: m)
  case Nil
  then show ?case by simp
next
  case (Cons j js)
  then show ?case by (simp add: file_upd_other)
qed

lemma each_callbacks_saved:
  "concat (map saved_of (snd (each_callbacks rt options out batch js st))) =
   concat (map saved_of (snd st)) @ map (\<lambda>j. node_normalize (output_path out (batch ! j))) js"
proof (induction js arbitrary: st)
  case Nil
  then show ?case by simp
next
  case (Cons j js)
  obtain tl where "snd (extractText_callback rt options out (batch ! j) st) =
      snd st @ LogSavedFile (node_normalize (output_path out (batch ! j))) # tl"
      "tl = [] \<or> (\<exists>e. tl = [LogConsoleError e] \<and> e \<notin> range ExtractionError)"
    using saveFile_log unfolding extractText_callback_def by blast
  with Cons.IH show ?case by auto
qed

lemma each_callbacks_entries:
  "\<exists>post. snd (each_callbacks rt options out batch js st) = snd st @ post \<and>
          (\<forall>e \<in> set post. callback_entry e)"
proof (induction js arbitrary: st)
  case Nil
  then show ?case by simp
next
  case (Cons j js)
  obtain tl where tl: "snd (extractText_callback rt options out (batch ! j) st) =
      snd st @ LogSavedFile (node_normalize (output_path out (batch ! j))) # tl"
      "tl = [] \<or> (\<exists>e. tl = [LogConsoleError e] \<and> e \<notin> range ExtractionError)"
    using saveFile_log unfolding extractText_callback_def by blast
  from Cons.IH obtain post where
    "snd (each_callbacks rt options out batch js (extractText_callback rt options out (batch ! j) st)) =
     snd (extractText_callback rt options out (batch ! j) st) @ post"
    "\<forall>e \<in> set post. callback_entry e" by blast
  with tl show ?case
    by (auto intro!: exI [of _ "LogSavedFile (node_normalize (output_path out (batch ! j))) # tl @ post"])
qed

lemma worker_files_fold:
  assumes "worker_batch bs wid = Inr batch"
  shows "fs_files (fst (snd (worker_main rt options out bs wid sched st))) =
         fold (\<lambda>j. file_upd rt options out (fst st) (batch ! j)) sched (fs_files (fst st))"
  using assms by (simp add: worker_main_Inr Let_def each_callbacks_files)

lemma resolve_demo_out: "resolve ''./text/'' = (False, [''text''])"
  by (simp add: resolve_def norm_segs_def norm_push.simps)

lemmas demo_simps = resolve_output_path resolve_demo_out writable_def parent_key_def
  file_name_of_takeWhile worker_batch_def js_index_def

lemma valid_schedule_demo: "valid_schedule [''pdf/a.pdf'', ''pdf/b.pdf''] [1, 0]"
  by (auto simp: valid_schedule_def upt_rec)

subsection \<open>Properties of a worker\<close>

text \<open>
  C12. Per-file fault isolation: when every file of the batch has its own base name, each file whose extraction succeeds has its text in its output file once the worker is done, whatever the other files did and in whatever order the callbacks came, provided the output entry can be written.
\<close>

theorem worker_saves_every_success:
  assumes "worker_batch bs wid = Inr batch" "valid_schedule batch sched"
    "distinct (map file_name_of batch)" "f \<in> set batch" "tika rt options f = Inr text"
    "writable (fst st) (resolve (output_path out f))"
  shows "fs_files (fst (snd (worker_main rt options out bs wid sched st)))
           (resolve (output_path out f)) = Some text"
  using assms by (simp add: worker_main_files batch_outputs_at file_upd_def tika_result_def
      written_data_def)

theorem worker_saves_every_success_witness:
  "fs_files (fst (snd (worker_main (demo_env False) demo_options ''./text/''
      [[''pdf/a.pdf'', ''pdf/b.pdf''], [''pdf/c.pdf'']] 1 [1, 0] (demo_fs, []))))
      (False, [''text'', ''a.pdf.txt'']) = Some ''TEXT:pdf/a.pdf''"
proof -
  have "fs_files (fst (snd (worker_main (demo_env False) demo_options ''./text/''
      [[''pdf/a.pdf'', ''pdf/b.pdf''], [''pdf/c.pdf'']] 1 [1, 0] (demo_fs, []))))
      (resolve (output_path ''./text/'' ''pdf/a.pdf'')) = Some ''TEXT:pdf/a.pdf''"
  proof (rule worker_saves_every_success)
    show "valid_schedule [''pdf/a.pdf'', ''pdf/b.pdf''] [1, 0]"
      by (auto simp: valid_schedule_def upt_rec)
  qed (simp_all add: demo_simps)
  then show ?thesis by (simp add: demo_simps)
qed

text \<open>
  C13. A worker changes no entry of the file system but the output entries of its batch.
\<close>

theorem worker_touches_only_outputs:
  assumes "worker_batch bs wid = Inr batch" "valid_schedule batch sched"
    "\<forall>f \<in> set batch. resolve (output_path out f) \<noteq> k"
  shows "fs_files (fst (snd (worker_main rt options out bs wid sched st))) k = fs_files (fst st) k"
proof -
  have "\<forall>j \<in> set sched. resolve (output_path out (batch ! j)) \<noteq> k"
    using assms(2,3) by (auto simp: valid_schedule_def)
  then show ?thesis
    using assms(1) by (simp add: worker_main_Inr Let_def each_callbacks_files fold_file_upd_other)
qed

theorem worker_touches_only_outputs_witness:
  "fs_files (fst (snd (worker_main (demo_env False) demo_options ''./text/''
      [[''pdf/a.pdf'', ''pdf/b.pdf''], [''pdf/c.pdf'']] 1 [1, 0] (demo_fs, []))))
      (False, [''text'', ''c.pdf.txt'']) = None"
proof -
  have "fs_files (fst (snd (worker_main (demo_env False) demo_options ''./text/''
      [[''pdf/a.pdf'', ''pdf/b.pdf''], [''pdf/c.pdf'']] 1 [1, 0] (demo_fs, []))))
      (False, [''text'', ''c.pdf.txt'']) =
      fs_files (fst (demo_fs, [] :: log_event list)) (False, [''text'', ''c.pdf.txt''])"
  proof (rule worker_touches_only_outputs)
    show "valid_schedule [''pdf/a.pdf'', ''pdf/b.pdf''] [1, 0]" by (rule valid_schedule_demo)
  qed (simp_all add: demo_simps)
  then show ?thesis by simp
qed

text \<open>
  C14. When the base names in a batch are distinct, the files a worker leaves do not depend on the order in which Tika's callbacks come back.
\<close>

theorem worker_schedule_independent:
  assumes "worker_batch bs wid = Inr batch" "valid_schedule batch sched1" "valid_schedule batch sched2"
    "distinct (map file_name_of batch)"
  shows "fs_files (fst (snd (worker_main rt options out bs wid sched1 st))) =
         fs_files (fst (snd (worker_main rt options out bs wid sched2 st)))"
  using assms by (simp add: worker_main_files)

theorem worker_schedule_independent_witness:
  "fs_files (fst (snd (worker_main (demo_env False) demo_options ''./text/''
      [[''pdf/a.pdf'', ''pdf/c.pdf'']] 1 [1, 0] (demo_fs, [])))) =
   fs_files (fst (snd (worker_main (demo_env False) demo_options ''./text/''
      [[''pdf/a.pdf'', ''pdf/c.pdf'']] 1 [0, 1] (demo_fs, []))))"
proof (rule worker_schedule_independent)
  show "valid_schedule [''pdf/a.pdf'', ''pdf/c.pdf''] [1, 0]"
    by (auto simp: valid_schedule_def upt_rec)
  show "valid_schedule [''pdf/a.pdf'', ''pdf/c.pdf''] [0, 1]"
    by (auto simp: valid_schedule_def upt_rec)
qed (simp_all add: demo_simps)






text \<open>
  C18. All extractions of a batch are started before any result is saved (every Processing line precedes the first save), and the saves are logged in callback order, not in batch order.
\<close>

theorem worker_log_order:
  assumes "worker_batch bs wid = Inr batch"
  shows "concat (map saved_of (snd (snd (worker_main rt options out bs wid sched st)))) =
           concat (map saved_of (snd st)) @ map (\<lambda>j. node_normalize (output_path out (batch ! j))) sched \<and>
         (\<exists>post. snd (snd (worker_main rt options out bs wid sched st)) =
            snd st @ LogWorkerStarted wid (length batch) # map LogProcessingFile batch @ post \<and>
            (\<forall>e \<in> set post. callback_entry e \<or> e = LogWorkerDone wid))"
proof -
  let ?st2 = "(fst st, snd st @ [LogWorkerStarted wid (length batch)] @ map LogProcessingFile batch)"
  obtain post where post: "snd (each_callbacks rt options out batch sched ?st2) = snd ?st2 @ post"
    "\<forall>e \<in> set post. callback_entry e"
    using each_callbacks_entries by blast
  have saved: "concat (map saved_of (snd (each_callbacks rt options out batch sched ?st2))) =
      concat (map saved_of (snd st)) @ map (\<lambda>j. node_normalize (output_path out (batch ! j))) sched"
    by (simp add: each_callbacks_saved)
  show ?thesis
  proof (cases "length sched = length batch")
    case True
    with assms post saved show ?thesis
      by (auto simp: worker_main_Inr Let_def intro!: exI [of _ "post @ [LogWorkerDone wid]"])
  next
    case False
    with assms post saved show ?thesis by (auto simp: worker_main_Inr Let_def)
  qed
qed

theorem worker_log_order_witness:
  "concat (map saved_of (snd (snd (worker_main (demo_env False) demo_options ''./text/''
      [[''pdf/a.pdf'', ''pdf/b.pdf''], [''pdf/c.pdf'']] 1 [1, 0] (demo_fs, []))))) =
     [''text/b.pdf.txt'', ''text/a.pdf.txt'']"
proof -
  have "worker_batch [[''pdf/a.pdf'', ''pdf/b.pdf''], [''pdf/c.pdf'']] 1 = Inr [''pdf/a.pdf'', ''pdf/b.pdf'']"
    by (simp add: demo_simps)
  from worker_log_order [OF this, of "demo_env False" demo_options "''./text/''" "[1, 0]" "(demo_fs, [])"]
  show ?thesis by (simp add: output_path_def node_join_def node_normalize_def file_name_of_takeWhile norm_segs_def norm_push.simps Let_def)
qed

text \<open>
  C19. A failed extraction is not skipped: the worker saves undefined. Before Node.js 14 this writes the text undefined to the output file; from Node.js 14 on the write throws, is caught, and the output entry keeps what it had.
\<close>

theorem worker_failed_extraction:
  assumes "worker_batch bs wid = Inr batch" "valid_schedule batch sched"
    "distinct (map file_name_of batch)" "f \<in> set batch" "tika rt options f = Inl e"
  shows "fs_files (fst (snd (worker_main rt options out bs wid sched st))) (resolve (output_path out f)) =
           (if coerce_undefined rt \<and> writable (fst st) (resolve (output_path out f))
            then Some ''undefined'' else fs_files (fst st) (resolve (output_path out f)))"
  using assms by (simp add: worker_main_files batch_outputs_at file_upd_def tika_result_def
      written_data_def)

theorem worker_failed_extraction_witness:
  "fs_files (fst (snd (worker_main (demo_env False) demo_options ''./text/''
      [[''pdf/a.pdf'', ''pdf/b.pdf''], [''pdf/c.pdf'']] 1 [1, 0] (demo_fs, []))))
      (False, [''text'', ''b.pdf.txt'']) = None \<and>
   fs_files (fst (snd (worker_main (demo_env True) demo_options ''./text/''
      [[''pdf/a.pdf'', ''pdf/b.pdf''], [''pdf/c.pdf'']] 1 [1, 0] (demo_fs, []))))
      (False, [''text'', ''b.pdf.txt'']) = Some ''undefined''"
proof -
  have modern: "fs_files (fst (snd (worker_main (demo_env False) demo_options ''./text/''
      [[''pdf/a.pdf'', ''pdf/b.pdf''], [''pdf/c.pdf'']] 1 [1, 0] (demo_fs, []))))
      (resolve (output_path ''./text/'' ''pdf/b.pdf'')) =
      (if coerce_undefined (demo_env False) \<and> writable (fst (demo_fs, [] :: log_event list))
            (resolve (output_path ''./text/'' ''pdf/b.pdf''))
       then Some ''undefined'' else fs_files (fst (demo_fs, [] :: log_event list))
            (resolve (output_path ''./text/'' ''pdf/b.pdf'')))"
  proof (rule worker_failed_extraction)
    show "valid_schedule [''pdf/a.pdf'', ''pdf/b.pdf''] [1, 0]" by (rule valid_schedule_demo)
  qed (simp_all add: demo_simps)
  have legacy: "fs_files (fst (snd (worker_main (demo_env True) demo_options ''./text/''
      [[''pdf/a.pdf'', ''pdf/b.pdf''], [''pdf/c.pdf'']] 1 [1, 0] (demo_fs, []))))
      (resolve (output_path ''./text/'' ''pdf/b.pdf'')) =
      (if coerce_undefined (demo_env True) \<and> writable (fst (demo_fs, [] :: log_event list))
            (resolve (output_path ''./text/'' ''pdf/b.pdf''))
       then Some ''undefined'' else fs_files (fst (demo_fs, [] :: log_event list))
            (resolve (output_path ''./text/'' ''pdf/b.pdf'')))"
  proof (rule worker_failed_extraction)
    show "valid_schedule [''pdf/a.pdf'', ''pdf/b.pdf''] [1, 0]" by (rule valid_schedule_demo)
  qed (simp_all add: demo_simps)
  from modern legacy show ?thesis by (simp add: demo_simps)
qed

text \<open>
  C20. The multicore worker never prints the error Tika reports: every error line it adds comes from a failed write.
\<close>

theorem worker_never_logs_extraction_errors:
  assumes "LogConsoleError (ExtractionError msg) \<in> set (snd (snd (worker_main rt options out bs wid sched st)))"
  shows "LogConsoleError (ExtractionError msg) \<in> set (snd st)"
proof (cases "worker_batch bs wid")
  case (Inl e)
  with assms show ?thesis by (simp add: worker_main_def)
next
  case (Inr batch)
  let ?st2 = "(fst st, snd st @ [LogWorkerStarted wid (length batch)] @ map LogProcessingFile batch)"
  obtain post where post: "snd (each_callbacks rt options out batch sched ?st2) = snd ?st2 @ post"
    "\<forall>e \<in> set post. callback_entry e"
    using each_callbacks_entries by blast
  then have "LogConsoleError (ExtractionError msg) \<notin> set post" by fastforce
  with assms Inr post show ?thesis by (auto simp: worker_main_Inr Let_def split: if_splits)
qed

theorem worker_never_logs_extraction_errors_witness:
  "LogConsoleError (ExtractionError ''b.pdf'') \<notin>
     set (snd (snd (worker_main (demo_env False) demo_options ''./text/''
        [[''pdf/a.pdf'', ''pdf/b.pdf''], [''pdf/c.pdf'']] 1 [1, 0] (demo_fs, []))))"
  using worker_never_logs_extraction_errors [of "''b.pdf''" "demo_env False" demo_options "''./text/''"
      "[[''pdf/a.pdf'', ''pdf/b.pdf''], [''pdf/c.pdf'']]" 1 "[1, 0]" "(demo_fs, [])"] by auto



end
