(* ===== verification/PdfFilter.thy ===== *)
theory PdfFilter
  imports Prelude
begin

text \<open>
  The file filters of the two extraction scripts: \<open>readFiles\<close> keeps the
  paths for which \<open>file.search(re) > -1\<close>, with \<open>re = /\.pdf$/\<close> in
  \<open>src/extract-multicore.js\<close> (line 65) and \<open>re = /.*.pdf/\<close> in
  \<open>src/extract.js\<close> (line 61). \<open>String.prototype.search\<close> with a regular
  expression without the \<open>g\<close> or \<open>y\<close> flag tries a match at every position
  from 0 to the length of the string and returns the first position where
  one starts, or \<open>-1\<close>. A regular expression is modelled by its anchored
  matcher: whether it matches some prefix of the rest of the string.
\<close>

fun js_search_at :: "(string \<Rightarrow> bool) \<Rightarrow> string \<Rightarrow> nat \<Rightarrow> int" where
  "js_search_at m [] i = (if m [] then int i else -1)"
| "js_search_at m (c # cs) i = (if m (c # cs) then int i else js_search_at m cs (Suc i))"

definition js_search :: "(string \<Rightarrow> bool) \<Rightarrow> string \<Rightarrow> int" where
  "js_search m s = js_search_at m s 0"

text \<open>
  The characters \<open>.\<close> does not match: the line terminators. Isabelle's
  characters are bytes, so \<open>U+2028\<close> and \<open>U+2029\<close> do not occur.
\<close>

definition line_terminator :: "char \<Rightarrow> bool" where
  "line_terminator c \<longleftrightarrow> c = CHR 0x0A \<or> c = CHR 0x0D"

text \<open>
  \<open>/\.pdf$/\<close> at a position: the literal \<open>.pdf\<close>, then the end of the input
  (\<open>$\<close> without the \<open>m\<close> flag).
\<close>

definition pdf_suffix_at :: "string \<Rightarrow> bool" where
  "pdf_suffix_at s \<longleftrightarrow> s = ''.pdf''"

text \<open>
  \<open>/.*.pdf/\<close> at a position: a run of non-terminators (\<open>.*\<close>), one more
  non-terminator (\<open>.\<close>), then \<open>pdf\<close>. Backtracking over the length of the
  run makes this: the first character is not a terminator, and either
  \<open>pdf\<close> follows it or the pattern matches from the next character.
\<close>

fun dotstar_pdf_at :: "string \<Rightarrow> bool" where
  "dotstar_pdf_at [] = False"
| "dotstar_pdf_at (c # cs) = (\<not> line_terminator c \<and> (take 3 cs = ''pdf'' \<or> dotstar_pdf_at cs))"

definition multicore_filter :: "path list \<Rightarrow> path list" where
  "multicore_filter fileList = filter (\<lambda>file. js_search pdf_suffix_at file > -1) fileList"

definition sequential_filter :: "path list \<Rightarrow> path list" where
  "sequential_filter files = filter (\<lambda>file. js_search dotstar_pdf_at file > -1) files"

subsection \<open>Search\<close>

lemma ex_le_Suc_iff: "(\<exists>j \<le> Suc n. P j) \<longleftrightarrow> P 0 \<or> (\<exists>j \<le> n. P (Suc j))"
proof
  assume "\<exists>j \<le> Suc n. P j"
  then obtain j where "j \<le> Suc n" "P j" by blast
  then show "P 0 \<or> (\<exists>j \<le> n. P (Suc j))" by (cases j) auto
next
  assume "P 0 \<or> (\<exists>j \<le> n. P (Suc j))"
  then show "\<exists>j \<le> Suc n. P j" by (meson Suc_le_mono le0)
qed

lemma js_search_at_found:
  "js_search_at m s i > -1 \<longleftrightarrow> (\<exists>j \<le> length s. m (drop j s))"
  by (induction s arbitrary: i) (simp_all add: ex_le_Suc_iff)

lemma js_search_found: "js_search m s > -1 \<longleftrightarrow> (\<exists>j \<le> length s. m (drop j s))"
  by (simp add: js_search_def js_search_at_found)

lemma drop_split_iff: "(\<exists>j \<le> length s. drop j s = t) \<longleftrightarrow> (\<exists>u. s = u @ t)"
proof
  assume "\<exists>j \<le> length s. drop j s = t"
  then obtain j where "drop j s = t" by blast
  then show "\<exists>u. s = u @ t" by (metis append_take_drop_id)
next
  assume "\<exists>u. s = u @ t"
  then obtain u where "s = u @ t" by blast
  then show "\<exists>j \<le> length s. drop j s = t" by (intro exI [of _ "length u"]) simp
qed

lemma take3_pdf_iff: "take 3 s = ''pdf'' \<longleftrightarrow> (\<exists>w. s = ''pdf'' @ w)"
  by (metis append_take_drop_id append_eq_conv_conj length_Cons list.size(3) numeral_3_eq_3)

lemma dotstar_pdf_at_iff:
  "dotstar_pdf_at s \<longleftrightarrow>
     (\<exists>u c w. s = u @ c # ''pdf'' @ w \<and> (\<forall>x \<in> set (u @ [c]). \<not> line_terminator x))"
proof (induction s)
  case Nil
  then show ?case by simp
next
  case (Cons a s)
  show ?case
  proof
    assume d: "dotstar_pdf_at (a # s)"
    then have a: "\<not> line_terminator a" by simp
    show "\<exists>u c w. a # s = u @ c # ''pdf'' @ w \<and> (\<forall>x \<in> set (u @ [c]). \<not> line_terminator x)"
    proof (cases "take 3 s = ''pdf''")
      case True
      then obtain w where "s = ''pdf'' @ w" using take3_pdf_iff by blast
      with a show ?thesis by (intro exI [of _ "[]"] exI [of _ a] exI [of _ w]) simp
    next
      case False
      with d Cons.IH obtain u c w where
        "s = u @ c # ''pdf'' @ w" "\<forall>x \<in> set (u @ [c]). \<not> line_terminator x" by auto
      with a show ?thesis by (intro exI [of _ "a # u"] exI [of _ c] exI [of _ w]) simp
    qed
  next
    assume "\<exists>u c w. a # s = u @ c # ''pdf'' @ w \<and> (\<forall>x \<in> set (u @ [c]). \<not> line_terminator x)"
    then obtain u c w where s: "a # s = u @ c # ''pdf'' @ w" "\<forall>x \<in> set (u @ [c]). \<not> line_terminator x"
      by blast
    show "dotstar_pdf_at (a # s)"
    proof (cases u)
      case Nil
      with s show ?thesis by simp
    next
      case (Cons b u')
      with s Cons.IH show ?thesis by auto
    qed
  qed
qed

lemma search_dotstar_pdf_iff:
  "js_search dotstar_pdf_at f > -1 \<longleftrightarrow>
     (\<exists>u c w. f = u @ c # ''pdf'' @ w \<and> \<not> line_terminator c)"
proof
  assume "js_search dotstar_pdf_at f > -1"
  then obtain j where "dotstar_pdf_at (drop j f)" by (auto simp: js_search_found)
  then obtain u c w where d: "drop j f = u @ c # ''pdf'' @ w" "\<not> line_terminator c"
    by (auto simp: dotstar_pdf_at_iff)
  have "f = (take j f @ u) @ c # ''pdf'' @ w" using d(1) by (metis append_take_drop_id append.assoc)
  with d(2) show "\<exists>u c w. f = u @ c # ''pdf'' @ w \<and> \<not> line_terminator c" by blast
next
  assume "\<exists>u c w. f = u @ c # ''pdf'' @ w \<and> \<not> line_terminator c"
  then obtain u c w where f: "f = u @ c # ''pdf'' @ w" "\<not> line_terminator c" by blast
  then have "dotstar_pdf_at (drop (length u) f)" by simp
  then show "js_search dotstar_pdf_at f > -1"
    unfolding js_search_found using f(1) by (intro exI [of _ "length u"]) simp
qed

lemma search_pdf_suffix_iff: "js_search pdf_suffix_at f > -1 \<longleftrightarrow> (\<exists>u. f = u @ ''.pdf'')"
  by (simp add: js_search_found pdf_suffix_at_def drop_split_iff)

subsection \<open>Properties of the filters\<close>

text \<open>
  C25. The multicore script keeps exactly the listed paths that end in
  \<open>.pdf\<close>, in listing order.
\<close>

theorem multicore_filter_suffix:
  "multicore_filter fileList = filter (\<lambda>f. \<exists>u. f = u @ ''.pdf'') fileList"
  by (simp add: multicore_filter_def search_pdf_suffix_iff)

text \<open>
  C26. The sequential script keeps every listed path that contains
  \<open>pdf\<close> after some character other than a line terminator: anywhere in
  the path, not only as its extension.
\<close>

theorem sequential_filter_infix:
  "sequential_filter files =
     filter (\<lambda>f. \<exists>u c w. f = u @ c # ''pdf'' @ w \<and> \<not> line_terminator c) files"
  by (simp add: sequential_filter_def search_dotstar_pdf_iff)

text \<open>
  C27. The two scripts select different inputs from one listing: the
  sequential filter keeps every file the multicore filter keeps, and also
  files whose folder or name merely contains \<open>pdf\<close>; neither keeps
  upper-case \<open>.PDF\<close> files.
\<close>

theorem filters_differ:
  "multicore_filter (sequential_filter fileList) = multicore_filter fileList \<and>
   sequential_filter [''/data/pdf/notes.txt'', ''pdf/scan.pdf.bak'', ''pdf/A.PDF'', ''pdf/a.pdf''] =
     [''/data/pdf/notes.txt'', ''pdf/scan.pdf.bak'', ''pdf/a.pdf''] \<and>
   multicore_filter [''/data/pdf/notes.txt'', ''pdf/scan.pdf.bak'', ''pdf/A.PDF'', ''pdf/a.pdf''] =
     [''pdf/a.pdf'']"
proof (intro conjI)
  have "\<not> line_terminator (CHR ''.'')" by (simp add: line_terminator_def)
  then have "\<And>f. (\<exists>u. f = u @ ''.pdf'') \<Longrightarrow> js_search dotstar_pdf_at f > -1"
    unfolding search_dotstar_pdf_iff by (metis append_Cons append_Nil)
  then show "multicore_filter (sequential_filter fileList) = multicore_filter fileList"
    by (auto simp: multicore_filter_def sequential_filter_def search_pdf_suffix_iff filter_filter
        intro: filter_cong)
qed (simp_all add: multicore_filter_def sequential_filter_def js_search_def pdf_suffix_at_def
      line_terminator_def)

end
