(* ===== verification/Orchestrator.thy ===== *)
theory Orchestrator
  imports Worker PdfFilter
begin

text \<open>
  The start of a process of \<open>src/extract-multicore.js\<close>: \<open>init\<close> (lines
  39--55) with its configuration from the arguments, the creation of the
  output folder, \<open>readFiles\<close> (lines 57--69) and \<open>prepareCluster\<close> (lines
  71--93). The master and every worker run this same code: a forked worker
  re-runs the script with the master's arguments, lists the input folder
  again and recomputes the batch table before it takes its own batch. The
  listing \<open>dir.files\<close> returns is an input (\<open>Inl\<close> for the error its callback
  receives); \<open>os.cpus().length\<close> is the number \<open>cpus\<close>.
\<close>

record config =
  inputFolder :: path
  outputFolder :: path
  options :: tika_options

text \<open>The module's defaults (lines 14--24). The arguments \<open>_inputFolder\<close>,
  \<open>_outputFolder\<close>, \<open>_language\<close> of \<open>init\<close> are written with a prime.\<close>

definition default_options :: tika_options where
  "default_options = \<lparr>contentType = ''application/pdf'', ocrLanguage = ''deu'',
     pdfEnableAutoSpace = True, pdfExtractInlineImages = True, language = None\<rparr>"

definition init_config :: "string option \<Rightarrow> string option \<Rightarrow> string option \<Rightarrow> config" where
  "init_config inputFolder' outputFolder' language' =
     \<lparr>inputFolder = js_or inputFolder' ''./pdf/'',
      outputFolder = js_or outputFolder' ''./text/'',
      options = default_options\<lparr>language := js_or_opt language' (language default_options)\<rparr>\<rparr>"

text \<open>\<open>if (!fs.existsSync(outputFolder)) fs.mkdirSync(outputFolder)\<close>: the
  error of \<open>mkdirSync\<close> is not caught.\<close>

definition ensure_output :: "fsys \<Rightarrow> path \<Rightarrow> js_error + fsys" where
  "ensure_output fs outFolder =
     (if existsSync fs outFolder then Inr fs else mkdirSync fs outFolder)"

text \<open>\<open>readFiles\<close>: the error of \<open>dir.files\<close> is thrown, the list filtered.\<close>

definition readFiles :: "js_error + path list \<Rightarrow> js_error + path list" where
  "readFiles listing =
     (case listing of Inl error \<Rightarrow> Inl error | Inr fileList \<Rightarrow> Inr (multicore_filter fileList))"

datatype role = Master | WorkerOf nat

text \<open>What a process has become when \<open>prepareCluster\<close> returns.\<close>

datatype proc_result =
    MasterForked nat                \<comment> \<open>the master has forked this many workers\<close>
  | WorkerRunning "path list"       \<comment> \<open>a worker has started Tika on its batch\<close>
  | Crashed js_error                \<comment> \<open>an uncaught exception ended the process\<close>

text \<open>
  \<open>prepareCluster\<close>: both roles compute the worker count and the batch
  table first, so both hang when \<open>chunkArray\<close> does (\<open>None\<close>). The master
  prints the count and forks; a worker prints its start line and
  \<open>async.each\<close> starts Tika on every file of its batch.
\<close>

definition prepareCluster :: "role \<Rightarrow> nat \<Rightarrow> path list \<Rightarrow> out_state \<Rightarrow> (proc_result \<times> out_state) option" where
  "prepareCluster r cpus fileList st =
     (case fileListBatches cpus fileList of
        None \<Rightarrow> None
      | Some batches \<Rightarrow>
          (case r of
             Master \<Rightarrow>
               Some (MasterForked (workerCount cpus fileList),
                     (fst st, snd st @ [LogStartingWorkers (workerCount cpus fileList)]))
           | WorkerOf wid \<Rightarrow>
               (case worker_batch batches wid of
                  Inl e \<Rightarrow> Some (Crashed e, st)
                | Inr batch \<Rightarrow>
                    Some (WorkerRunning batch,
                          each_start batch (fst st, snd st @ [LogWorkerStarted wid (length batch)])))))"

definition init ::
  "role \<Rightarrow> nat \<Rightarrow> config \<Rightarrow> js_error + path list \<Rightarrow> out_state \<Rightarrow> (proc_result \<times> out_state) option" where
  "init r cpus cfg listing st =
     (case ensure_output (fst st) (outputFolder cfg) of
        Inl e \<Rightarrow> Some (Crashed e, st)
      | Inr fs \<Rightarrow>
          (case readFiles listing of
             Inl e \<Rightarrow> Some (Crashed e, (fs, snd st))
           | Inr fileList \<Rightarrow> prepareCluster r cpus fileList (fs, snd st)))"

subsection \<open>The start of a process\<close>

lemma ensure_output_dirs:
  "ensure_output fs p = Inr fs' \<Longrightarrow> fs_files fs' = fs_files fs \<and> fs_dirs fs \<subseteq> fs_dirs fs'"
  by (auto simp: ensure_output_def mkdirSync_def Let_def split: if_splits)

lemma ensure_output_exists:
  "ensure_output fs p = Inr fs' \<Longrightarrow> existsSync fs' p"
  by (auto simp: ensure_output_def mkdirSync_def existsSync_def Let_def split: if_splits)

lemma ensure_output_again:
  "existsSync fs p \<Longrightarrow> ensure_output fs p = Inr fs"
  by (simp add: ensure_output_def)

lemma prepareCluster_worker:
  assumes "fileListBatches cpus fileList = Some batches"
  shows "prepareCluster (WorkerOf wid) cpus fileList st =
           Some (case worker_batch batches wid of
                   Inl e \<Rightarrow> (Crashed e, st)
                 | Inr batch \<Rightarrow> (WorkerRunning batch,
                     (fst st, snd st @ LogWorkerStarted wid (length batch) # map LogProcessingFile batch)))"
  using assms by (simp add: prepareCluster_def each_start_eq split: sum.splits)

end
