(* ===== verification/Sequential.thy ===== *)
theory Sequential
  imports PdfFilter Worker Orchestrator
begin

text \<open>
  The sequential script \<open>src/extract.js\<close>: \<open>processFiles\<close> (lines 67--86)
  with its self-calling \<open>recurse\<close>, and its own \<open>extractText\<close> (lines
  88--102), which prints Tika's error before saving. \<open>recurse\<close> calls
  \<open>extractText(files.pop(), recurse)\<close>: the next file is started only from
  the callback of the previous one, so one Tika call is in flight at a time
  and the model runs them one after the other, taking the files from the
  end of the list. \<open>saveFile\<close> is the text of the multicore script's and is
  \<open>Store.saveFile\<close>. The script's start (\<open>init\<close>, lines 35--51, and
  \<open>readFiles\<close>, lines 53--65) is \<open>seq_init\<close>, with its own defaults.
\<close>

definition seq_extractText :: "wenv \<Rightarrow> tika_options \<Rightarrow> path \<Rightarrow> path \<Rightarrow> out_state \<Rightarrow> out_state" where
  "seq_extractText rt opts outFolder filePath st =
     (let st1 = (case tika rt opts filePath of
                   Inl error \<Rightarrow> (fst st, snd st @ [LogConsoleError error])
                 | Inr result \<Rightarrow> st)
      in saveFile (coerce_undefined rt) (output_path outFolder filePath)
           (tika_result rt opts filePath) st1)"

fun seq_recurse :: "wenv \<Rightarrow> tika_options \<Rightarrow> path \<Rightarrow> nat \<Rightarrow> path list \<Rightarrow> out_state \<Rightarrow> out_state" where
  "seq_recurse rt opts outFolder filesCount files st =
     (if length files > 0 then
        seq_recurse rt opts outFolder filesCount (butlast files)
          (seq_extractText rt opts outFolder (last files)
             (fst st, snd st @ [LogProgress (filesCount - length files + 1) filesCount]))
      else (fst st, snd st @ [LogFinished filesCount]))"

declare seq_recurse.simps [simp del]

definition processFiles :: "wenv \<Rightarrow> tika_options \<Rightarrow> path \<Rightarrow> path list \<Rightarrow> out_state \<Rightarrow> out_state" where
  "processFiles rt opts outFolder files st =
     seq_recurse rt opts outFolder (length files) files (fst st, snd st @ [LogStarted])"

text \<open>The module's defaults (lines 10--20): OCR in English.\<close>

definition seq_default_options :: tika_options where
  "seq_default_options = \<lparr>contentType = ''application/pdf'', ocrLanguage = ''eng'',
     pdfEnableAutoSpace = True, pdfExtractInlineImages = True, language = None\<rparr>"

text \<open>\<open>init\<close>'s overrides (lines 39--42). \<open>_callback\<close> is stored and never called.\<close>

definition seq_init_config :: "string option \<Rightarrow> string option \<Rightarrow> string option \<Rightarrow> config" where
  "seq_init_config inputFolder' outputFolder' language' =
     \<lparr>inputFolder = js_or inputFolder' ''./pdf/'',
      outputFolder = js_or outputFolder' ''./text/'',
      options = seq_default_options\<lparr>language := js_or_opt language' (language seq_default_options)\<rparr>\<rparr>"

text \<open>\<open>readFiles\<close>: \<open>dir.files\<close>'s error is thrown, the list filtered with \<open>/.*.pdf/\<close>.\<close>

definition seq_readFiles :: "js_error + path list \<Rightarrow> js_error + path list" where
  "seq_readFiles listing =
     (case listing of Inl error \<Rightarrow> Inl error | Inr files \<Rightarrow> Inr (sequential_filter files))"

text \<open>
  \<open>init\<close>: create the output folder if missing, list the input folder and
  process the files. \<open>dirFiles\<close> is \<open>dir.files\<close>, from a folder to its
  listing; an uncaught exception ends the script (\<open>Some\<close> error).
\<close>

definition seq_init ::
  "wenv \<Rightarrow> string option \<Rightarrow> string option \<Rightarrow> string option \<Rightarrow> (path \<Rightarrow> js_error + path list) \<Rightarrow>
     out_state \<Rightarrow> js_error option \<times> out_state" where
  "seq_init rt inputFolder' outputFolder' language' dirFiles st =
     (let cfg = seq_init_config inputFolder' outputFolder' language' in
      case ensure_output (fst st) (outputFolder cfg) of
        Inl e \<Rightarrow> (Some e, st)
      | Inr fs \<Rightarrow>
          (case seq_readFiles (dirFiles (inputFolder cfg)) of
             Inl e \<Rightarrow> (Some e, (fs, snd st))
           | Inr files \<Rightarrow> (None, processFiles rt (options cfg) (outputFolder cfg) files (fs, snd st))))"

fun progress_of :: "log_event \<Rightarrow> (nat \<times> nat) list" where
  "progress_of (LogProgress k n) = [(k, n)]"
| "progress_of _ = []"

subsection \<open>The recursion\<close>

lemma seq_recurse_Nil:
  "seq_recurse rt opts out n [] st = (fst st, snd st @ [LogFinished n])"
  by (simp add: seq_recurse.simps)

lemma seq_recurse_snoc:
  "seq_recurse rt opts out n (files @ [f]) st =
     seq_recurse rt opts out n files
       (seq_extractText rt opts out f
          (fst st, snd st @ [LogProgress (n - Suc (length files) + 1) n]))"
  by (subst seq_recurse.simps) simp

lemma seq_extractText_dirs: "fs_dirs (fst (seq_extractText rt opts out f st)) = fs_dirs (fst st)"
  by (simp add: seq_extractText_def Let_def saveFile_dirs split: sum.splits)

lemma seq_extractText_files:
  "fs_files (fst (seq_extractText rt opts out f st)) =
     file_upd rt opts out (fst st) f (fs_files (fst st))"
  by (cases "tika rt opts f") (simp_all add: seq_extractText_def saveFile_files file_upd_def
      split: option.splits)

lemma seq_extractText_log:
  "\<exists>tl. snd (seq_extractText rt opts out f st) =
     snd st @ (case tika rt opts f of Inl e \<Rightarrow> [LogConsoleError e] | Inr _ \<Rightarrow> []) @
       LogSavedFile (node_normalize (output_path out f)) # tl \<and>
     (tl = [] \<or> (\<exists>e. tl = [LogConsoleError e] \<and> e \<notin> range ExtractionError))"
proof -
  let ?st1 = "case tika rt opts f of
                Inl error \<Rightarrow> (fst st, snd st @ [LogConsoleError error]) | Inr result \<Rightarrow> st"
  obtain tl where tl: "snd (saveFile (coerce_undefined rt) (output_path out f) (tika_result rt opts f) ?st1) =
      snd ?st1 @ LogSavedFile (node_normalize (output_path out f)) # tl"
      "tl = [] \<or> (\<exists>e. tl = [LogConsoleError e] \<and> e \<notin> range ExtractionError)"
    using saveFile_log by blast
  from tl show ?thesis
    by (intro exI [of _ tl]) (simp add: seq_extractText_def split: sum.splits)
qed

lemma seq_recurse_files:
  "fs_dirs (fst (seq_recurse rt opts out n files st)) = fs_dirs (fst st) \<and>
   fs_files (fst (seq_recurse rt opts out n files st)) =
     fold (\<lambda>f. file_upd rt opts out (fst st) f) (rev files) (fs_files (fst st))"
proof (induction files arbitrary: st rule: rev_induct)
  case Nil
  then show ?case by (simp add: seq_recurse_Nil)
next
  case (snoc f files)
  let ?st = "seq_extractText rt opts out f (fst st, snd st @ [LogProgress (n - Suc (length files) + 1) n])"
  have d: "fs_dirs (fst ?st) = fs_dirs (fst st)" by (simp add: seq_extractText_dirs)
  then have "file_upd rt opts out (fst ?st) = file_upd rt opts out (fst st)"
    by (rule file_upd_dirs)
  with snoc.IH [of ?st] d show ?case by (simp add: seq_recurse_snoc seq_extractText_files)
qed

lemma seq_extractText_saved:
  "concat (map saved_of (snd (seq_extractText rt opts out f st))) =
     concat (map saved_of (snd st)) @ [node_normalize (output_path out f)] \<and>
   concat (map progress_of (snd (seq_extractText rt opts out f st))) =
     concat (map progress_of (snd st)) \<and>
   (\<exists>tl. snd (seq_extractText rt opts out f st) = snd st @ tl)"
proof -
  obtain tl where tl: "snd (seq_extractText rt opts out f st) =
     snd st @ (case tika rt opts f of Inl e \<Rightarrow> [LogConsoleError e] | Inr _ \<Rightarrow> []) @
       LogSavedFile (node_normalize (output_path out f)) # tl"
      "tl = [] \<or> (\<exists>e. tl = [LogConsoleError e] \<and> e \<notin> range ExtractionError)"
    using seq_extractText_log by blast
  from tl show ?thesis by (auto split: sum.splits)
qed

lemma seq_recurse_prefix:
  "\<exists>tl. snd (seq_recurse rt opts out n files st) = snd st @ tl @ [LogFinished n]"
proof (induction files arbitrary: st rule: rev_induct)
  case Nil
  then show ?case by (simp add: seq_recurse_Nil)
next
  case (snoc f files)
  let ?st = "seq_extractText rt opts out f (fst st, snd st @ [LogProgress (n - Suc (length files) + 1) n])"
  obtain tl where "snd (seq_recurse rt opts out n files ?st) = snd ?st @ tl @ [LogFinished n]"
    using snoc by blast
  moreover obtain tl' where "snd ?st = (snd st @ [LogProgress (n - Suc (length files) + 1) n]) @ tl'"
    using seq_extractText_saved by (metis snd_conv)
  ultimately show ?case by (simp add: seq_recurse_snoc)
qed

lemma upt_down_Cons:
  assumes "Suc L \<le> n"
  shows "[n + 1 - Suc L..<n + 1] = (n - L) # [n + 1 - L..<n + 1]"
proof -
  have e1: "n + 1 - Suc L = n - L" and e2: "Suc (n - L) = n + 1 - L" using assms by simp_all
  have "n - L < n + 1" by simp
  then show ?thesis by (simp only: e1 upt_conv_Cons e2)
qed

lemma seq_recurse_log:
  assumes "length files \<le> n"
  shows "concat (map saved_of (snd (seq_recurse rt opts out n files st))) =
       concat (map saved_of (snd st)) @ map (\<lambda>f. node_normalize (output_path out f)) (rev files) \<and>
     concat (map progress_of (snd (seq_recurse rt opts out n files st))) =
       concat (map progress_of (snd st)) @ map (\<lambda>k. (k, n)) [n + 1 - length files..<n + 1]"
  using assms
proof (induction files arbitrary: st rule: rev_induct)
  case Nil
  then show ?case by (simp add: seq_recurse_Nil)
next
  case (snoc f files)
  let ?st1 = "(fst st, snd st @ [LogProgress (n - length files) n])"
  let ?st = "seq_extractText rt opts out f ?st1"
  have "n - Suc (length files) + 1 = n - length files" using snoc.prems by simp
  then have run: "seq_recurse rt opts out n (files @ [f]) st = seq_recurse rt opts out n files ?st"
    by (simp only: seq_recurse_snoc)
  have IH: "concat (map saved_of (snd (seq_recurse rt opts out n files ?st))) =
       concat (map saved_of (snd ?st)) @ map (\<lambda>f. node_normalize (output_path out f)) (rev files)"
     "concat (map progress_of (snd (seq_recurse rt opts out n files ?st))) =
       concat (map progress_of (snd ?st)) @ map (\<lambda>k. (k, n)) [n + 1 - length files..<n + 1]"
    using snoc by simp_all
  have step: "concat (map saved_of (snd ?st)) =
       concat (map saved_of (snd st)) @ [node_normalize (output_path out f)]"
     "concat (map progress_of (snd ?st)) = concat (map progress_of (snd st)) @ [(n - length files, n)]"
    using seq_extractText_saved [of rt opts out f ?st1] by simp_all
  have rng: "[n + 1 - length (files @ [f])..<n + 1] = (n - length files) # [n + 1 - length files..<n + 1]"
    using snoc.prems upt_down_Cons [of "length files" n] by simp
  show ?case unfolding run IH step rng by simp
qed

lemma seq_recurse_errors:
  assumes "f \<in> set files" "tika rt opts f = Inl e"
  shows "LogConsoleError e \<in> set (snd (seq_recurse rt opts out n files st))"
  using assms(1)
proof (induction files arbitrary: st rule: rev_induct)
  case Nil
  then show ?case by simp
next
  case (snoc g files)
  let ?st1 = "(fst st, snd st @ [LogProgress (n - Suc (length files) + 1) n])"
  let ?st = "seq_extractText rt opts out g ?st1"
  show ?case
  proof (cases "f = g")
    case True
    obtain tl where "snd ?st = snd ?st1 @ [LogConsoleError e] @
        LogSavedFile (node_normalize (output_path out g)) # tl"
      using seq_extractText_log [of rt opts out g ?st1] assms(2) True by auto
    moreover obtain tl' where "snd (seq_recurse rt opts out n files ?st) = snd ?st @ tl' @ [LogFinished n]"
      using seq_recurse_prefix by blast
    ultimately show ?thesis by (simp add: seq_recurse_snoc)
  next
    case False
    with snoc have "LogConsoleError e \<in> set (snd (seq_recurse rt opts out n files ?st))" by simp
    then show ?thesis by (simp add: seq_recurse_snoc)
  qed
qed

subsection \<open>Properties of the sequential script\<close>

text \<open>
  C28. The sequential script extracts the files from the last to the first:
  its \<open>Saved file\<close> lines name the outputs of the list in reverse order, its
  progress lines count \<open>1 of n\<close> up to \<open>n of n\<close>, and the run starts with
  \<open>Started file processing\<close> and ends with \<open>Finished processing n files\<close>.
\<close>

theorem processFiles_reverse_order:
  "concat (map saved_of (snd (processFiles rt opts out files st))) =
     concat (map saved_of (snd st)) @ map (\<lambda>f. node_normalize (output_path out f)) (rev files) \<and>
   concat (map progress_of (snd (processFiles rt opts out files st))) =
     concat (map progress_of (snd st)) @ map (\<lambda>k. (k, length files)) [1..<length files + 1] \<and>
   (\<exists>tl. snd (processFiles rt opts out files st) =
      snd st @ LogStarted # tl @ [LogFinished (length files)])"
proof -
  let ?st = "(fst st, snd st @ [LogStarted])"
  have "concat (map saved_of (snd (seq_recurse rt opts out (length files) files ?st))) =
       concat (map saved_of (snd ?st)) @ map (\<lambda>f. node_normalize (output_path out f)) (rev files) \<and>
     concat (map progress_of (snd (seq_recurse rt opts out (length files) files ?st))) =
       concat (map progress_of (snd ?st)) @
         map (\<lambda>k. (k, length files)) [length files + 1 - length files..<length files + 1]"
    by (rule seq_recurse_log) simp
  moreover obtain tl where "snd (seq_recurse rt opts out (length files) files ?st) =
      snd ?st @ tl @ [LogFinished (length files)]"
    using seq_recurse_prefix by blast
  ultimately show ?thesis by (simp add: processFiles_def)
qed

text \<open>
  C29. Unlike the multicore worker, the sequential script prints every
  error Tika reports for a file of its list.
\<close>

theorem processFiles_logs_errors:
  assumes "f \<in> set files" "tika rt opts f = Inl e"
  shows "LogConsoleError e \<in> set (snd (processFiles rt opts out files st))"
  unfolding processFiles_def using assms by (rule seq_recurse_errors)

theorem processFiles_logs_errors_witness:
  "LogConsoleError (ExtractionError ''b.pdf'') \<in>
     set (snd (processFiles (demo_env False) demo_options ''./text/''
        [''pdf/a.pdf'', ''pdf/b.pdf'', ''pdf/c.pdf''] (demo_fs, [])))"
  by (rule processFiles_logs_errors [of "''pdf/b.pdf''"]) simp_all

text \<open>
  C30. The sequential script leaves the same files as one multicore worker
  whose batch is the whole list and whose Tika callbacks come back in
  reverse batch order: the two scripts differ in the order of the writes,
  and so, where base names collide, in which text survives.
\<close>

theorem processFiles_refines_worker:
  "fs_files (fst (processFiles rt opts out files st)) =
     fs_files (fst (snd (worker_main rt opts out [files] 1 (rev [0..<length files]) st)))"
proof -
  have b: "worker_batch [files] 1 = Inr files" by (simp add: worker_batch_def js_index_def)
  have "rev files = map ((!) files) (rev [0..<length files])" by (simp add: rev_map [symmetric] map_nth)
  then show ?thesis
    unfolding worker_files_fold [OF b] by (simp add: processFiles_def seq_recurse_files fold_map comp_def)
qed

subsection \<open>The start of the script\<close>

text \<open>
  The language argument sets \<open>options.language\<close>; the OCR language Tika
  is given stays English whatever the argument.
\<close>

lemma seq_init_config_options:
  "options (seq_init_config inp out lang) =
     \<lparr>contentType = ''application/pdf'', ocrLanguage = ''eng'', pdfEnableAutoSpace = True,
      pdfExtractInlineImages = True, language = js_or_opt lang None\<rparr>"
  by (simp add: seq_init_config_def seq_default_options_def)

lemma seq_init_processes:
  assumes "ensure_output (fst st) (js_or out ''./text/'') = Inr fs"
    "dirFiles (js_or inp ''./pdf/'') = Inr files"
  shows "seq_init rt inp out lang dirFiles st =
           (None, processFiles rt (options (seq_init_config inp out lang)) (js_or out ''./text/'')
                    (sequential_filter files) (fs, snd st))"
  using assms by (simp add: seq_init_def seq_readFiles_def seq_init_config_def)

lemma seq_init_listing_error:
  assumes "ensure_output (fst st) (js_or out ''./text/'') = Inr fs"
    "dirFiles (js_or inp ''./pdf/'') = Inl e"
  shows "seq_init rt inp out lang dirFiles st = (Some e, (fs, snd st))"
  using assms by (simp add: seq_init_def seq_readFiles_def seq_init_config_def)

end
