(* ===== verification/Cluster.thy ===== *)
theory Cluster
  imports Orchestrator
begin

text \<open>
  The whole multicore run as a transition system over all its processes.
  The master runs \<open>init\<close> and forks \<open>workerCount\<close> workers with the ids
  \<open>1, 2, ...\<close> that \<open>cluster.fork\<close> hands out; each worker runs \<open>init\<close>
  again, and, once running, receives the callbacks of its Tika calls one at
  a time in any order, interleaved with the other workers' callbacks; a
  worker whose callbacks have all come runs \<open>handleComplete\<close>
  (extract-multicore.js lines 82 and 112--132). A fork may fail, which the
  master logs through \<open>handleError\<close>. The environment fixes the number of
  CPUs, the arguments, the directory listing (the same for every process)
  and the Tika oracle. The field \<open>cb_done\<close> records the files whose callback
  has run, in completion order: it is not program state, but history used
  to state what the run has done.
\<close>

record cenv =
  cpus :: nat
  argv :: "string option \<times> string option \<times> string option"
  listing :: "js_error + path list"
  runtime :: wenv

definition env_config :: "cenv \<Rightarrow> config" where
  "env_config e = (case argv e of (a, b, c) \<Rightarrow> init_config a b c)"

datatype mphase = MStart | MForked nat | MCrashed js_error

datatype wphase =
    WForked                          \<comment> \<open>forked, not yet running the script\<close>
  | WRunning "path list" "nat list"  \<comment> \<open>the batch and the indices whose callback is outstanding\<close>
  | WExited proc_exit
  | WSpawnFailed

record cstate =
  cfs :: fsys
  clog :: "log_event list"
  master :: mphase
  workers :: "nat \<Rightarrow> wphase option"
  cb_done :: "path list"

definition cinit :: "fsys \<Rightarrow> cstate" where
  "cinit fs0 = \<lparr>cfs = fs0, clog = [], master = MStart, workers = (\<lambda>_. None), cb_done = []\<rparr>"

inductive cstep :: "cenv \<Rightarrow> cstate \<Rightarrow> cstate \<Rightarrow> bool" for e where
  master_fork:
    "\<lbrakk>master s = MStart; init Master (cpus e) (env_config e) (listing e) (cfs s, clog s) = Some (MasterForked k, st')\<rbrakk>
     \<Longrightarrow> cstep e s (s\<lparr>cfs := fst st', clog := snd st', master := MForked k,
                     workers := (\<lambda>i. if 0 < i \<and> i \<le> k then Some WForked else None)\<rparr>)"
| master_crash:
    "\<lbrakk>master s = MStart; init Master (cpus e) (env_config e) (listing e) (cfs s, clog s) = Some (Crashed err, st')\<rbrakk>
     \<Longrightarrow> cstep e s (s\<lparr>cfs := fst st', clog := snd st', master := MCrashed err\<rparr>)"
| spawn_error:
    "workers s i = Some WForked
     \<Longrightarrow> cstep e s (s\<lparr>clog := clog s @ [LogWorkerError err], workers := (workers s)(i \<mapsto> WSpawnFailed)\<rparr>)"
| worker_start:
    "\<lbrakk>workers s i = Some WForked;
      init (WorkerOf i) (cpus e) (env_config e) (listing e) (cfs s, clog s) = Some (WorkerRunning batch, st')\<rbrakk>
     \<Longrightarrow> cstep e s (s\<lparr>cfs := fst st', clog := snd st',
                     workers := (workers s)(i \<mapsto> WRunning batch [0..<length batch])\<rparr>)"
| worker_crash:
    "\<lbrakk>workers s i = Some WForked;
      init (WorkerOf i) (cpus e) (env_config e) (listing e) (cfs s, clog s) = Some (Crashed err, st')\<rbrakk>
     \<Longrightarrow> cstep e s (s\<lparr>cfs := fst st', clog := snd st', workers := (workers s)(i \<mapsto> WExited (Uncaught err))\<rparr>)"
| worker_callback:
    "\<lbrakk>workers s i = Some (WRunning batch pend); j \<in> set pend;
      st' = extractText_callback (runtime e) (options (env_config e)) (outputFolder (env_config e))
              (batch ! j) (cfs s, clog s)\<rbrakk>
     \<Longrightarrow> cstep e s (s\<lparr>cfs := fst st', clog := snd st',
                     workers := (workers s)(i \<mapsto> WRunning batch (remove1 j pend)),
                     cb_done := cb_done s @ [batch ! j]\<rparr>)"
| worker_complete:
    "\<lbrakk>workers s i = Some (WRunning batch []); handleComplete i None (cfs s, clog s) = (code, st')\<rbrakk>
     \<Longrightarrow> cstep e s (s\<lparr>cfs := fst st', clog := snd st', workers := (workers s)(i \<mapsto> WExited code)\<rparr>)"

definition reachable :: "cenv \<Rightarrow> fsys \<Rightarrow> cstate \<Rightarrow> bool" where
  "reachable e fs0 s \<longleftrightarrow> (cstep e)\<^sup>*\<^sup>* (cinit fs0) s"

fun settled :: "wphase \<Rightarrow> bool" where
  "settled (WExited _) = True"
| "settled WSpawnFailed = True"
| "settled _ = False"

text \<open>A run is over when the master has forked or crashed and every worker has exited or failed to spawn.\<close>

definition final :: "cstate \<Rightarrow> bool" where
  "final s \<longleftrightarrow>
     (case master s of
        MStart \<Rightarrow> False
      | MCrashed _ \<Rightarrow> True
      | MForked k \<Rightarrow> list_all (\<lambda>i. case workers s i of Some ph \<Rightarrow> settled ph | None \<Rightarrow> True) [1..<k + 1])"

subsection \<open>What the environment determines\<close>

text \<open>
  Every process lists the same folder with the same arguments, so the
  filtered file list and the batch table are the same in all of them.
\<close>

definition env_files :: "cenv \<Rightarrow> path list" where
  "env_files e = (case listing e of Inl _ \<Rightarrow> [] | Inr l \<Rightarrow> multicore_filter l)"

definition env_batches :: "cenv \<Rightarrow> path list list" where
  "env_batches e = chunks (workerCount (cpus e) (env_files e)) (env_files e)"

text \<open>The file system once the master has made sure the output folder exists.\<close>

definition master_fs :: "cenv \<Rightarrow> fsys \<Rightarrow> fsys" where
  "master_fs e fs0 = (case ensure_output fs0 (outputFolder (env_config e)) of Inl _ \<Rightarrow> fs0 | Inr fs \<Rightarrow> fs)"

text \<open>
  The abstract contents of the files: the Tika callbacks that have run,
  applied in completion order to the files the run started with.
\<close>

definition files_after :: "cenv \<Rightarrow> fsys \<Rightarrow> path list \<Rightarrow> fkey \<Rightarrow> string option" where
  "files_after e fs0 done =
     fold (file_upd (runtime e) (options (env_config e)) (outputFolder (env_config e)) (master_fs e fs0))
       done (fs_files fs0)"

subsection \<open>The invariant of the run\<close>

fun phase_ok :: "cenv \<Rightarrow> path list \<Rightarrow> nat \<Rightarrow> wphase \<Rightarrow> bool" where
  "phase_ok e done i WForked = True"
| "phase_ok e done i WSpawnFailed = True"
| "phase_ok e done i (WRunning batch pend) =
     (0 < i \<and> i \<le> length (env_batches e) \<and> batch = env_batches e ! (i - 1) \<and> distinct pend \<and>
      (\<forall>j \<in> set pend. j < length batch) \<and> (\<forall>j < length batch. j \<notin> set pend \<longrightarrow> batch ! j \<in> set done))"
| "phase_ok e done i (WExited (ExitCode c)) =
     (c = 0 \<and> 0 < i \<and> i \<le> length (env_batches e) \<and> set (env_batches e ! (i - 1)) \<subseteq> set done)"
| "phase_ok e done i (WExited (Uncaught err)) = (length (env_batches e) < i)"

definition cinv :: "cenv \<Rightarrow> fsys \<Rightarrow> cstate \<Rightarrow> bool" where
  "cinv e fs0 s \<longleftrightarrow>
     (case master s of
        MStart \<Rightarrow> s = cinit fs0
      | MCrashed err \<Rightarrow> workers s = (\<lambda>_. None) \<and> cb_done s = [] \<and>
          (\<exists>st'. init Master (cpus e) (env_config e) (listing e) (fs0, []) = Some (Crashed err, st'))
      | MForked k \<Rightarrow>
          (\<exists>l. listing e = Inr l) \<and> (0 < cpus e \<or> env_files e = []) \<and>
          k = workerCount (cpus e) (env_files e) \<and>
          ensure_output fs0 (outputFolder (env_config e)) = Inr (master_fs e fs0) \<and>
          existsSync (cfs s) (outputFolder (env_config e)) \<and>
          fs_dirs (cfs s) = fs_dirs (master_fs e fs0) \<and>
          fs_files (cfs s) = files_after e fs0 (cb_done s) \<and>
          set (cb_done s) \<subseteq> set (concat (take k (env_batches e))) \<and>
          (\<forall>i. workers s i \<noteq> None \<longleftrightarrow> 0 < i \<and> i \<le> k) \<and>
          (\<forall>i ph. workers s i = Some ph \<longrightarrow> phase_ok e (cb_done s) i ph))"

text \<open>
  The work left in a state, which every step of a worker or the master
  decreases: a worker not yet running counts more than the longest batch.
\<close>

fun wgt :: "nat \<Rightarrow> wphase option \<Rightarrow> nat" where
  "wgt K (Some WForked) = K + 2"
| "wgt K (Some (WRunning batch pend)) = Suc (length pend)"
| "wgt K _ = 0"

definition pending_work :: "cenv \<Rightarrow> cstate \<Rightarrow> nat" where
  "pending_work e s =
     (let K = workerCount (cpus e) (env_files e) in
      case master s of
        MStart \<Rightarrow> Suc (K * (K + 2))
      | MCrashed _ \<Rightarrow> 0
      | MForked k \<Rightarrow> (\<Sum>i \<in> {1..k}. wgt K (workers s i)))"

subsection \<open>The run as an executable step function\<close>

text \<open>
  The events of a run, one per transition of \<open>cstep\<close>, and the function
  that performs an event when it is enabled. A run is a list of events.
\<close>

datatype cevent =
    MasterStart
  | SpawnError nat js_error
  | WorkerStart nat
  | TikaCallback nat nat
  | WorkerComplete nat

fun cexec :: "cenv \<Rightarrow> cstate \<Rightarrow> cevent \<Rightarrow> cstate option" where
  "cexec e s MasterStart =
     (if master s \<noteq> MStart then None
      else case init Master (cpus e) (env_config e) (listing e) (cfs s, clog s) of
             Some (MasterForked k, st') \<Rightarrow>
               Some (s\<lparr>cfs := fst st', clog := snd st', master := MForked k,
                       workers := (\<lambda>i. if 0 < i \<and> i \<le> k then Some WForked else None)\<rparr>)
           | Some (Crashed err, st') \<Rightarrow> Some (s\<lparr>cfs := fst st', clog := snd st', master := MCrashed err\<rparr>)
           | _ \<Rightarrow> None)"
| "cexec e s (SpawnError i err) =
     (if workers s i \<noteq> Some WForked then None
      else Some (s\<lparr>clog := clog s @ [LogWorkerError err], workers := (workers s)(i \<mapsto> WSpawnFailed)\<rparr>))"
| "cexec e s (WorkerStart i) =
     (if workers s i \<noteq> Some WForked then None
      else case init (WorkerOf i) (cpus e) (env_config e) (listing e) (cfs s, clog s) of
             Some (WorkerRunning batch, st') \<Rightarrow>
               Some (s\<lparr>cfs := fst st', clog := snd st',
                       workers := (workers s)(i \<mapsto> WRunning batch [0..<length batch])\<rparr>)
           | Some (Crashed err, st') \<Rightarrow>
               Some (s\<lparr>cfs := fst st', clog := snd st', workers := (workers s)(i \<mapsto> WExited (Uncaught err))\<rparr>)
           | _ \<Rightarrow> None)"
| "cexec e s (TikaCallback i j) =
     (case workers s i of
        Some (WRunning batch pend) \<Rightarrow>
          if j \<notin> set pend then None
          else (let st' = extractText_callback (runtime e) (options (env_config e))
                            (outputFolder (env_config e)) (batch ! j) (cfs s, clog s)
                in Some (s\<lparr>cfs := fst st', clog := snd st',
                           workers := (workers s)(i \<mapsto> WRunning batch (remove1 j pend)),
                           cb_done := cb_done s @ [batch ! j]\<rparr>))
      | _ \<Rightarrow> None)"
| "cexec e s (WorkerComplete i) =
     (case workers s i of
        Some (WRunning batch []) \<Rightarrow>
          (case handleComplete i None (cfs s, clog s) of
             (code, st') \<Rightarrow> Some (s\<lparr>cfs := fst st', clog := snd st', workers := (workers s)(i \<mapsto> WExited code)\<rparr>))
      | _ \<Rightarrow> None)"

fun cexec_list :: "cenv \<Rightarrow> cstate \<Rightarrow> cevent list \<Rightarrow> cstate option" where
  "cexec_list e s [] = Some s"
| "cexec_list e s (ev # evs) = (case cexec e s ev of None \<Rightarrow> None | Some s' \<Rightarrow> cexec_list e s' evs)"

text \<open>
  The scenarios of the specification: three PDF files in \<open>./pdf/\<close>, the
  default arguments, and a working directory with an empty \<open>text\<close> folder.
  One Tika stub returns \<open>TEXT:\<close> and the file's name; the stub of
  \<open>Worker\<close> fails on \<open>pdf/b.pdf\<close>. With two CPUs the run starts the
  master and both workers, then the callbacks of \<open>b\<close>, \<open>c\<close>, \<open>a\<close> and both
  completions; with three CPUs the batch size is three and workers 2 and 3
  find no batch.
\<close>

definition ok_env :: wenv where
  "ok_env = \<lparr>tika = (\<lambda>opts p. Inr (''TEXT:'' @ file_name_of p)), coerce_undefined = False\<rparr>"

definition demo_cenv :: "nat \<Rightarrow> wenv \<Rightarrow> cenv" where
  "demo_cenv n rt = \<lparr>cpus = n, argv = (None, None, None),
     listing = Inr [''pdf/a.pdf'', ''pdf/b.pdf'', ''pdf/c.pdf''], runtime = rt\<rparr>"

definition spec_events :: "cevent list" where
  "spec_events = [MasterStart, WorkerStart 1, WorkerStart 2, TikaCallback 1 1, TikaCallback 2 0,
     TikaCallback 1 0, WorkerComplete 1, WorkerComplete 2]"

definition crash_events :: "cevent list" where
  "crash_events = [MasterStart, WorkerStart 1, WorkerStart 2, WorkerStart 3, TikaCallback 1 0,
     TikaCallback 1 1, TikaCallback 1 2, WorkerComplete 1]"

definition demo_final :: "nat \<Rightarrow> wenv \<Rightarrow> cevent list \<Rightarrow> cstate" where
  "demo_final n rt evs = the (cexec_list (demo_cenv n rt) (cinit demo_fs) evs)"

inductive_cases cstep_cases: "cstep e s s'"

subsection \<open>The start of the master and of a worker\<close>

lemma init_Master_forked:
  assumes "init Master ncpus cfg lst st = Some (MasterForked k, st')"
  shows "\<exists>l fs. lst = Inr l \<and> ensure_output (fst st) (outputFolder cfg) = Inr fs \<and>
           (0 < ncpus \<or> multicore_filter l = []) \<and> k = workerCount ncpus (multicore_filter l) \<and>
           st' = (fs, snd st @ [LogStartingWorkers k])"
  using assms
  by (auto simp: init_def readFiles_def prepareCluster_def fileListBatches_def workerCount_def
      dest!: chunkArray_SomeD split: sum.splits option.splits)

lemma init_Master_cases:
  "init Master ncpus cfg lst st = Some (r, st') \<Longrightarrow> (\<exists>k. r = MasterForked k) \<or> (\<exists>err. r = Crashed err)"
  by (auto simp: init_def readFiles_def prepareCluster_def split: sum.splits option.splits)

lemma init_Master_Some:
  assumes "0 < ncpus"
  shows "\<exists>r st'. init Master ncpus cfg lst st = Some (r, st')"
  using assms
  by (auto simp: init_def readFiles_def prepareCluster_def fileListBatches_chunks split: sum.splits)

lemma init_worker:
  assumes "existsSync fs (outputFolder cfg)" "lst = Inr l"
    "0 < ncpus \<or> multicore_filter l = []"
  shows "init (WorkerOf i) ncpus cfg lst (fs, lg) =
           Some (case worker_batch (chunks (workerCount ncpus (multicore_filter l)) (multicore_filter l)) i of
                   Inl e \<Rightarrow> (Crashed e, (fs, lg))
                 | Inr batch \<Rightarrow> (WorkerRunning batch,
                     (fs, lg @ LogWorkerStarted i (length batch) # map LogProcessingFile batch)))"
  using assms by (simp add: init_def ensure_output_again readFiles_def prepareCluster_worker
      fileListBatches_chunks split: sum.split)

lemma worker_batch_Inr:
  "worker_batch bs i = Inr batch \<Longrightarrow> 0 < i \<and> i \<le> length bs \<and> batch = bs ! (i - 1)"
  by (auto simp: worker_batch_def js_index_def split: if_splits option.splits)

lemma worker_batch_Inl:
  "worker_batch bs i = Inl err \<Longrightarrow> 0 < i \<Longrightarrow> length bs < i"
  by (auto simp: worker_batch_def js_index_def split: if_splits option.splits)


subsection \<open>Preservation of the invariant\<close>

lemma phase_ok_mono: "set d \<subseteq> set d' \<Longrightarrow> phase_ok e d i ph \<Longrightarrow> phase_ok e d' i ph"
  by (induction e d i ph rule: phase_ok.induct) auto

lemma cinv_workers_Some:
  "cinv e fs0 s \<Longrightarrow> workers s i = Some ph \<Longrightarrow> \<exists>k. master s = MForked k"
  by (cases "master s") (auto simp: cinv_def cinit_def)

lemma cinv_forked:
  assumes "cinv e fs0 s" "master s = MForked k"
  shows "(\<exists>l. listing e = Inr l) \<and> (0 < cpus e \<or> env_files e = []) \<and>
          k = workerCount (cpus e) (env_files e) \<and>
          ensure_output fs0 (outputFolder (env_config e)) = Inr (master_fs e fs0) \<and>
          existsSync (cfs s) (outputFolder (env_config e)) \<and>
          fs_dirs (cfs s) = fs_dirs (master_fs e fs0) \<and>
          fs_files (cfs s) = files_after e fs0 (cb_done s) \<and>
          set (cb_done s) \<subseteq> set (concat (take k (env_batches e))) \<and>
          (\<forall>i. workers s i \<noteq> None \<longleftrightarrow> 0 < i \<and> i \<le> k) \<and>
          (\<forall>i ph. workers s i = Some ph \<longrightarrow> phase_ok e (cb_done s) i ph)"
  using assms(1) unfolding cinv_def assms(2) mphase.case .

lemma file_upd_keeps: "m k \<noteq> None \<Longrightarrow> file_upd rt opts out fs f m k \<noteq> None"
  by (simp add: file_upd_def split: option.splits)

lemma existsSync_callback:
  "existsSync (fst st) p \<Longrightarrow> existsSync (fst (extractText_callback rt opts out f st)) p"
  by (auto simp: existsSync_def extractText_callback_dirs extractText_callback_files file_upd_keeps)

lemma files_after_snoc:
  "files_after e fs0 (d @ [f]) =
     file_upd (runtime e) (options (env_config e)) (outputFolder (env_config e)) (master_fs e fs0) f
       (files_after e fs0 d)"
  by (simp add: files_after_def)

lemma cinv_master_fork:
  assumes "cinv e fs0 s" "master s = MStart"
    "init Master (cpus e) (env_config e) (listing e) (cfs s, clog s) = Some (MasterForked k, st')"
  shows "cinv e fs0 (s\<lparr>cfs := fst st', clog := snd st', master := MForked k,
                     workers := (\<lambda>i. if 0 < i \<and> i \<le> k then Some WForked else None)\<rparr>)"
proof -
  have s: "s = cinit fs0" using assms(1,2) by (simp add: cinv_def)
  obtain l fs where l: "listing e = Inr l" and fs: "ensure_output fs0 (outputFolder (env_config e)) = Inr fs"
    and c: "0 < cpus e \<or> multicore_filter l = []" and k: "k = workerCount (cpus e) (multicore_filter l)"
    and st': "st' = (fs, [LogStartingWorkers k])"
    using init_Master_forked [OF assms(3)] s by (auto simp: cinit_def)
  have "fs_files fs = fs_files fs0" using ensure_output_dirs [OF fs] by simp
  moreover have "existsSync fs (outputFolder (env_config e))" by (rule ensure_output_exists [OF fs])
  ultimately show ?thesis
    using s l fs c k st' by (auto simp: cinv_def env_files_def master_fs_def files_after_def cinit_def)
qed

lemma cinv_master_crash:
  assumes "cinv e fs0 s" "master s = MStart"
    "init Master (cpus e) (env_config e) (listing e) (cfs s, clog s) = Some (Crashed err, st')"
  shows "cinv e fs0 (s\<lparr>cfs := fst st', clog := snd st', master := MCrashed err\<rparr>)"
  using assms by (auto simp: cinv_def cinit_def)

lemma cinv_spawn_error:
  assumes "cinv e fs0 s" "workers s i = Some WForked"
  shows "cinv e fs0 (s\<lparr>clog := clog s @ [LogWorkerError err], workers := (workers s)(i \<mapsto> WSpawnFailed)\<rparr>)"
proof -
  obtain k where k: "master s = MForked k" using cinv_workers_Some [OF assms] by blast
  with assms show ?thesis by (auto simp: cinv_def)
qed

lemma cinv_upd:
  assumes "cinv e fs0 s" "master s = MForked k" "workers s i \<noteq> None"
    "existsSync fs' (outputFolder (env_config e))" "fs_dirs fs' = fs_dirs (master_fs e fs0)"
    "fs_files fs' = files_after e fs0 d'" "set (cb_done s) \<subseteq> set d'"
    "set d' \<subseteq> set (concat (take k (env_batches e)))" "phase_ok e d' i ph"
  shows "cinv e fs0 (s\<lparr>cfs := fs', clog := log', workers := (workers s)(i \<mapsto> ph), cb_done := d'\<rparr>)"
  using cinv_forked [OF assms(1,2)] assms(2-) by (auto simp: cinv_def intro: phase_ok_mono)

lemma init_forked_worker:
  assumes "cinv e fs0 s" "master s = MForked k"
  shows "init (WorkerOf i) (cpus e) (env_config e) (listing e) (cfs s, clog s) =
      Some (case worker_batch (env_batches e) i of
              Inl err \<Rightarrow> (Crashed err, (cfs s, clog s))
            | Inr batch \<Rightarrow> (WorkerRunning batch,
                (cfs s, clog s @ LogWorkerStarted i (length batch) # map LogProcessingFile batch)))"
proof -
  note F = cinv_forked [OF assms]
  then obtain l where l: "listing e = Inr l" by blast
  then show ?thesis
    using F init_worker [of "cfs s" "env_config e" "listing e" l "cpus e" i "clog s"]
    by (simp add: env_batches_def env_files_def)
qed

lemma cinv_worker_start:
  assumes "cinv e fs0 s" "workers s i = Some WForked"
    "init (WorkerOf i) (cpus e) (env_config e) (listing e) (cfs s, clog s) = Some (WorkerRunning batch, st')"
  shows "cinv e fs0 (s\<lparr>cfs := fst st', clog := snd st',
                     workers := (workers s)(i \<mapsto> WRunning batch [0..<length batch])\<rparr>)"
proof -
  obtain k where k: "master s = MForked k" using cinv_workers_Some assms(1,2) by blast
  note F = cinv_forked [OF assms(1) k]
  from init_forked_worker [OF assms(1) k, of i] assms(3) have b: "worker_batch (env_batches e) i = Inr batch" and st': "fst st' = cfs s"
    by (auto split: sum.splits)
  have "phase_ok e (cb_done s) i (WRunning batch [0..<length batch])"
    using worker_batch_Inr [OF b] by simp
  then have "cinv e fs0 (s\<lparr>cfs := fst st', clog := snd st',
      workers := (workers s)(i \<mapsto> WRunning batch [0..<length batch]), cb_done := cb_done s\<rparr>)"
    using F st' assms(2) by (intro cinv_upd [OF assms(1) k]) auto
  then show ?thesis by simp
qed

lemma cinv_worker_crash:
  assumes "cinv e fs0 s" "workers s i = Some WForked"
    "init (WorkerOf i) (cpus e) (env_config e) (listing e) (cfs s, clog s) = Some (Crashed err, st')"
  shows "cinv e fs0 (s\<lparr>cfs := fst st', clog := snd st', workers := (workers s)(i \<mapsto> WExited (Uncaught err))\<rparr>)"
proof -
  obtain k where k: "master s = MForked k" using cinv_workers_Some assms(1,2) by blast
  note F = cinv_forked [OF assms(1) k]
  from init_forked_worker [OF assms(1) k, of i] assms(3) have b: "worker_batch (env_batches e) i = Inl err" and st': "fst st' = cfs s"
    by (auto split: sum.splits)
  have "0 < i" using F assms(2) by auto
  then have "phase_ok e (cb_done s) i (WExited (Uncaught err))"
    using worker_batch_Inl [OF b] by simp
  then have "cinv e fs0 (s\<lparr>cfs := fst st', clog := snd st',
      workers := (workers s)(i \<mapsto> WExited (Uncaught err)), cb_done := cb_done s\<rparr>)"
    using F st' assms(2) by (intro cinv_upd [OF assms(1) k]) auto
  then show ?thesis by simp
qed

lemma set_nth_take_concat:
  assumes "i < k" "i < length bs"
  shows "set (bs ! i) \<subseteq> set (concat (take k bs))"
proof -
  have "bs ! i \<in> set (take k bs)" using assms by (metis length_take min_less_iff_conj nth_mem nth_take)
  then show ?thesis by auto
qed

lemma cinv_worker_callback:
  assumes "cinv e fs0 s" "workers s i = Some (WRunning batch pend)" "j \<in> set pend"
    "st' = extractText_callback (runtime e) (options (env_config e)) (outputFolder (env_config e))
              (batch ! j) (cfs s, clog s)"
  shows "cinv e fs0 (s\<lparr>cfs := fst st', clog := snd st',
                     workers := (workers s)(i \<mapsto> WRunning batch (remove1 j pend)),
                     cb_done := cb_done s @ [batch ! j]\<rparr>)"
proof -
  obtain k where k: "master s = MForked k" using cinv_workers_Some assms(1,2) by blast
  note F = cinv_forked [OF assms(1) k]
  have "phase_ok e (cb_done s) i (WRunning batch pend)" using F assms(2) by blast
  then have ph: "0 < i" "i \<le> length (env_batches e)" "batch = env_batches e ! (i - 1)" "distinct pend"
    "\<forall>j \<in> set pend. j < length batch" "\<forall>j < length batch. j \<notin> set pend \<longrightarrow> batch ! j \<in> set (cb_done s)"
    unfolding phase_ok.simps by blast+
  have "i \<le> k" using F assms(2) by auto
  then have sub: "set batch \<subseteq> set (concat (take k (env_batches e)))"
    using ph(1-3) set_nth_take_concat [of "i - 1" k "env_batches e"] by simp
  have jb: "j < length batch" using ph(5) assms(3) by blast
  have files: "fs_files (fst st') = files_after e fs0 (cb_done s @ [batch ! j])"
    using F assms(4) file_upd_dirs [of "cfs s" "master_fs e fs0"]
    by (simp add: extractText_callback_files files_after_snoc)
  have "phase_ok e (cb_done s @ [batch ! j]) i (WRunning batch (remove1 j pend))"
    using ph jb by (auto simp: set_remove1_eq dest: in_set_remove1 [THEN iffD1, rotated] split: if_splits)
  show ?thesis
  proof (rule cinv_upd [OF assms(1) k])
    show "workers s i \<noteq> None" using assms(2) by simp
    show "existsSync (fst st') (outputFolder (env_config e))"
      using F assms(4) by (simp add: existsSync_callback)
    show "fs_dirs (fst st') = fs_dirs (master_fs e fs0)"
      using F assms(4) by (simp add: extractText_callback_dirs)
    show "set (cb_done s @ [batch ! j]) \<subseteq> set (concat (take k (env_batches e)))"
      using F sub nth_mem [OF jb] by auto
  qed (use files \<open>phase_ok e (cb_done s @ [batch ! j]) i (WRunning batch (remove1 j pend))\<close> in auto)
qed

lemma cinv_worker_complete:
  assumes "cinv e fs0 s" "workers s i = Some (WRunning batch [])"
    "handleComplete i None (cfs s, clog s) = (code, st')"
  shows "cinv e fs0 (s\<lparr>cfs := fst st', clog := snd st', workers := (workers s)(i \<mapsto> WExited code)\<rparr>)"
proof -
  obtain k where k: "master s = MForked k" using cinv_workers_Some assms(1,2) by blast
  note F = cinv_forked [OF assms(1) k]
  have code: "code = ExitCode 0" "fst st' = cfs s" using assms(3) by (auto simp: handleComplete_def)
  have "phase_ok e (cb_done s) i (WRunning batch [])" using F assms(2) by blast
  then have "phase_ok e (cb_done s) i (WExited (ExitCode 0))" by (auto simp: in_set_conv_nth)
  then have "cinv e fs0 (s\<lparr>cfs := fst st', clog := snd st',
      workers := (workers s)(i \<mapsto> WExited code), cb_done := cb_done s\<rparr>)"
    using F code assms(2) by (intro cinv_upd [OF assms(1) k]) auto
  then show ?thesis by simp
qed

lemma cinv_step: "cstep e s s' \<Longrightarrow> cinv e fs0 s \<Longrightarrow> cinv e fs0 s'"
proof (induction rule: cstep.induct)
  case (master_fork s k st')
  from master_fork.prems master_fork.hyps show ?case by (rule cinv_master_fork)
next
  case (master_crash s err st')
  from master_crash.prems master_crash.hyps show ?case by (rule cinv_master_crash)
next
  case (spawn_error s i err)
  from spawn_error.prems spawn_error.hyps show ?case by (rule cinv_spawn_error)
next
  case (worker_start s i batch st')
  from worker_start.prems worker_start.hyps show ?case by (rule cinv_worker_start)
next
  case (worker_crash s i err st')
  from worker_crash.prems worker_crash.hyps show ?case by (rule cinv_worker_crash)
next
  case (worker_callback s i batch pend j st')
  from worker_callback.prems worker_callback.hyps show ?case by (rule cinv_worker_callback)
next
  case (worker_complete s i batch code st')
  from worker_complete.prems worker_complete.hyps show ?case by (rule cinv_worker_complete)
qed

lemma reachable_cinv:
  assumes "reachable e fs0 s"
  shows "cinv e fs0 s"
  using assms unfolding reachable_def
proof (induction rule: rtranclp_induct)
  case base
  then show ?case by (simp add: cinv_def cinit_def)
next
  case (step y z)
  from step.hyps(2) step.IH show ?case by (rule cinv_step)
qed

subsection \<open>Progress\<close>

lemma final_MForked_iff:
  "master s = MForked k \<Longrightarrow>
     final s \<longleftrightarrow> (\<forall>i \<in> {1..k}. \<forall>ph. workers s i = Some ph \<longrightarrow> settled ph)"
proof -
  have "set [1..<k + 1] = {1..k}" by auto
  then show "master s = MForked k \<Longrightarrow> ?thesis"
    by (simp add: final_def list_all_iff split: option.splits)
qed

lemma pending_upd:
  assumes "master s = MForked k" "master s' = MForked k" "workers s' = (workers s)(i \<mapsto> ph')"
    "i \<in> {1..k}" "wgt K (Some ph') < wgt K (workers s i)" "K = workerCount (cpus e) (env_files e)"
  shows "pending_work e s' < pending_work e s"
proof -
  have "(\<Sum>i \<in> {1..k}. wgt K (workers s' i)) < (\<Sum>i \<in> {1..k}. wgt K (workers s i))"
    by (rule sum_strict_mono_ex1) (use assms(3-5) in auto)
  with assms(1,2,6) show ?thesis by (simp add: pending_work_def Let_def)
qed

lemma length_env_batch:
  assumes "0 < i" "i \<le> length (env_batches e)"
  shows "length (env_batches e ! (i - 1)) \<le> workerCount (cpus e) (env_files e)"
proof -
  have "0 < workerCount (cpus e) (env_files e)"
    using assms by (cases "workerCount (cpus e) (env_files e)") (auto simp: env_batches_def chunks.simps)
  then show ?thesis
    using assms length_nth_chunks [of _ "i - 1" "env_files e"] by (simp add: env_batches_def)
qed

lemma progress_master:
  assumes "cinv e fs0 s" "0 < cpus e" "master s = MStart"
  shows "\<exists>s'. cstep e s s' \<and> pending_work e s' < pending_work e s"
proof -
  have s: "s = cinit fs0" using assms(1,3) by (simp add: cinv_def)
  obtain r st' where r: "init Master (cpus e) (env_config e) (listing e) (cfs s, clog s) = Some (r, st')"
    using init_Master_Some [OF assms(2)] by blast
  show ?thesis
  proof (cases r)
    case (MasterForked k)
    let ?s' = "s\<lparr>cfs := fst st', clog := snd st', master := MForked k,
                 workers := (\<lambda>i. if 0 < i \<and> i \<le> k then Some WForked else None)\<rparr>"
    have step: "cstep e s ?s'" using assms(3) r MasterForked by (intro master_fork) simp_all
    have "k = workerCount (cpus e) (env_files e)"
      using init_Master_forked [OF r [unfolded MasterForked]] by (auto simp: env_files_def)
    then have "pending_work e ?s' = k * (k + 2)" by (simp add: pending_work_def)
    then show ?thesis
      using step assms(3) \<open>k = _\<close> by (intro exI [of _ ?s']) (simp add: pending_work_def Let_def)
  next
    case (Crashed err)
    have "cstep e s (s\<lparr>cfs := fst st', clog := snd st', master := MCrashed err\<rparr>)"
      using assms(3) r Crashed by (intro master_crash) simp_all
    then show ?thesis using assms(3) by (intro exI [of _ "s\<lparr>cfs := fst st', clog := snd st', master := MCrashed err\<rparr>"])
      (simp add: pending_work_def Let_def)
  next
    case (WorkerRunning b)
    then show ?thesis using init_Master_cases [OF r] by simp
  qed
qed

lemma progress_worker:
  assumes "cinv e fs0 s" "master s = MForked k" "i \<in> {1..k}" "workers s i = Some ph" "\<not> settled ph"
  shows "\<exists>s'. cstep e s s' \<and> pending_work e s' < pending_work e s"
proof -
  note F = cinv_forked [OF assms(1,2)]
  let ?K = "workerCount (cpus e) (env_files e)"
  have kK: "k = ?K" using F by simp
  show ?thesis
  proof (cases ph)
    case WForked
    note init = init_forked_worker [OF assms(1,2), of i]
    show ?thesis
    proof (cases "worker_batch (env_batches e) i")
      case (Inl err)
      let ?s' = "s\<lparr>cfs := cfs s, clog := clog s, workers := (workers s)(i \<mapsto> WExited (Uncaught err))\<rparr>"
      have "cstep e s ?s'"
        using init Inl assms(4) WForked worker_crash [of s i e err "(cfs s, clog s)"] by simp
      moreover have "pending_work e ?s' < pending_work e s"
        by (rule pending_upd [OF assms(2) _ _ assms(3), where K = ?K]) (simp add: assms(2,4) WForked)+
      ultimately show ?thesis by blast
    next
      case (Inr batch)
      let ?st' = "(cfs s, clog s @ LogWorkerStarted i (length batch) # map LogProcessingFile batch)"
      let ?s' = "s\<lparr>cfs := fst ?st', clog := snd ?st',
                   workers := (workers s)(i \<mapsto> WRunning batch [0..<length batch])\<rparr>"
      have "cstep e s ?s'"
        using init Inr assms(4) WForked worker_start [of s i e batch ?st'] by simp
      moreover have "length batch \<le> ?K"
        using worker_batch_Inr [OF Inr] length_env_batch [of i e] by simp
      then have "pending_work e ?s' < pending_work e s"
        by (intro pending_upd [OF assms(2) _ _ assms(3), where K = ?K]) (simp add: assms(2,4) WForked)+
      ultimately show ?thesis by blast
    qed
  next
    case (WRunning batch pend)
    show ?thesis
    proof (cases pend)
      case Nil
      obtain code st' where hc: "handleComplete i None (cfs s, clog s) = (code, st')"
        by (cases "handleComplete i None (cfs s, clog s)") blast
      let ?s' = "s\<lparr>cfs := fst st', clog := snd st', workers := (workers s)(i \<mapsto> WExited code)\<rparr>"
      have "cstep e s ?s'" using assms(4) WRunning Nil hc by (intro worker_complete) simp_all
      moreover have "pending_work e ?s' < pending_work e s"
        by (rule pending_upd [OF assms(2) _ _ assms(3), where K = ?K]) (simp add: assms(2,4) WRunning)+
      ultimately show ?thesis by blast
    next
      case (Cons j js)
      let ?st' = "extractText_callback (runtime e) (options (env_config e)) (outputFolder (env_config e))
                    (batch ! j) (cfs s, clog s)"
      let ?s' = "s\<lparr>cfs := fst ?st', clog := snd ?st',
                   workers := (workers s)(i \<mapsto> WRunning batch (remove1 j pend)),
                   cb_done := cb_done s @ [batch ! j]\<rparr>"
      have "cstep e s ?s'" using assms(4) WRunning Cons by (intro worker_callback) simp_all
      moreover have "pending_work e ?s' < pending_work e s"
        by (rule pending_upd [OF assms(2) _ _ assms(3), where K = ?K]) (simp add: assms(2,4) WRunning Cons)+
      ultimately show ?thesis by blast
    qed
  next
    case (WExited x)
    with assms(5) show ?thesis by simp
  next
    case WSpawnFailed
    with assms(5) show ?thesis by simp
  qed
qed

lemma progress:
  assumes "cinv e fs0 s" "0 < cpus e" "\<not> final s"
  shows "\<exists>s'. cstep e s s' \<and> pending_work e s' < pending_work e s"
proof (cases "master s")
  case MStart
  then show ?thesis by (rule progress_master [OF assms(1,2)])
next
  case (MForked k)
  then obtain i ph where i: "i \<in> {1..k}" "workers s i = Some ph" "\<not> settled ph"
    using assms(3) final_MForked_iff [OF MForked] by blast
  from assms(1) MForked i show ?thesis by (rule progress_worker)
next
  case (MCrashed err)
  with assms(3) show ?thesis by (simp add: final_def)
qed

subsection \<open>The step function and the relation\<close>

lemma cexec_sound: "cexec e s ev = Some s' \<Longrightarrow> cstep e s s'"
proof (cases ev)
  case MasterStart
  assume h: "cexec e s ev = Some s'"
  show ?thesis
  proof (cases "init Master (cpus e) (env_config e) (listing e) (cfs s, clog s)")
    case (Some a)
    obtain r st' where a: "a = (r, st')" by (cases a)
    with h Some MasterStart show ?thesis
      by (cases r) (auto intro: master_fork master_crash split: if_splits)
  qed (use h MasterStart in \<open>simp split: if_splits\<close>)
next
  case (WorkerStart i)
  assume h: "cexec e s ev = Some s'"
  show ?thesis
  proof (cases "init (WorkerOf i) (cpus e) (env_config e) (listing e) (cfs s, clog s)")
    case (Some a)
    obtain r st' where a: "a = (r, st')" by (cases a)
    with h Some WorkerStart show ?thesis
      by (cases r) (auto intro: worker_start worker_crash split: if_splits)
  qed (use h WorkerStart in \<open>simp split: if_splits\<close>)
qed (auto intro: spawn_error worker_callback worker_complete simp: Let_def
      split: if_splits option.splits wphase.splits list.splits prod.splits)

lemma cstep_cexec: "cstep e s s' \<Longrightarrow> \<exists>ev. cexec e s ev = Some s'"
proof (induction rule: cstep.induct)
  case (master_fork s k st')
  then show ?case by (intro exI [of _ MasterStart]) simp
next
  case (master_crash s err st')
  then show ?case by (intro exI [of _ MasterStart]) simp
next
  case (spawn_error s i err)
  then show ?case by (intro exI [of _ "SpawnError i err"]) simp
next
  case (worker_start s i batch st')
  then show ?case by (intro exI [of _ "WorkerStart i"]) simp
next
  case (worker_crash s i err st')
  then show ?case by (intro exI [of _ "WorkerStart i"]) simp
next
  case (worker_callback s i batch pend j st')
  then show ?case by (intro exI [of _ "TikaCallback i j"]) (simp add: Let_def)
next
  case (worker_complete s i batch code st')
  then show ?case by (intro exI [of _ "WorkerComplete i"]) simp
qed

lemma cexec_list_steps: "cexec_list e s evs = Some s' \<Longrightarrow> (cstep e)\<^sup>*\<^sup>* s s'"
proof (induction evs arbitrary: s)
  case Nil
  then show ?case by simp
next
  case (Cons ev evs)
  then obtain s1 where "cexec e s ev = Some s1" "cexec_list e s1 evs = Some s'"
    by (auto split: option.splits)
  with Cons.IH show ?case by (blast intro: converse_rtranclp_into_rtranclp cexec_sound)
qed

lemma demo_reachable:
  "(case cexec_list (demo_cenv n rt) (cinit demo_fs) evs of None \<Rightarrow> False | Some _ \<Rightarrow> True) \<Longrightarrow>
   reachable (demo_cenv n rt) demo_fs (demo_final n rt evs)"
  by (auto simp: reachable_def demo_final_def intro: cexec_list_steps split: option.splits)

subsection \<open>Consequences of the invariant\<close>

lemma env_take_concat:
  "set (concat (take (workerCount (cpus e) (env_files e)) (env_batches e))) =
   set (take (workerCount (cpus e) (env_files e) * workerCount (cpus e) (env_files e)) (env_files e))"
  by (cases "workerCount (cpus e) (env_files e) = 0") (simp_all add: env_batches_def concat_take_chunks)

lemma cinv_done_subset:
  assumes "cinv e fs0 s" "master s = MForked k"
  shows "set (cb_done s) \<subseteq> set (take (k * k) (env_files e))"
proof -
  from cinv_forked [OF assms] have "set (cb_done s) \<subseteq> set (concat (take k (env_batches e)))"
    and "k = workerCount (cpus e) (env_files e)" by blast+
  then show ?thesis using env_take_concat [of e] by simp
qed

lemma cinv_exited:
  assumes "cinv e fs0 s" "workers s i = Some (WExited x)"
  shows "(x = ExitCode 0 \<and> 0 < i \<and> i \<le> length (env_batches e) \<and> set (env_batches e ! (i - 1)) \<subseteq> set (cb_done s)) \<or>
         (\<exists>err. x = Uncaught err \<and> length (env_batches e) < i)"
proof -
  obtain k where "master s = MForked k" using cinv_workers_Some assms by blast
  then have "phase_ok e (cb_done s) i (WExited x)" using cinv_forked [OF assms(1)] assms(2) by blast
  then show ?thesis by (cases x) auto
qed

lemma cinv_final_done:
  assumes "cinv e fs0 s" "final s" "master s = MForked k"
    "list_all (\<lambda>i. workers s i \<noteq> Some WSpawnFailed) [1..<k + 1]"
  shows "set (take (k * k) (env_files e)) \<subseteq> set (cb_done s)"
proof
  fix f
  assume f: "f \<in> set (take (k * k) (env_files e))"
  note F = cinv_forked [OF assms(1,3)]
  then have "f \<in> set (concat (take k (env_batches e)))" using f env_take_concat [of e] by simp
  then obtain b where b: "b \<in> set (take k (env_batches e))" "f \<in> set b" by auto
  then obtain m where "m < length (take k (env_batches e))" "take k (env_batches e) ! m = b"
    by (auto simp: in_set_conv_nth)
  then have m: "m < k" "m < length (env_batches e)" "f \<in> set (env_batches e ! m)" using b(2) by auto
  have "workers s (Suc m) \<noteq> None" using F m(1) by simp
  then obtain ph where ph: "workers s (Suc m) = Some ph" by blast
  have "settled ph" using assms(2) final_MForked_iff [OF assms(3)] ph m(1) by auto
  moreover have "ph \<noteq> WSpawnFailed"
  proof -
    have "Suc m \<in> set [1..<k + 1]" using m(1) by auto
    with assms(4) have "workers s (Suc m) \<noteq> Some WSpawnFailed" unfolding list_all_iff by blast
    with ph show ?thesis by simp
  qed
  ultimately obtain x where "ph = WExited x" by (cases ph) auto
  with cinv_exited [OF assms(1)] ph m(2) have "set (env_batches e ! m) \<subseteq> set (cb_done s)" by fastforce
  with m(3) show "f \<in> set (cb_done s)" by blast
qed

lemma cinv_master_forked:
  assumes "cinv e fs0 s" "final s"
    "init Master (cpus e) (env_config e) (listing e) (fs0, []) = Some (MasterForked k, st')"
  shows "master s = MForked k"
proof (cases "master s")
  case MStart
  with assms(2) show ?thesis by (simp add: final_def)
next
  case (MCrashed err)
  with assms(1,3) show ?thesis by (simp add: cinv_def)
next
  case (MForked k')
  have "k' = workerCount (cpus e) (env_files e)" using cinv_forked [OF assms(1) MForked] by simp
  moreover have "k = workerCount (cpus e) (env_files e)"
    using init_Master_forked [OF assms(3)] by (auto simp: env_files_def)
  ultimately show ?thesis using MForked by simp
qed

lemma file_upd_cong:
  "m' (resolve (output_path out f)) = m (resolve (output_path out f)) \<Longrightarrow>
   file_upd rt opts out fs f m' (resolve (output_path out f)) = file_upd rt opts out fs f m (resolve (output_path out f))"
  by (simp add: file_upd_def split: option.splits)

lemma file_upd_idem:
  "file_upd rt opts out fs f (file_upd rt opts out fs f m) (resolve (output_path out f)) =
   file_upd rt opts out fs f m (resolve (output_path out f))"
  by (simp add: file_upd_def split: option.splits)

lemma fold_file_upd_only:
  assumes "\<forall>g \<in> set xs. resolve (output_path out g) = resolve (output_path out f) \<longrightarrow> g = f"
  shows "fold (file_upd rt opts out fs) xs m (resolve (output_path out f)) =
           (if f \<in> set xs then file_upd rt opts out fs f m (resolve (output_path out f))
            else m (resolve (output_path out f)))"
  using assms
proof (induction xs arbitrary: m)
  case Nil
  then show ?case by simp
next
  case (Cons g xs)
  let ?k = "resolve (output_path out f)"
  let ?m' = "file_upd rt opts out fs g m"
  have IH: "fold (file_upd rt opts out fs) xs ?m' ?k =
      (if f \<in> set xs then file_upd rt opts out fs f ?m' ?k else ?m' ?k)"
    using Cons.prems by (intro Cons.IH) simp
  have step: "fold (file_upd rt opts out fs) (g # xs) m ?k = fold (file_upd rt opts out fs) xs ?m' ?k"
    by simp
  show ?case
  proof (cases "g = f")
    case True
    then have "?m' ?k = file_upd rt opts out fs f m ?k"
      and "file_upd rt opts out fs f ?m' ?k = file_upd rt opts out fs f m ?k"
      by (simp_all only: file_upd_idem)
    with step IH True show ?thesis by (simp only: if_cancel list.set_intros(1) if_True)
  next
    case False
    then have "resolve (output_path out g) \<noteq> ?k" using Cons.prems by auto
    then have m': "?m' ?k = m ?k" by (rule file_upd_other)
    then have "file_upd rt opts out fs f ?m' ?k = file_upd rt opts out fs f m ?k" by (rule file_upd_cong)
    with step IH False m' show ?thesis by simp
  qed
qed

lemma files_after_unique:
  assumes "f \<in> set d"
    "\<forall>g \<in> set d. file_name_of g = file_name_of f \<longrightarrow> g = f"
  shows "files_after e fs0 d (resolve (output_path (outputFolder (env_config e)) f)) =
           file_upd (runtime e) (options (env_config e)) (outputFolder (env_config e)) (master_fs e fs0) f
             (fs_files fs0) (resolve (output_path (outputFolder (env_config e)) f))"
  using assms unfolding files_after_def
  by (subst fold_file_upd_only) (auto simp: resolve_output_path_inj)

lemma reachable_cinit:
  assumes "\<And>s'. \<not> cstep e (cinit fs0) s'" "reachable e fs0 s"
  shows "s = cinit fs0"
  using assms(2) unfolding reachable_def
proof (induction rule: rtranclp_induct)
  case base
  then show ?case by simp
next
  case (step y z)
  with assms(1) show ?case by simp
qed

lemma final_master:
  assumes "reachable e fs0 s" "final s"
    "map_option fst (init Master (cpus e) (env_config e) (listing e) (fs0, [])) = Some (MasterForked k)"
  shows "master s = MForked k"
proof -
  obtain st' where "init Master (cpus e) (env_config e) (listing e) (fs0, []) = Some (MasterForked k, st')"
    using assms(3) by auto
  then show ?thesis by (rule cinv_master_forked [OF reachable_cinv [OF assms(1)] assms(2)])
qed

lemma final_output:
  assumes "reachable e fs0 s" "final s" "map_option fst (init Master (cpus e) (env_config e) (listing e) (fs0, [])) = Some (MasterForked k)"
    "list_all (\<lambda>i. workers s i \<noteq> Some WSpawnFailed) [1..<k + 1]"
    "f \<in> set (take (k * k) (env_files e))" "\<forall>g \<in> set (env_files e). file_name_of g = file_name_of f \<longrightarrow> g = f"
  shows "fs_files (cfs s) (resolve (output_path (outputFolder (env_config e)) f)) =
           file_upd (runtime e) (options (env_config e)) (outputFolder (env_config e)) (master_fs e fs0) f
             (fs_files fs0) (resolve (output_path (outputFolder (env_config e)) f))"
proof -
  note I = reachable_cinv [OF assms(1)]
  have m: "master s = MForked k" by (rule final_master [OF assms(1-3)])
  have dn: "set (cb_done s) = set (take (k * k) (env_files e))"
    using cinv_done_subset [OF I m] cinv_final_done [OF I assms(2) m assms(4)] by blast
  then have "\<forall>g \<in> set (cb_done s). file_name_of g = file_name_of f \<longrightarrow> g = f"
    using assms(6) by (auto dest: in_set_takeD)
  then show ?thesis
    using cinv_forked [OF I m] dn assms(5) files_after_unique [of f "cb_done s" e fs0] by simp
qed

lemma final_exit:
  assumes "reachable e fs0 s" "final s" "master s = MForked k"
    "list_all (\<lambda>i. workers s i \<noteq> Some WSpawnFailed) [1..<k + 1]" "0 < i" "i \<le> k" "i \<le> length (env_batches e)"
  shows "workers s i = Some (WExited (ExitCode 0))"
proof -
  note I = reachable_cinv [OF assms(1)]
  have "workers s i \<noteq> None" using cinv_forked [OF I assms(3)] assms(5,6) by simp
  then obtain ph where ph: "workers s i = Some ph" by blast
  have "settled ph" using assms(2) final_MForked_iff [OF assms(3)] ph assms(5,6) by auto
  moreover have "i \<in> set [1..<k + 1]" using assms(5,6) by auto
  with assms(4) ph have "ph \<noteq> WSpawnFailed" unfolding list_all_iff by auto
  ultimately obtain x where "ph = WExited x" by (cases ph) auto
  with cinv_exited [OF I] ph assms(7) show ?thesis by fastforce
qed

lemma scenario_run:
  assumes "reachable (demo_cenv 2 rt) demo_fs s" "final s"
    "list_all (\<lambda>i. workers s i \<noteq> Some WSpawnFailed) [1..<3]"
  shows "map (\<lambda>f. fs_files (cfs s) (resolve (output_path ''./text/'' f))) [''pdf/a.pdf'', ''pdf/b.pdf'', ''pdf/c.pdf''] =
           map (\<lambda>f. file_upd rt default_options ''./text/'' demo_fs f Map.empty (resolve (output_path ''./text/'' f)))
             [''pdf/a.pdf'', ''pdf/b.pdf'', ''pdf/c.pdf''] \<and>
         map (workers s) [1, 2] = [Some (WExited (ExitCode 0)), Some (WExited (ExitCode 0))]"
proof -
  have init: "map_option fst (init Master (cpus (demo_cenv 2 rt)) (env_config (demo_cenv 2 rt))
      (listing (demo_cenv 2 rt)) (demo_fs, [])) = Some (MasterForked 2)"
    by code_simp
  have m: "master s = MForked 2" by (rule final_master [OF assms(1,2) init])
  have l: "list_all (\<lambda>i. workers s i \<noteq> Some WSpawnFailed) [1..<2 + 1]" using assms(3) by simp
  have cfg: "env_config (demo_cenv 2 rt) = \<lparr>inputFolder = ''./pdf/'', outputFolder = ''./text/'', options = default_options\<rparr>"
    by (simp add: env_config_def demo_cenv_def init_config_def default_options_def)
  have mfs: "master_fs (demo_cenv 2 rt) demo_fs = demo_fs"
    by (simp add: master_fs_def cfg ensure_output_def existsSync_def resolve_demo_out)
  have rtd: "runtime (demo_cenv 2 rt) = rt" by (simp add: demo_cenv_def)
  have files: "env_files (demo_cenv 2 rt) = [''pdf/a.pdf'', ''pdf/b.pdf'', ''pdf/c.pdf'']" by code_simp
  have bl: "length (env_batches (demo_cenv 2 rt)) = 2" by code_simp
  have "fs_files (cfs s) (resolve (output_path ''./text/'' f)) =
      file_upd rt default_options ''./text/'' demo_fs f Map.empty (resolve (output_path ''./text/'' f))"
    if "f \<in> set [''pdf/a.pdf'', ''pdf/b.pdf'', ''pdf/c.pdf'']" for f
  proof -
    have "f \<in> set (take (2 * 2) (env_files (demo_cenv 2 rt)))" using that files by simp
    moreover have "\<forall>g \<in> set (env_files (demo_cenv 2 rt)). file_name_of g = file_name_of f \<longrightarrow> g = f"
      using that unfolding files by (auto simp: file_name_of_takeWhile)
    ultimately show ?thesis
      using final_output [OF assms(1,2) init l] by (simp add: cfg mfs rtd)
  qed
  moreover have "workers s i = Some (WExited (ExitCode 0))" if "i \<in> {1, 2}" for i
    using final_exit [OF assms(1,2) m l] that bl by auto
  ultimately show ?thesis by simp
qed

subsection \<open>Properties of the run\<close>

text \<open>
  C31. Every worker that exits either exits with code 0, or dies with an
  uncaught TypeError; it dies exactly when its id exceeds the number of
  batches. No worker ever reports failure through handleComplete.
\<close>

theorem cluster_worker_exits:
  assumes "reachable e fs0 s" "workers s i = Some (WExited x)"
  shows "(x = ExitCode 0 \<or> (\<exists>err. x = Uncaught err)) \<and>
         ((\<exists>err. x = Uncaught err) \<longleftrightarrow> length (env_batches e) < i)"
  using cinv_exited [OF reachable_cinv [OF assms(1)] assms(2)] by auto

theorem cluster_worker_exits_witness:
  "reachable (demo_cenv 3 ok_env) demo_fs (demo_final 3 ok_env crash_events) \<and>
   workers (demo_final 3 ok_env crash_events) 2 = Some (WExited (Uncaught (UndefinedProperty ''length''))) \<and>
   length (env_batches (demo_cenv 3 ok_env)) < 2"
proof -
  have r: "reachable (demo_cenv 3 ok_env) demo_fs (demo_final 3 ok_env crash_events)"
    by (rule demo_reachable) code_simp
  have w: "workers (demo_final 3 ok_env crash_events) 2 = Some (WExited (Uncaught (UndefinedProperty ''length'')))"
    by code_simp
  from cluster_worker_exits [OF r w] r w show ?thesis by blast
qed

text \<open>
  C32. In every state of a run, the output files hold the result of the
  Tika callbacks that have run, applied in completion order to the files the
  run started with, and only files among the first \<open>workerCount\<^sup>2\<close> of the
  list have had a callback.
\<close>

theorem cluster_files:
  assumes "reachable e fs0 s" "master s = MForked k"
  shows "fs_files (cfs s) = files_after e fs0 (cb_done s) \<and>
         set (cb_done s) \<subseteq> set (take (k * k) (env_files e))"
  using cinv_forked [OF reachable_cinv [OF assms(1)] assms(2)]
    cinv_done_subset [OF reachable_cinv [OF assms(1)] assms(2)] by blast

theorem cluster_files_witness:
  "reachable (demo_cenv 2 ok_env) demo_fs (demo_final 2 ok_env spec_events) \<and>
   master (demo_final 2 ok_env spec_events) = MForked 2 \<and>
   set (cb_done (demo_final 2 ok_env spec_events)) \<subseteq> set (take 4 (env_files (demo_cenv 2 ok_env)))"
proof -
  have r: "reachable (demo_cenv 2 ok_env) demo_fs (demo_final 2 ok_env spec_events)"
    by (rule demo_reachable) code_simp
  have m: "master (demo_final 2 ok_env spec_events) = MForked 2" by code_simp
  from cluster_files [OF r m] r m show ?thesis by simp
qed

text \<open>
  C33. Liveness: when the machine has a CPU, every state of a run can be
  completed to a final one, in which the master has forked or crashed and
  every worker has exited or failed to spawn.
\<close>

theorem cluster_completes:
  assumes "reachable e fs0 s" "0 < cpus e"
  shows "\<exists>s'. (cstep e)\<^sup>*\<^sup>* s s' \<and> final s'"
  using assms
proof (induction "pending_work e s" arbitrary: s rule: less_induct)
  case less
  show ?case
  proof (cases "final s")
    case True
    then show ?thesis by blast
  next
    case False
    obtain s1 where s1: "cstep e s s1" "pending_work e s1 < pending_work e s"
      using progress [OF reachable_cinv [OF less.prems(1)] less.prems(2) False] by blast
    have "reachable e fs0 s1" using less.prems(1) s1(1) by (simp add: reachable_def)
    then obtain s' where "(cstep e)\<^sup>*\<^sup>* s1 s'" "final s'" using less.hyps s1(2) less.prems(2) by blast
    with s1(1) show ?thesis by (blast intro: converse_rtranclp_into_rtranclp)
  qed
qed

theorem cluster_completes_witness:
  "reachable (demo_cenv 2 ok_env) demo_fs (cinit demo_fs) \<and> 0 < cpus (demo_cenv 2 ok_env) \<and>
   (\<exists>s'. (cstep (demo_cenv 2 ok_env))\<^sup>*\<^sup>* (cinit demo_fs) s' \<and> final s')"
proof -
  have r: "reachable (demo_cenv 2 ok_env) demo_fs (cinit demo_fs)" by (simp add: reachable_def)
  have c: "0 < cpus (demo_cenv 2 ok_env)" by (simp add: demo_cenv_def)
  from cluster_completes [OF r c] r c show ?thesis by blast
qed

text \<open>
  C34. When a run is over and no fork failed, the callbacks that have run
  are exactly those of the first \<open>workerCount\<^sup>2\<close> files of the list: those
  are all extracted, the others never.
\<close>

theorem cluster_processes_prefix:
  assumes "reachable e fs0 s" "final s" "master s = MForked k"
    "list_all (\<lambda>i. workers s i \<noteq> Some WSpawnFailed) [1..<k + 1]"
  shows "set (cb_done s) = set (take (k * k) (env_files e))"
  using cinv_done_subset [OF reachable_cinv [OF assms(1)] assms(3)]
    cinv_final_done [OF reachable_cinv [OF assms(1)] assms(2-4)] by blast

theorem cluster_processes_prefix_witness:
  "reachable (demo_cenv 3 ok_env) demo_fs (demo_final 3 ok_env crash_events) \<and>
   final (demo_final 3 ok_env crash_events) \<and> master (demo_final 3 ok_env crash_events) = MForked 3 \<and>
   list_all (\<lambda>i. workers (demo_final 3 ok_env crash_events) i \<noteq> Some WSpawnFailed) [1..<4] \<and>
   set (cb_done (demo_final 3 ok_env crash_events)) = set (take 9 (env_files (demo_cenv 3 ok_env)))"
proof -
  have r: "reachable (demo_cenv 3 ok_env) demo_fs (demo_final 3 ok_env crash_events)"
    by (rule demo_reachable) code_simp
  have f: "final (demo_final 3 ok_env crash_events)" by code_simp
  have m: "master (demo_final 3 ok_env crash_events) = MForked 3" by code_simp
  have l: "list_all (\<lambda>i. workers (demo_final 3 ok_env crash_events) i \<noteq> Some WSpawnFailed) [1..<3 + 1]"
    by code_simp
  from cluster_processes_prefix [OF r f m l] r f m l show ?thesis by simp
qed




end
