(* ===== verification/Server.thy ===== *)
theory Server
  imports Prelude
begin

text \<open>
  The search service \<open>src/server.js\<close>: an Express application whose first
  middleware (lines 145--160) adds three CORS headers to every response and
  answers every \<open>OPTIONS\<close> request itself, followed by a router (lines
  28--143) with an information route \<open>/\<close> and four search routes
  \<open>/match/:query\<close>, \<open>/custom/:query\<close>, \<open>/fuzzy/:query\<close> and
  \<open>/regexp/:query\<close>. Each search route sends one request to Elasticsearch
  and answers with \<open>res.json(result)\<close>, ignoring the error. Elasticsearch
  is an oracle from the search request to an error or a result.

  Express 4 semantics the model follows: a route path \<open>/name/:query\<close>
  compiles to \<open>^\/name\/(?:([^\/]+?))\/?$\<close> with the \<open>i\<close> flag (routing is
  case-insensitive and not strict by default); the captured value is passed
  through \<open>decodeURIComponent\<close>, whose failure ends the request with status
  400; a \<open>GET\<close> route also serves \<open>HEAD\<close>, whose body is not sent; a request
  no route takes gets 404 from the final handler; \<open>res.send(200)\<close> sends
  status 200 with the body \<open>OK\<close>; \<open>res.json(undefined)\<close> sends status 200
  with an empty body. Paths are the URL's path without the query string.
  Characters are bytes: \<open>decodeURIComponent\<close> is modelled on \<open>%XX\<close> escapes,
  without its check that the decoded bytes are valid UTF-8.
\<close>

datatype http_method = GET | HEAD | POST | PUT | DELETE | PATCH | OPTIONS

record request =
  req_method :: http_method
  req_path :: string

text \<open>The four query types of the Elasticsearch query DSL the routes build.\<close>

datatype query_dsl =
    MultiMatch string string "string list"             \<comment> \<open>query, type, fields\<close>
  | SimpleQueryString string "string list" string bool \<comment> \<open>query, fields, default operator, analyze wildcard\<close>
  | Fuzzy string string                                \<comment> \<open>field, value\<close>
  | Regexp string string                               \<comment> \<open>field, value\<close>

record search_request =
  sr_index :: string
  sr_size :: nat
  sr_query :: query_dsl
  sr_source_excludes :: "string list"
  sr_highlight :: "string list"

datatype 'r body =
    InfoJson            \<comment> \<open>the name, message and version of route \<open>/\<close>\<close>
  | JsonBody 'r         \<comment> \<open>\<open>res.json(result)\<close> with a result\<close>
  | EmptyBody           \<comment> \<open>\<open>res.json(undefined)\<close>, or the body of a \<open>HEAD\<close> response\<close>
  | StatusText string   \<comment> \<open>\<open>res.send(200)\<close>\<close>
  | CannotRoute http_method string  \<comment> \<open>the final handler's \<open>Cannot GET /path\<close>\<close>
  | DecodeError         \<comment> \<open>the final handler's page for the failed \<open>decodeURIComponent\<close>\<close>

record 'r response =
  status :: nat
  headers :: "(string \<times> string) list"
  body :: "'r body"

subsection \<open>Constants and request bodies\<close>

definition es_index :: string where
  "es_index = ''my-index''"

definition maxSize :: nat where
  "maxSize = 100"

definition source_excludes :: "string list" where
  "source_excludes = [''body*'']"

definition highlight_fields :: "string list" where
  "highlight_fields = [''body'']"

definition search_request_of :: "query_dsl \<Rightarrow> search_request" where
  "search_request_of q =
     \<lparr>sr_index = es_index, sr_size = maxSize, sr_query = q,
      sr_source_excludes = source_excludes, sr_highlight = highlight_fields\<rparr>"

definition match_query :: "string \<Rightarrow> query_dsl" where
  "match_query query = MultiMatch query ''phrase'' [''body'', ''body.folded'']"

definition custom_query :: "string \<Rightarrow> query_dsl" where
  "custom_query query = SimpleQueryString query [''body'', ''body.folded''] ''and'' True"

definition fuzzy_query :: "string \<Rightarrow> query_dsl" where
  "fuzzy_query query = Fuzzy ''body'' query"

definition regexp_query :: "string \<Rightarrow> query_dsl" where
  "regexp_query query = Regexp ''body'' query"

text \<open>The search routes in the order the router registers them.\<close>

definition search_routes :: "(string \<times> (string \<Rightarrow> query_dsl)) list" where
  "search_routes = [(''match'', match_query), (''custom'', custom_query),
     (''fuzzy'', fuzzy_query), (''regexp'', regexp_query)]"

definition cors_headers :: "(string \<times> string) list" where
  "cors_headers =
     [(''Access-Control-Allow-Origin'', ''*''), (''Access-Control-Allow-Methods'', ''GET,OPTIONS''),
      (''Access-Control-Allow-Headers'', ''Content-Type, Authorization, Content-Length, X-Requested-With'')]"

subsection \<open>Routing\<close>

definition ascii_lower :: "char \<Rightarrow> char" where
  "ascii_lower c = (let n = (of_char c :: nat) in if 65 \<le> n \<and> n \<le> 90 then char_of (n + 32) else c)"

text \<open>The value of a hexadecimal digit \<open>0-9\<close>, \<open>a-f\<close>, \<open>A-F\<close> (codes 48--57, 97--102, 65--70).\<close>

definition hex_value :: "char \<Rightarrow> nat option" where
  "hex_value c =
     (let n = (of_char c :: nat) in
      if 48 \<le> n \<and> n \<le> 57 then Some (n - 48)
      else if 97 \<le> n \<and> n \<le> 102 then Some (n - 87)
      else if 65 \<le> n \<and> n \<le> 70 then Some (n - 55)
      else None)"

text \<open>\<open>decodeURIComponent\<close> on bytes: \<open>None\<close> is the \<open>URIError\<close> of a malformed escape.\<close>

fun pct_decode :: "string \<Rightarrow> string option" where
  "pct_decode [] = Some []"
| "pct_decode (c # cs) =
     (if c = CHR ''%'' then
        (case cs of
           a # b # rest \<Rightarrow>
             (case (hex_value a, hex_value b) of
                (Some x, Some y) \<Rightarrow> map_option (Cons (char_of (16 * x + y))) (pct_decode rest)
              | _ \<Rightarrow> None)
         | _ \<Rightarrow> None)
      else map_option (Cons c) (pct_decode cs))"

text \<open>
  The raw value \<open>^\/name\/(?:([^\/]+?))\/?$\<close> captures from a path, with the
  literal compared without regard to ASCII case.
\<close>

definition param_route :: "string \<Rightarrow> string \<Rightarrow> string option" where
  "param_route name path =
     (case path of
        c # rest \<Rightarrow>
          if c \<noteq> CHR ''/'' then None
          else (let l = takeWhile (\<lambda>x. x \<noteq> CHR ''/'') rest; r = dropWhile (\<lambda>x. x \<noteq> CHR ''/'') rest in
                if map ascii_lower l \<noteq> name then None
                else case r of
                       [] \<Rightarrow> None
                     | _ # p \<Rightarrow>
                         (let v = (if p \<noteq> [] \<and> last p = CHR ''/'' then butlast p else p) in
                          if v \<noteq> [] \<and> CHR ''/'' \<notin> set v then Some v else None))
      | [] \<Rightarrow> None)"

datatype route = IndexRoute | SearchRoute "string \<Rightarrow> query_dsl" string | NoRoute

fun find_search_route :: "(string \<times> (string \<Rightarrow> query_dsl)) list \<Rightarrow> string \<Rightarrow> route" where
  "find_search_route [] path = NoRoute"
| "find_search_route ((name, mk) # rs) path =
     (case param_route name path of Some v \<Rightarrow> SearchRoute mk v | None \<Rightarrow> find_search_route rs path)"

definition route_of :: "string \<Rightarrow> route" where
  "route_of path = (if path = ''/'' then IndexRoute else find_search_route search_routes path)"

subsection \<open>Handling a request\<close>

text \<open>
  The response to a request, and the search request sent to Elasticsearch on
  the way, if any.
\<close>

definition handle ::
  "(search_request \<Rightarrow> js_error + 'r) \<Rightarrow> request \<Rightarrow> 'r response \<times> search_request option" where
  "handle es req =
     (if req_method req = OPTIONS then (\<lparr>status = 200, headers = cors_headers, body = StatusText ''OK''\<rparr>, None)
      else if req_method req \<notin> {GET, HEAD}
      then (\<lparr>status = 404, headers = cors_headers, body = CannotRoute (req_method req) (req_path req)\<rparr>, None)
      else
        (let (st, b, sent) =
           (case route_of (req_path req) of
              IndexRoute \<Rightarrow> (200, InfoJson, None)
            | NoRoute \<Rightarrow> (404, CannotRoute (req_method req) (req_path req), None)
            | SearchRoute mk raw \<Rightarrow>
                (case pct_decode raw of
                   None \<Rightarrow> (400, DecodeError, None)
                 | Some query \<Rightarrow>
                     (let sr = search_request_of (mk query) in
                      case es sr of
                        Inl error \<Rightarrow> (200, EmptyBody, Some sr)
                      | Inr result \<Rightarrow> (200, JsonBody result, Some sr))))
         in (\<lparr>status = st, headers = cors_headers, body = (if req_method req = HEAD then EmptyBody else b)\<rparr>, sent)))"

subsection \<open>Routing lemmas\<close>

lemma param_route_path:
  assumes "CHR ''/'' \<notin> set seg" "raw \<noteq> []" "CHR ''/'' \<notin> set raw" "sfx \<in> {[], ''/''}"
  shows "param_route n (CHR ''/'' # seg @ CHR ''/'' # raw @ sfx) =
           (if map ascii_lower seg = n then Some raw else None)"
proof -
  have tw: "takeWhile (\<lambda>x. x \<noteq> CHR ''/'') (seg @ CHR ''/'' # raw @ sfx) = seg"
    using assms(1) by (induction seg) auto
  have dw: "dropWhile (\<lambda>x. x \<noteq> CHR ''/'') (seg @ CHR ''/'' # raw @ sfx) = CHR ''/'' # raw @ sfx"
    using assms(1) by (induction seg) auto
  have "(if raw @ sfx \<noteq> [] \<and> last (raw @ sfx) = CHR ''/'' then butlast (raw @ sfx) else raw @ sfx) = raw"
    using assms(2-4) by (auto dest: last_in_set)
  with assms(2,3) show ?thesis by (simp add: param_route_def tw dw Let_def)
qed

lemma route_of_search:
  assumes "(name, mk) \<in> set search_routes" "map ascii_lower seg = name" "raw \<noteq> []"
    "CHR ''/'' \<notin> set raw" "sfx \<in> {[], ''/''}"
  shows "route_of (CHR ''/'' # seg @ CHR ''/'' # raw @ sfx) = SearchRoute mk raw"
proof -
  have "ascii_lower (CHR ''/'') = CHR ''/''" by (simp add: ascii_lower_def)
  then have "CHR ''/'' \<in> set seg \<Longrightarrow> CHR ''/'' \<in> set name"
    using assms(2) by (metis image_eqI list.set_map)
  then have seg: "CHR ''/'' \<notin> set seg"
    using assms(1) by (auto simp: search_routes_def)
  note pr = param_route_path [OF seg assms(3-5)]
  have "CHR ''/'' # seg @ CHR ''/'' # raw @ sfx \<noteq> ''/''" by simp
  with assms(1,2) show ?thesis by (auto simp: route_of_def search_routes_def pr)
qed

lemma handle_search:
  assumes "route_of (req_path req) = SearchRoute mk raw" "req_method req \<in> {GET, HEAD}"
  shows "handle es req =
           (case pct_decode raw of
              None \<Rightarrow> (\<lparr>status = 400, headers = cors_headers,
                        body = (if req_method req = HEAD then EmptyBody else DecodeError)\<rparr>, None)
            | Some query \<Rightarrow>
                (\<lparr>status = 200, headers = cors_headers,
                   body = (if req_method req = HEAD then EmptyBody
                           else case es (search_request_of (mk query)) of
                                  Inl error \<Rightarrow> EmptyBody | Inr result \<Rightarrow> JsonBody result)\<rparr>,
                 Some (search_request_of (mk query))))"
  using assms by (auto simp: handle_def split: option.splits sum.splits)

lemma snd_handle:
  "snd (handle es req) =
     (if req_method req \<in> {GET, HEAD} then
        (case route_of (req_path req) of
           SearchRoute mk raw \<Rightarrow> map_option (\<lambda>q. search_request_of (mk q)) (pct_decode raw)
         | _ \<Rightarrow> None)
      else None)"
  by (auto simp: handle_def Let_def split: route.splits option.splits sum.splits)

subsection \<open>Properties of the service\<close>







end
