(* ===== verification/Spec2Isabelle.thy ===== *)
theory Spec2Isabelle
  imports Partition NodePath Store Worker PdfFilter Sequential Orchestrator Cluster Server
begin

text \<open>
  \<^bold>\<open>A verification model of br-data/elasticsearch-import-tools.\<close>

  The repository has three scripts. \<open>src/extract-multicore.js\<close> extracts the
  text of every PDF file below an input folder with Apache Tika, using a
  cluster of Node.js worker processes; \<open>src/extract.js\<close> does the same in one
  process; \<open>src/server.js\<close> is an Express service that forwards search
  queries to Elasticsearch. The scripts share no code: each is modelled on
  its own, and the Node.js and Tika calls they make are modelled once.

  \<^bold>\<open>How the multicore script works.\<close> The master process (\<open>init\<close>) creates the
  output folder, lists the input files (\<open>readFiles\<close>), computes
  \<open>workerCount = min(cpus, files)\<close> and the batch table
  \<open>chunkArray(fileList, workerCount)\<close> (\<open>prepareCluster\<close>), and forks
  \<open>workerCount\<close> processes. Each worker re-runs the same script, recomputes the
  same table, takes batch \<open>cluster.worker.id - 1\<close>, starts one Tika extraction
  per file of its batch at once (\<open>async.each\<close>), saves each result to
  \<open>outputFolder/<basename>.txt\<close> as it arrives (\<open>extractText\<close>, \<open>saveFile\<close>), and
  exits when the last callback has come (\<open>handleComplete\<close>).

  \<^bold>\<open>Theories, in import order.\<close>
  \<^item> \<open>Prelude\<close>: the JavaScript primitives the scripts use (\<open>slice\<close>,
    \<open>lastIndexOf\<close>, \<open>substr\<close>, \<open>||\<close> on arguments), the error type
    \<open>js_error\<close>, the \<open>js_simps\<close> collection and shared list lemmas.
  \<^item> \<open>Partition\<close>: \<open>chunkArray\<close> (\<open>chunk_loop\<close>, a
    \<^theory_text>\<open>partial_function (option)\<close> because its step may be 0, so
    that not returning is \<open>None\<close>), the reference chunking \<open>chunks\<close>,
    \<open>workerCount\<close>, \<open>fileListBatches\<close> and the lookup \<open>worker_batch\<close>
    (extract-multicore.js lines 71--93 and 134--144).
  \<^item> \<open>NodePath\<close>: \<open>basename\<close> by \<open>substr\<close>/\<open>lastIndexOf\<close>, Node's
    \<open>path.join\<close> and \<open>path.normalize\<close> on POSIX paths, and the resolved file
    each output path names.
  \<^item> \<open>Store\<close>: the file system as two maps (directories, files),
    \<open>existsSync\<close>, \<open>mkdirSync\<close>, \<open>writeFileSync\<close> and \<open>saveFile\<close> with its
    try/catch (lines 146--161).
  \<^item> \<open>Worker\<close>: one worker: \<open>extractText\<close>'s callback, \<open>async.each\<close> with the
    order in which Tika's callbacks return as an explicit \<^emph>\<open>schedule\<close> (a
    permutation of the batch indices), \<open>handleComplete\<close> and the worker's
    main (lines 95--132). The runtime record \<open>wenv\<close> holds Tika as an oracle
    and the flag \<open>coerce_undefined\<close> (whether \<open>writeFileSync\<close> accepts
    \<open>undefined\<close>, as Node.js before 14 did).
  \<^item> \<open>PdfFilter\<close>: the two scripts' filters: \<open>/.pdf$/\<close> in the multicore
    script, \<open>/.*.pdf/\<close> in the sequential one, with \<open>String.prototype.search\<close>.
  \<^item> \<open>Orchestrator\<close>: the start of a multicore process: configuration from
    the arguments, the output folder, \<open>readFiles\<close>, \<open>prepareCluster\<close> for
    the master and for a worker, and \<open>init\<close> composing them.
  \<^item> \<open>Sequential\<close>: \<open>extract.js\<close>: \<open>seq_init\<close> with its defaults (OCR in
    English), \<open>seq_readFiles\<close>, \<open>processFiles\<close> with its \<open>pop\<close>-driven
    recursion \<open>seq_recurse\<close> (one Tika call at a time, from the end of the
    list) and its own \<open>extractText\<close>.
  \<^item> \<open>Cluster\<close>: the whole multicore run as the inductive step relation
    \<open>cstep\<close> over \<open>cstate\<close> (the file system, the log, the master's phase
    and each worker's phase, keyed by worker id): the master's fork, a
    failed fork, a worker's start and crash, one Tika callback of one worker
    and a worker's completion, in any interleaving. The executable step
    function \<open>cexec\<close> on the events \<open>cevent\<close> is proved equivalent to it and
    runs concrete schedules. The field \<open>cb_done\<close> is ghost state: the files
    whose callbacks have run, in completion order.
  \<^item> \<open>Server\<close>: \<open>server.js\<close>: the CORS middleware with its answer to
    \<open>OPTIONS\<close>, the index route and the four search routes with the
    Elasticsearch request each builds, Express's route matching
    (case-insensitive, optional trailing slash, \<open>decodeURIComponent\<close> with
    status 400 when it fails) and the response, with Elasticsearch as an
    oracle from request to error or result.

  \<^bold>\<open>What is proved.\<close>
  \<^item> Partition (C1--C8): \<open>chunkArray\<close> returns exactly when its chunk size
    is positive or its input empty and then equals the reference chunks
    (C5), loses and reorders nothing (C3), and has fixed-size chunks but the
    last (C4). The composition with the worker ids is wrong: \<open>chunkArray\<close>
    gets the worker count as the chunk \<^emph>\<open>size\<close>, so the workers are handed
    the prefix of length \<open>workerCount\<^sup>2\<close> (C2), all files are processed
    only if there are at most \<open>cpus\<^sup>2\<close> (C1), workers past the number of
    chunks crash (C6), no CPU hangs the master (C7), batches are unbalanced
    (C8).
  \<^item> Output naming and writer (C9--C11, C22--C24): the saved name is the
    base name plus \<open>.txt\<close>, outputs collide exactly when base names do,
    \<open>saveFile\<close> contains write errors, is idempotent and keeps the file
    system well formed.
  \<^item> Worker (C12--C21): every success is saved, nothing else is touched,
    the result is independent of the schedule unless base names collide,
    the exit code is always 0 or an uncaught error, failed extractions and
    the order of the log.
  \<^item> Filters and the sequential script (C25--C30): the two filters and
    where they differ; \<open>processFiles\<close> works through the list from its end,
    logs Tika's errors and writes what one worker with that batch would.
  \<^item> Cluster (C31--C36, invariant \<open>cinv\<close> on all reachable states by
    rule induction): exit codes, the output files as the fold of the
    callbacks that have run, liveness (every reachable state can be
    completed to a final one when there is a CPU, by induction on the
    measure \<open>pending_work\<close>), the processed prefix, the hang without CPUs,
    and the equivalence of \<open>cexec\<close> with \<open>cstep\<close>. C37 below checks the
    specification's scenarios 7 and 8 for every interleaving.
  \<^item> Server (C38--C40): each search route sends exactly its request and
    answers 200 (an Elasticsearch error too, with an empty body); every
    search is bounded to 100 hits of \<open>my-index\<close> without document bodies;
    every response carries the CORS headers, OPTIONS is answered 200 and a
    malformed escape 400, both without a search.

  \<^bold>\<open>Bounds and assumptions.\<close> No fuel is used: \<open>chunkArray\<close>'s loop is a
  partial function whose termination is proved where it holds, and every
  other recursion is structural or by a measure. The directory listing is
  the same in every process of a run (an input of the environment
  \<open>cenv\<close>). Characters are bytes.

  \<^bold>\<open>Not modelled.\<close> The internals of Tika (an oracle from path and options to
  text or error) and of Elasticsearch (an oracle from search request to
  result), the directory walk of \<open>node-dir\<close> (an input list), the timing of
  the event loop beyond the order of callbacks, console formatting beyond
  the structured log events, the UTF-8 check of \<open>decodeURIComponent\<close>,
  HTTP headers other than the CORS ones, the port and \<open>app.listen\<close> of the
  server, and the completion callback \<open>init\<close> stores, which neither script
  calls.
\<close>

text \<open>
  C37. The two scenarios of the specification hold for every interleaving of
  the processes, not only for one run. With two CPUs and the files a.pdf,
  b.pdf, c.pdf, every finished run in which no fork failed leaves a.pdf.txt,
  b.pdf.txt and c.pdf.txt holding the stub's text, and both workers exit with
  code 0 (scenario 7). With a stub that fails on b.pdf, a.pdf.txt and
  c.pdf.txt are written, b.pdf.txt is not (Node.js 14 and later), and both
  workers still exit with code 0 (scenario 8).
\<close>

theorem spec_scenarios:
  assumes "reachable (demo_cenv 2 ok_env) demo_fs s" "final s"
    "list_all (\<lambda>i. workers s i \<noteq> Some WSpawnFailed) [1..<3]"
    "reachable (demo_cenv 2 (demo_env False)) demo_fs t" "final t"
    "list_all (\<lambda>i. workers t i \<noteq> Some WSpawnFailed) [1..<3]"
  shows "map (fs_files (cfs s)) [(False, [''text'', ''a.pdf.txt'']), (False, [''text'', ''b.pdf.txt'']),
            (False, [''text'', ''c.pdf.txt''])] = [Some ''TEXT:a.pdf'', Some ''TEXT:b.pdf'', Some ''TEXT:c.pdf''] \<and>
         map (workers s) [1, 2] = [Some (WExited (ExitCode 0)), Some (WExited (ExitCode 0))] \<and>
         map (fs_files (cfs t)) [(False, [''text'', ''a.pdf.txt'']), (False, [''text'', ''b.pdf.txt'']),
            (False, [''text'', ''c.pdf.txt''])] = [Some ''TEXT:pdf/a.pdf'', None, Some ''TEXT:pdf/c.pdf''] \<and>
         map (workers t) [1, 2] = [Some (WExited (ExitCode 0)), Some (WExited (ExitCode 0))]"
proof -
  have keys: "map (\<lambda>f. resolve (output_path ''./text/'' f)) [''pdf/a.pdf'', ''pdf/b.pdf'', ''pdf/c.pdf''] =
      [(False, [''text'', ''a.pdf.txt'']), (False, [''text'', ''b.pdf.txt'']), (False, [''text'', ''c.pdf.txt''])]"
    by code_simp
  have ok: "map (\<lambda>f. file_upd ok_env default_options ''./text/'' demo_fs f Map.empty (resolve (output_path ''./text/'' f)))
      [''pdf/a.pdf'', ''pdf/b.pdf'', ''pdf/c.pdf''] = [Some ''TEXT:a.pdf'', Some ''TEXT:b.pdf'', Some ''TEXT:c.pdf'']"
    by code_simp
  have bad: "map (\<lambda>f. file_upd (demo_env False) default_options ''./text/'' demo_fs f Map.empty (resolve (output_path ''./text/'' f)))
      [''pdf/a.pdf'', ''pdf/b.pdf'', ''pdf/c.pdf''] = [Some ''TEXT:pdf/a.pdf'', None, Some ''TEXT:pdf/c.pdf'']"
    by code_simp
  have s1: "map (\<lambda>f. fs_files (cfs s) (resolve (output_path ''./text/'' f))) [''pdf/a.pdf'', ''pdf/b.pdf'', ''pdf/c.pdf''] =
      [Some ''TEXT:a.pdf'', Some ''TEXT:b.pdf'', Some ''TEXT:c.pdf'']"
    using conjunct1 [OF scenario_run [OF assms(1-3)]] ok by (rule trans)
  have t1: "map (\<lambda>f. fs_files (cfs t) (resolve (output_path ''./text/'' f))) [''pdf/a.pdf'', ''pdf/b.pdf'', ''pdf/c.pdf''] =
      [Some ''TEXT:pdf/a.pdf'', None, Some ''TEXT:pdf/c.pdf'']"
    using conjunct1 [OF scenario_run [OF assms(4-6)]] bad by (rule trans)
  show ?thesis
    unfolding keys [symmetric] map_map comp_def
    using s1 t1 conjunct2 [OF scenario_run [OF assms(1-3)]] conjunct2 [OF scenario_run [OF assms(4-6)]]
    by (intro conjI) assumption+
qed

theorem spec_scenarios_witness:
  "reachable (demo_cenv 2 ok_env) demo_fs (demo_final 2 ok_env spec_events) \<and>
   final (demo_final 2 ok_env spec_events) \<and>
   reachable (demo_cenv 2 (demo_env False)) demo_fs (demo_final 2 (demo_env False) spec_events) \<and>
   final (demo_final 2 (demo_env False) spec_events) \<and>
   map (fs_files (cfs (demo_final 2 (demo_env False) spec_events)))
     [(False, [''text'', ''a.pdf.txt'']), (False, [''text'', ''b.pdf.txt'']), (False, [''text'', ''c.pdf.txt''])] =
     [Some ''TEXT:pdf/a.pdf'', None, Some ''TEXT:pdf/c.pdf'']"
proof -
  have r1: "reachable (demo_cenv 2 ok_env) demo_fs (demo_final 2 ok_env spec_events)"
    by (rule demo_reachable) code_simp
  have f1: "final (demo_final 2 ok_env spec_events)" by code_simp
  have l1: "list_all (\<lambda>i. workers (demo_final 2 ok_env spec_events) i \<noteq> Some WSpawnFailed) [1..<3]"
    by code_simp
  have r2: "reachable (demo_cenv 2 (demo_env False)) demo_fs (demo_final 2 (demo_env False) spec_events)"
    by (rule demo_reachable) code_simp
  have f2: "final (demo_final 2 (demo_env False) spec_events)" by code_simp
  have l2: "list_all (\<lambda>i. workers (demo_final 2 (demo_env False) spec_events) i \<noteq> Some WSpawnFailed) [1..<3]"
    by code_simp
  from spec_scenarios [OF r1 f1 l1 r2 f2 l2] r1 f1 r2 f2 show ?thesis by blast
qed

end
